(* ===== verification/Flip_Base.thy ===== *)
theory Flip_Base
  imports Complex_Main "HOL-Library.Multiset"
begin

text \<open>
  Shared vocabulary of the development: the JavaScript values the backend handles
  (array reads that may be \<open>undefined\<close>, numbers that may be \<open>NaN\<close>, the one
  exception the server code can raise), the collection \<open>js_eval\<close> of evaluation rules
  used to run the model on concrete inputs, \<open>parseFloat\<close> with the lemma that it
  reads back a printed decimal, and generic list lemmas shared by the component
  theories.
\<close>

named_theorems js_eval "rules that evaluate the JavaScript primitives of the model"

section \<open>Exceptions\<close>

text \<open>
  The only exception the modelled server code can raise by itself is a
  \<open>TypeError\<close> from reading a property of \<open>undefined\<close> (an array read out of
  range followed by \<open>.marketcap\<close>). Network failures are handled where they occur
  and are inputs of the model, not exceptions.
\<close>

datatype js_error = TypeError

section \<open>Array reads\<close>

text \<open>
  \<open>xs[i]\<close> in JavaScript is \<open>undefined\<close> outside \<open>0 \<le> i < xs.length\<close>; it never
  raises. The model returns \<open>None\<close> there. Since every array element of the
  backend is an object, and objects are truthy, \<open>xs[i] || null\<close> is the same
  option.
\<close>

definition js_index :: "'a list \<Rightarrow> int \<Rightarrow> 'a option" where
  "js_index xs i = (if 0 \<le> i \<and> i < int (length xs) then Some (xs ! nat i) else None)"

declare js_index_def [js_eval]

section \<open>Numbers\<close>

text \<open>
  A JavaScript number is modelled as a real or \<open>NaN\<close>. Rounding and the infinities
  of IEEE doubles are not modelled: the quantities the backend handles (balances,
  prices, market caps) are finite, and every claim below is about the order and the
  arithmetic of the values the code computes. \<open>NaN\<close> is kept because
  \<open>parseFloat\<close> produces it and the code's guards are written to reject it.
\<close>

datatype jsnum = Num real | NaN

text \<open>\<open>c < x\<close> in JavaScript: every comparison with \<open>NaN\<close> is false.\<close>

fun js_gt :: "jsnum \<Rightarrow> real \<Rightarrow> bool" where
  "js_gt (Num x) c = (c < x)"
| "js_gt NaN c = False"

text \<open>Truthiness of a number (\<open>if (x)\<close>): false for \<open>0\<close> and \<open>NaN\<close>.\<close>

fun js_truthy_num :: "jsnum \<Rightarrow> bool" where
  "js_truthy_num (Num x) = (x \<noteq> 0)"
| "js_truthy_num NaN = False"

text \<open>Truthiness of a nullable number field: \<open>null\<close> is false.\<close>

fun js_truthy_opt :: "real option \<Rightarrow> bool" where
  "js_truthy_opt None = False"
| "js_truthy_opt (Some x) = (x \<noteq> 0)"

section \<open>parseFloat\<close>

text \<open>
  \<open>parseFloat\<close> (ECMAScript 262, 21.1.2.12) skips leading white space and reads the
  longest prefix that is a decimal literal: an optional sign, digits with an optional
  fraction, an optional exponent. Whatever follows is ignored (\<open>"12abc"\<close> is 12); no
  literal at all is \<open>NaN\<close>. The model covers this grammar; the literal
  \<open>Infinity\<close>, which has no finite value, reads as \<open>NaN\<close> here. Digits are
  accumulated on \<open>int\<close>.
\<close>

definition is_digit :: "char \<Rightarrow> bool" where
  "is_digit c \<longleftrightarrow> (48::nat) \<le> of_char c \<and> of_char c \<le> (57::nat)"

definition js_whitespace :: "char \<Rightarrow> bool" where
  "js_whitespace c \<longleftrightarrow> c \<in> set [CHR '' '', CHR 0x09, CHR 0x0A, CHR 0x0B, CHR 0x0C, CHR 0x0D]"

fun digits_value :: "int \<Rightarrow> string \<Rightarrow> int" where
  "digits_value acc [] = acc"
| "digits_value acc (c # cs) = digits_value (10 * acc + (of_char c - 48)) cs"

definition exponent_part :: "string \<Rightarrow> real" where
  "exponent_part s =
    (case s of
       c # r \<Rightarrow>
         if c = CHR ''e'' \<or> c = CHR ''E'' then
           (let (neg, r') =
                  (case r of
                     d # r'' \<Rightarrow> if d = CHR ''-'' then (True, r'')
                               else if d = CHR ''+'' then (False, r'') else (False, r)
                   | [] \<Rightarrow> (False, []));
                ds = takeWhile is_digit r'
            in if ds = [] then 1
               else if neg then 1 / 10 ^ nat (digits_value 0 ds)
               else 10 ^ nat (digits_value 0 ds))
         else 1
     | [] \<Rightarrow> 1)"

definition parse_unsigned :: "string \<Rightarrow> real option" where
  "parse_unsigned s =
    (let ip = takeWhile is_digit s;
         r1 = dropWhile is_digit s;
         (fp, r2) =
           (case r1 of
              c # r \<Rightarrow> if c = CHR ''.'' then (takeWhile is_digit r, dropWhile is_digit r)
                       else ([], r1)
            | [] \<Rightarrow> ([], []))
     in if ip = [] \<and> fp = [] then None
        else Some ((of_int (digits_value 0 ip) + of_int (digits_value 0 fp) / 10 ^ length fp)
                   * exponent_part r2))"

definition parseFloat :: "string \<Rightarrow> jsnum" where
  "parseFloat s =
    (let t = dropWhile js_whitespace s in
     case (case t of
             c # r \<Rightarrow> if c = CHR ''-'' then map_option uminus (parse_unsigned r)
                      else if c = CHR ''+'' then parse_unsigned r
                      else parse_unsigned t
           | [] \<Rightarrow> None) of
       None \<Rightarrow> NaN
     | Some x \<Rightarrow> Num x)"

text \<open>
  How a non-negative integer is written in the CSV file or in the environment: its
  decimal digits, most significant first, without sign or leading zeros. This is the
  printer of the round trip below, not code of the program.
\<close>

fun decimal_string :: "nat \<Rightarrow> string" where
  "decimal_string n =
    (if n < 10 then [char_of (48 + n)] else decimal_string (n div 10) @ [char_of (48 + n mod 10)])"

declare decimal_string.simps [simp del]

lemmas [js_eval] = js_gt.simps js_truthy_num.simps js_truthy_opt.simps

lemmas parse_eval = parseFloat_def parse_unsigned_def is_digit_def js_whitespace_def
  exponent_part_def

section \<open>Lemmas on the primitives\<close>

lemma js_index_in_range [simp]:
  "0 \<le> i \<Longrightarrow> i < int (length xs) \<Longrightarrow> js_index xs i = Some (xs ! nat i)"
  by (simp add: js_index_def)

lemma js_index_of_nat [simp]:
  "js_index xs (int i) = (if i < length xs then Some (xs ! i) else None)"
  by (simp add: js_index_def)

lemma js_index_Some_iff:
  "js_index xs i = Some x \<longleftrightarrow> 0 \<le> i \<and> i < int (length xs) \<and> xs ! nat i = x"
  by (auto simp: js_index_def)

lemma js_index_Nil [simp]: "js_index [] i = None"
  by (simp add: js_index_def)

lemma js_gt_Num_iff: "js_gt x c \<longleftrightarrow> (\<exists>r. x = Num r \<and> c < r)"
  by (cases x) auto

section \<open>Printing and parsing decimals\<close>

lemma digits_value_append:
  "digits_value acc (xs @ ys) = digits_value (digits_value acc xs) ys"
  by (induction xs arbitrary: acc) simp_all

lemma of_char_digit:
  assumes "d < 10"
  shows "(of_char (char_of (48 + d)) :: nat) = 48 + d" "(of_char (char_of (48 + d)) :: int) = 48 + int d"
proof -
  show n: "(of_char (char_of (48 + d)) :: nat) = 48 + d" using assms by (simp add: of_char_of)
  have "(of_char (char_of (48 + d)) :: int) = int (of_char (char_of (48 + d)))"
    by (simp only: of_nat_of_char)
  with n show "(of_char (char_of (48 + d)) :: int) = 48 + int d" by simp
qed

lemma decimal_string_is_digit: "c \<in> set (decimal_string n) \<Longrightarrow> is_digit c"
proof (induction n rule: decimal_string.induct)
  case (1 n)
  show ?case
  proof (cases "n < 10")
    case True
    with "1.prems" show ?thesis by (auto simp: decimal_string.simps [of n] is_digit_def of_char_digit)
  next
    case False
    with "1.prems" "1.IH" show ?thesis
      by (auto simp: decimal_string.simps [of n] is_digit_def of_char_digit)
  qed
qed

lemma decimal_string_value: "digits_value 0 (decimal_string n) = int n"
proof (induction n rule: decimal_string.induct)
  case (1 n)
  show ?case
  proof (cases "n < 10")
    case True
    then show ?thesis by (simp add: decimal_string.simps [of n] of_char_digit)
  next
    case False
    then have "digits_value 0 (decimal_string n) = 10 * int (n div 10) + int (n mod 10)"
      using "1.IH" by (simp add: decimal_string.simps [of n] digits_value_append of_char_digit)
    also have "\<dots> = int (10 * (n div 10) + n mod 10)" by (simp only: of_nat_mult of_nat_add of_nat_numeral)
    also have "\<dots> = int n" by (simp only: mult_div_mod_eq)
    finally show ?thesis .
  qed
qed

lemma decimal_string_Cons: "\<exists>d ds. decimal_string n = d # ds \<and> is_digit d"
proof -
  have "decimal_string n \<noteq> []"
    by (induction n rule: decimal_string.induct) (simp add: decimal_string.simps)
  then obtain d ds where "decimal_string n = d # ds" by (cases "decimal_string n") auto
  moreover have "is_digit d" using decimal_string_is_digit [of d n] calculation by simp
  ultimately show ?thesis by blast
qed

lemma is_digit_not_sign:
  "is_digit d \<Longrightarrow> \<not> js_whitespace d \<and> d \<noteq> CHR ''-'' \<and> d \<noteq> CHR ''+''"
  by (auto simp: is_digit_def js_whitespace_def)

text \<open>The digits of a printed number followed by text that does not continue a decimal
  literal: the end of the string, or a character that is no digit, no point and no
  exponent mark.\<close>

lemma parse_unsigned_decimal_string:
  assumes rest: "rest = [] \<or> (\<not> is_digit (hd rest) \<and> hd rest \<notin> set ''.eE'')"
  shows "parse_unsigned (decimal_string n @ rest) = Some (of_nat n)"
proof -
  have digits: "\<And>c. c \<in> set (decimal_string n) \<Longrightarrow> is_digit c" by (rule decimal_string_is_digit)
  then have tw: "takeWhile is_digit (decimal_string n) = decimal_string n"
    and dw: "dropWhile is_digit (decimal_string n) = []"
    by (simp_all add: takeWhile_eq_all_conv dropWhile_eq_Nil_conv)
  have ne: "decimal_string n \<noteq> []" using decimal_string_Cons [of n] by auto
  show ?thesis
  proof (cases rest)
    case Nil
    with ne show ?thesis
      by (simp add: parse_unsigned_def Let_def tw dw exponent_part_def decimal_string_value)
  next
    case (Cons c r)
    with rest have "\<not> is_digit c" "c \<noteq> CHR ''.''" "c \<noteq> CHR ''e''" "c \<noteq> CHR ''E''" by auto
    with Cons digits ne show ?thesis
      by (simp add: parse_unsigned_def Let_def takeWhile_append2 dropWhile_append2 exponent_part_def
          decimal_string_value)
  qed
qed

section \<open>Lists\<close>

lemma sorted_map_nth_mono:
  "sorted (map f xs) \<Longrightarrow> i \<le> j \<Longrightarrow> j < length xs \<Longrightarrow> f (xs ! i) \<le> f (xs ! j)"
  using sorted_nth_mono by fastforce

lemma strict_sorted_map_nth_less:
  "sorted_wrt (<) (map f xs) \<Longrightarrow> i < j \<Longrightarrow> j < length xs \<Longrightarrow> f (xs ! i) < f (xs ! j)"
  using sorted_wrt_nth_less by fastforce

lemma length_takeWhile_eqI:
  "k \<le> length xs \<Longrightarrow> (\<forall>i<k. P (xs ! i)) \<Longrightarrow> (k < length xs \<Longrightarrow> \<not> P (xs ! k)) \<Longrightarrow>
   length (takeWhile P xs) = k"
proof (induction xs arbitrary: k)
  case Nil
  then show ?case by simp
next
  case (Cons x xs)
  show ?case
  proof (cases k)
    case 0
    with Cons.prems show ?thesis by simp
  next
    case (Suc j)
    with Cons.prems have "P x" by fastforce
    from Suc Cons.prems have "length (takeWhile P xs) = j"
      by (intro Cons.IH) auto
    with \<open>P x\<close> Suc show ?thesis by simp
  qed
qed

lemma takeWhile_nth_less:
  "i < length (takeWhile P xs) \<Longrightarrow> P (xs ! i)"
  by (metis nth_mem set_takeWhileD takeWhile_nth)

lemma length_takeWhile_mono:
  "(\<And>x. P x \<Longrightarrow> Q x) \<Longrightarrow> length (takeWhile P xs) \<le> length (takeWhile Q xs)"
  by (induction xs) auto

lemma set_map_filter: "x \<in> set (List.map_filter f xs) \<longleftrightarrow> (\<exists>y\<in>set xs. f y = Some x)"
  by (induction xs) (auto simp: List.map_filter_def split: option.splits)

lemma map_filter_append [simp]:
  "List.map_filter f (xs @ ys) = List.map_filter f xs @ List.map_filter f ys"
  by (simp add: List.map_filter_def)

lemma find_append [simp]:
  "find P (xs @ ys) = (case find P xs of None \<Rightarrow> find P ys | Some x \<Rightarrow> Some x)"
  by (induction xs) auto

text \<open>
  \<open>parseFloat\<close> reads back a printed number: the decimal digits of \<open>n\<close>, with or
  without a minus sign, give \<open>n\<close> or \<open>-n\<close>, and a suffix that does not continue
  the literal is ignored.
\<close>

lemma parseFloat_decimal_string:
  assumes "rest = [] \<or> (\<not> is_digit (hd rest) \<and> hd rest \<notin> set ''.eE'')"
  shows "parseFloat (decimal_string n @ rest) = Num (of_nat n) \<and>
         parseFloat (CHR ''-'' # decimal_string n @ rest) = Num (- of_nat n)"
proof -
  obtain d ds where d: "decimal_string n = d # ds" "is_digit d" using decimal_string_Cons by blast
  note p = parse_unsigned_decimal_string [OF assms, of n]
  with d is_digit_not_sign [OF d(2)] show ?thesis by (simp add: parseFloat_def js_whitespace_def)
qed

lemma exponent_part_digits:
  assumes "ks \<noteq> []" "\<And>c. c \<in> set ks \<Longrightarrow> is_digit c"
  shows "exponent_part (CHR ''e'' # ks) = 10 ^ nat (digits_value 0 ks)"
proof -
  obtain d ds where d: "ks = d # ds" using assms(1) by (cases ks) auto
  with assms(2) have dig: "is_digit d" and tw: "takeWhile is_digit ds = ds"
    by (simp_all add: takeWhile_eq_all_conv)
  from d dig is_digit_not_sign [OF dig] show ?thesis
    by (simp add: exponent_part_def tw del: digits_value.simps)
qed

text \<open>A printed number with a printed exponent, as in \<open>"1e9"\<close>.\<close>

lemma parseFloat_decimal_exp:
  "parseFloat (decimal_string n @ CHR ''e'' # decimal_string k) = Num (of_nat n * 10 ^ k)"
proof -
  have dn: "\<And>c. c \<in> set (decimal_string n) \<Longrightarrow> is_digit c" by (rule decimal_string_is_digit)
  obtain d ds where d: "decimal_string n = d # ds" "is_digit d" using decimal_string_Cons by blast
  have nek: "decimal_string k \<noteq> []" using decimal_string_Cons [of k] by auto
  have ne: "\<not> is_digit CHR ''e''" by (simp add: is_digit_def)
  have "exponent_part (CHR ''e'' # decimal_string k) = 10 ^ k"
    using exponent_part_digits [OF nek decimal_string_is_digit] by (simp add: decimal_string_value)
  moreover have "parse_unsigned (decimal_string n @ CHR ''e'' # decimal_string k) =
      Some (of_nat n * exponent_part (CHR ''e'' # decimal_string k))"
  proof -
    have nen: "decimal_string n \<noteq> []" using d(1) by simp
    from dn have tw: "takeWhile is_digit (decimal_string n) = decimal_string n"
      by (simp add: takeWhile_eq_all_conv)
    show ?thesis using dn ne nen
      by (simp add: parse_unsigned_def Let_def takeWhile_append2 dropWhile_append2 tw
          decimal_string_value)
  qed
  ultimately show ?thesis
    using d is_digit_not_sign [OF d(2)] by (simp add: parseFloat_def js_whitespace_def)
qed

lemma decimal_string_12: "decimal_string 12 = ''12''"
  by (simp add: decimal_string.simps [of 12] decimal_string.simps [of "Suc 0"] char_of_def bit_0)

end
