(* ===== verification/ValuationFeed.thy ===== *)
theory ValuationFeed
  imports Flip_Base
begin

text \<open>
  The valuation feed of \<^verbatim>\<open>src/src/cryptoflipbackend/getmarketcaps.js\<close>: the
  global \<open>priceCache\<close>, the SOL/USD price fetch \<open>fetchSolUsdPrice\<close>, the vault
  balance fetch \<open>fetchTokenBalance\<close>, the configuration read \<open>getTotalSupply\<close> and
  the computation \<open>calculateAndEmitMarketCap\<close>. Each HTTP call is an input of the
  model: the outcome of the \<open>axios\<close> request together with the JSON field the code
  reads. An \<open>async\<close> function is modelled by what it does after its last
  \<open>await\<close>, where all its reads and writes of \<open>priceCache\<close> happen; the
  \<open>'marketcap'\<close> event it emits is the second component of its result.
\<close>

section \<open>HTTP outcomes\<close>

text \<open>
  The JSON value at the path the code reads (\<open>response.data.solana.usd\<close>,
  \<open>response.data.result.value.uiAmount\<close>): a number, \<open>null\<close> or absent.
  \<open>HttpThrows\<close> is every outcome that ends in the \<open>catch\<close> block: a network
  error, a status that \<open>axios\<close> rejects, or an intermediate object of the path that
  is missing (reading a property of \<open>undefined\<close>).
\<close>

datatype json = JNull | JUndefined | JNumber real

datatype http_result = HttpThrows | HttpResponse nat json

section \<open>State\<close>

record price_cache =
  solUsd :: "real option"
  lastUpdated :: nat
  splTokenUsd :: "real option"

definition priceCache_init :: price_cache where
  "priceCache_init = \<lparr>solUsd = None, lastUpdated = 0, splTokenUsd = None\<rparr>"

section \<open>Operations\<close>

text \<open>\<open>parseFloat\<close> of a JSON value: a number is itself, \<open>null\<close> and
  \<open>undefined\<close> are \<open>NaN\<close>.\<close>

fun json_parseFloat :: "json \<Rightarrow> jsnum" where
  "json_parseFloat (JNumber x) = Num x"
| "json_parseFloat JNull = NaN"
| "json_parseFloat JUndefined = NaN"

text \<open>
  \<open>fetchSolUsdPrice\<close>: on status 200 with a truthy price (a number other than 0)
  the cache takes it; every other outcome leaves the cache as it was.
\<close>

definition fetchSolUsdPrice :: "http_result \<Rightarrow> price_cache \<Rightarrow> price_cache" where
  "fetchSolUsdPrice r pc =
    (case r of
       HttpThrows \<Rightarrow> pc
     | HttpResponse status solPrice \<Rightarrow>
         if status = 200 then
           (case solPrice of
              JNumber p \<Rightarrow> if p \<noteq> 0 then pc\<lparr>solUsd := Some p\<rparr> else pc
            | _ \<Rightarrow> pc)
         else pc)"

text \<open>
  \<open>fetchTokenBalance\<close>: \<open>parseFloat(uiAmount)\<close> on status 200 when the amount is
  not \<open>null\<close> (an absent amount parses to \<open>NaN\<close>), 0 on every failure.
\<close>

definition fetchTokenBalance :: "http_result \<Rightarrow> jsnum" where
  "fetchTokenBalance r =
    (case r of
       HttpThrows \<Rightarrow> Num 0
     | HttpResponse status balance \<Rightarrow>
         if status = 200 then (if balance \<noteq> JNull then json_parseFloat balance else Num 0)
         else Num 0)"

text \<open>
  \<open>getTotalSupply\<close> reads \<open>process.env.TOKEN_TOTAL_SUPPLY\<close> (\<open>None\<close> when
  unset): an unset or empty variable, a value that parses to \<open>NaN\<close> or to a number
  that is not positive gives \<open>null\<close>.
\<close>

definition getTotalSupply :: "string option \<Rightarrow> real option" where
  "getTotalSupply TOKEN_TOTAL_SUPPLY =
    (case TOKEN_TOTAL_SUPPLY of
       None \<Rightarrow> None
     | Some s \<Rightarrow>
         if s = [] then None
         else (case parseFloat s of
                 Num totalSupply \<Rightarrow> if 0 < totalSupply then Some totalSupply else None
               | NaN \<Rightarrow> None))"

text \<open>
  \<open>calculateAndEmitMarketCap\<close>: the two balances (wrapped SOL vault first, token vault
  second, as the two \<open>await\<close>s run), the guard \<open>wsolBalance > 0 &&
  splTokenBalance > 0\<close> (false for \<open>NaN\<close>), the price in SOL and its
  \<open>priceInSol <= 0\<close> guard, the truthiness test of the cached SOL price, the write
  of \<open>priceCache.splTokenUsd\<close>, and the emission of \<open>splTokenUsd * totalSupply\<close>
  when the total supply is valid.
\<close>

definition calculateAndEmitMarketCap ::
  "string option \<Rightarrow> http_result \<Rightarrow> http_result \<Rightarrow> price_cache \<Rightarrow> price_cache \<times> real option" where
  "calculateAndEmitMarketCap TOKEN_TOTAL_SUPPLY r_wsol r_token pc =
    (let wsolBalance = fetchTokenBalance r_wsol;
         splTokenBalance = fetchTokenBalance r_token
     in case (wsolBalance, splTokenBalance) of
          (Num w, Num t) \<Rightarrow>
            if 0 < w \<and> 0 < t then
              (let priceInSol = w / t in
               if priceInSol \<le> 0 then (pc, None)
               else (case solUsd pc of
                       None \<Rightarrow> (pc, None)
                     | Some sol \<Rightarrow>
                         if sol = 0 then (pc, None)
                         else (let tokenUsd = priceInSol * sol;
                                   pc' = pc\<lparr>splTokenUsd := Some tokenUsd\<rparr>
                               in case getTotalSupply TOKEN_TOTAL_SUPPLY of
                                    None \<Rightarrow> (pc', None)
                                  | Some totalSupply \<Rightarrow> (pc', Some (tokenUsd * totalSupply)))))
            else (pc, None)
        | _ \<Rightarrow> (pc, None))"

section \<open>Configuration and requests\<close>

text \<open>
  The settings read from \<open>process.env\<close> when the module is loaded (lines 11--16),
  each \<open>None\<close> when unset. A template literal \<open>`${x}`\<close> writes an unset variable
  as \<open>"undefined"\<close>; so does \<open>HELIUS_API_URL\<close> (line 21) with an unset key.
\<close>

record feed_config =
  cfg_helius_api_key :: "string option"
  cfg_wsol_vault :: "string option"
  cfg_token_vault :: "string option"
  cfg_spl_token_symbol :: "string option"
  cfg_token_total_supply :: "string option"

definition js_interpolate :: "string option \<Rightarrow> string" where
  "js_interpolate x = (case x of None \<Rightarrow> ''undefined'' | Some v \<Rightarrow> v)"

definition HELIUS_API_URL :: "feed_config \<Rightarrow> string" where
  "HELIUS_API_URL cfg = ''https://mainnet.helius-rpc.com/?api-key='' @ js_interpolate (cfg_helius_api_key cfg)"

text \<open>The JSON-RPC call of \<open>fetchTokenBalance(vaultAddress)\<close> (lines 61--69): a POST
  of \<open>getTokenAccountBalance\<close> with the vault address to \<open>HELIUS_API_URL\<close>.\<close>

record rpc_request =
  rpc_url :: string
  rpc_jsonrpc :: string
  rpc_id :: nat
  rpc_method :: string
  rpc_params :: "string option list"

definition balance_request :: "feed_config \<Rightarrow> string option \<Rightarrow> rpc_request" where
  "balance_request cfg vaultAddress =
    \<lparr>rpc_url = HELIUS_API_URL cfg, rpc_jsonrpc = ''2.0'', rpc_id = 1,
     rpc_method = ''getTokenAccountBalance'', rpc_params = [vaultAddress]\<rparr>"

text \<open>
  A tick as \<open>calculateAndEmitMarketCap\<close> issues it (lines 110--111): the WSOL vault's
  balance first, then the token vault's, each the network's answer \<open>net\<close> to the
  request; the total supply is the configured one.
\<close>

definition calculate_with_network ::
  "feed_config \<Rightarrow> (rpc_request \<Rightarrow> http_result) \<Rightarrow> price_cache \<Rightarrow> price_cache \<times> real option" where
  "calculate_with_network cfg net pc =
    calculateAndEmitMarketCap (cfg_token_total_supply cfg)
      (net (balance_request cfg (cfg_wsol_vault cfg))) (net (balance_request cfg (cfg_token_vault cfg))) pc"

lemmas feed_defs = fetchSolUsdPrice_def fetchTokenBalance_def getTotalSupply_def
  calculateAndEmitMarketCap_def priceCache_init_def

section \<open>Lemmas\<close>

lemma calculate_skip:
  "\<not> js_gt (fetchTokenBalance r_wsol) 0 \<or> \<not> js_gt (fetchTokenBalance r_token) 0 \<Longrightarrow>
   calculateAndEmitMarketCap tts r_wsol r_token pc = (pc, None)"
  by (auto simp: calculateAndEmitMarketCap_def js_gt_Num_iff split: jsnum.splits)

lemma calculate_emit_Some:
  "calculateAndEmitMarketCap tts r_wsol r_token pc = (pc', Some m) \<Longrightarrow>
   \<exists>w t sol T. fetchTokenBalance r_wsol = Num w \<and> fetchTokenBalance r_token = Num t \<and>
      0 < w \<and> 0 < t \<and> solUsd pc = Some sol \<and> sol \<noteq> 0 \<and> getTotalSupply tts = Some T \<and>
      pc' = pc\<lparr>splTokenUsd := Some (w / t * sol)\<rparr> \<and> m = w / t * sol * T"
  by (auto simp: calculateAndEmitMarketCap_def Let_def split: jsnum.splits option.splits if_splits)

section \<open>Properties\<close>

text \<open>
  C14: a tick emits exactly when both balances are positive numbers, a SOL price is
  cached (and is not 0) and the total supply is valid; it then stores the token price
  \<open>wsol / token * solUsd\<close> and emits that price times the total supply.
\<close>

theorem calculateAndEmitMarketCap_spec:
  "calculateAndEmitMarketCap tts r_wsol r_token pc = (pc', Some m) \<longleftrightarrow>
   (\<exists>w t sol T. fetchTokenBalance r_wsol = Num w \<and> fetchTokenBalance r_token = Num t \<and>
      0 < w \<and> 0 < t \<and> solUsd pc = Some sol \<and> sol \<noteq> 0 \<and> getTotalSupply tts = Some T \<and>
      pc' = pc\<lparr>splTokenUsd := Some (w / t * sol)\<rparr> \<and> m = w / t * sol * T)"
  by (auto simp: calculateAndEmitMarketCap_def Let_def divide_le_0_iff
      split: jsnum.splits option.splits if_splits)

text \<open>
  C15: the ticks that are skipped (spec sections 4.3 and 8): a tick whose token-vault
  balance fetch fails, has no amount or reports 0 emits no event and leaves the price
  cache untouched; so does a tick without a cached SOL price; and with an unset or
  invalid \<open>TOKEN_TOTAL_SUPPLY\<close> no tick ever emits (while the process keeps running,
  where spec section 4.3 requires a fatal startup error).
\<close>

theorem calculateAndEmitMarketCap_skips:
  "((r_token = HttpThrows \<or> r_token = HttpResponse 200 JNull \<or>
     r_token = HttpResponse 200 JUndefined \<or> r_token = HttpResponse 200 (JNumber 0) \<or>
     (\<exists>st b. r_token = HttpResponse st b \<and> st \<noteq> 200)) \<longrightarrow>
      calculateAndEmitMarketCap tts r_wsol r_token pc = (pc, None)) \<and>
   (solUsd pc = None \<longrightarrow> calculateAndEmitMarketCap tts r_wsol r_token pc = (pc, None)) \<and>
   (getTotalSupply tts = None \<longrightarrow> snd (calculateAndEmitMarketCap tts r_wsol r_token pc) = None)"
proof (intro conjI impI)
  assume "r_token = HttpThrows \<or> r_token = HttpResponse 200 JNull \<or>
     r_token = HttpResponse 200 JUndefined \<or> r_token = HttpResponse 200 (JNumber 0) \<or>
     (\<exists>st b. r_token = HttpResponse st b \<and> st \<noteq> 200)"
  then have "\<not> js_gt (fetchTokenBalance r_wsol) 0 \<or> \<not> js_gt (fetchTokenBalance r_token) 0"
    by (auto simp: fetchTokenBalance_def)
  then show "calculateAndEmitMarketCap tts r_wsol r_token pc = (pc, None)" by (rule calculate_skip)
next
  assume "solUsd pc = None"
  then show "calculateAndEmitMarketCap tts r_wsol r_token pc = (pc, None)"
    by (simp add: calculateAndEmitMarketCap_def Let_def split: jsnum.splits)
next
  assume ts: "getTotalSupply tts = None"
  show "snd (calculateAndEmitMarketCap tts r_wsol r_token pc) = None"
  proof (cases "snd (calculateAndEmitMarketCap tts r_wsol r_token pc)")
    case (Some m)
    then have "calculateAndEmitMarketCap tts r_wsol r_token pc =
        (fst (calculateAndEmitMarketCap tts r_wsol r_token pc), Some m)"
      by (metis prod.collapse)
    with ts show ?thesis using calculate_emit_Some by fastforce
  qed simp
qed

theorem calculateAndEmitMarketCap_skips_witness:
  "calculateAndEmitMarketCap (Some ''1000'') (HttpResponse 200 (JNumber 5)) HttpThrows
     (priceCache_init\<lparr>solUsd := Some 150\<rparr>) = (priceCache_init\<lparr>solUsd := Some 150\<rparr>, None) \<and>
   calculateAndEmitMarketCap (Some ''1000'') (HttpResponse 200 (JNumber 5))
     (HttpResponse 200 (JNumber 10)) priceCache_init = (priceCache_init, None) \<and>
   snd (calculateAndEmitMarketCap (Some ''abc'') (HttpResponse 200 (JNumber 5))
     (HttpResponse 200 (JNumber 10)) (priceCache_init\<lparr>solUsd := Some 150\<rparr>)) = None"
proof -
  note a = calculateAndEmitMarketCap_skips [of HttpThrows "Some ''1000''" "HttpResponse 200 (JNumber 5)"
      "priceCache_init\<lparr>solUsd := Some 150\<rparr>"]
  note b = calculateAndEmitMarketCap_skips [of "HttpResponse 200 (JNumber 10)" "Some ''1000''"
      "HttpResponse 200 (JNumber 5)" priceCache_init]
  note c = calculateAndEmitMarketCap_skips [of "HttpResponse 200 (JNumber 10)" "Some ''abc''"
      "HttpResponse 200 (JNumber 5)" "priceCache_init\<lparr>solUsd := Some 150\<rparr>"]
  have "solUsd priceCache_init = None" "getTotalSupply (Some ''abc'') = None"
    by (simp_all add: priceCache_init_def getTotalSupply_def parse_eval)
  with a b c show ?thesis by blast
qed

text \<open>
  C17: an emitted market cap is positive exactly when the cached SOL price is
  positive: the balances and the total supply only scale it by positive factors.
\<close>

theorem calculateAndEmitMarketCap_sign:
  assumes "calculateAndEmitMarketCap tts r_wsol r_token pc = (pc', Some m)"
  shows "0 < m \<longleftrightarrow> (\<exists>sol. solUsd pc = Some sol \<and> 0 < sol)"
proof -
  from assms obtain w t sol T where
    h: "0 < w" "0 < t" "solUsd pc = Some sol" "getTotalSupply tts = Some T" "m = w / t * sol * T"
    using calculate_emit_Some by blast
  have "0 < T" using h(4) by (auto simp: getTotalSupply_def split: option.splits if_splits jsnum.splits)
  with h show ?thesis by (auto simp: zero_less_mult_iff zero_less_divide_iff)
qed

theorem calculateAndEmitMarketCap_sign_witness:
  "calculateAndEmitMarketCap (Some ''1000'') (HttpResponse 200 (JNumber 5))
     (HttpResponse 200 (JNumber 10)) (priceCache_init\<lparr>solUsd := Some 150\<rparr>) =
   (priceCache_init\<lparr>solUsd := Some 150, splTokenUsd := Some 75\<rparr>, Some 75000) \<and>
   (0 < (75000::real))"
proof -
  have c: "calculateAndEmitMarketCap (Some ''1000'') (HttpResponse 200 (JNumber 5))
     (HttpResponse 200 (JNumber 10)) (priceCache_init\<lparr>solUsd := Some 150\<rparr>) =
   (priceCache_init\<lparr>solUsd := Some 150, splTokenUsd := Some 75\<rparr>, Some 75000)"
    by (simp add: feed_defs parse_eval)
  from calculateAndEmitMarketCap_sign [OF c] c show ?thesis by (simp add: priceCache_init_def)
qed

text \<open>
  C18: \<open>fetchSolUsdPrice\<close> either leaves the cache as it was (every failure, a
  missing, null or zero price) or stores the non-zero price of a status-200 response,
  and every non-zero price of a status-200 response is stored.
\<close>

theorem fetchSolUsdPrice_cases:
  "(fetchSolUsdPrice r pc = pc \<or>
    (\<exists>p. p \<noteq> 0 \<and> r = HttpResponse 200 (JNumber p) \<and> fetchSolUsdPrice r pc = pc\<lparr>solUsd := Some p\<rparr>)) \<and>
   fetchSolUsdPrice (HttpResponse 200 (JNumber x)) pc = (if x = 0 then pc else pc\<lparr>solUsd := Some x\<rparr>)"
proof (rule conjI)
  show "fetchSolUsdPrice r pc = pc \<or>
    (\<exists>p. p \<noteq> 0 \<and> r = HttpResponse 200 (JNumber p) \<and> fetchSolUsdPrice r pc = pc\<lparr>solUsd := Some p\<rparr>)"
  proof (cases r)
    case (HttpResponse status b)
    then show ?thesis by (cases b) (auto simp: fetchSolUsdPrice_def)
  qed (simp add: fetchSolUsdPrice_def)
qed (simp add: fetchSolUsdPrice_def)

text \<open>
  \<open>if (solPrice)\<close> accepts any non-zero price, so a negative quote is cached and
  the next tick emits a negative market cap (spec section 4.2 requires a positive
  price and leaves the cache untouched otherwise).
\<close>

lemma fetchSolUsdPrice_negative_price:
  "fetchSolUsdPrice (HttpResponse 200 (JNumber (-150))) priceCache_init =
     priceCache_init\<lparr>solUsd := Some (-150)\<rparr> \<and>
   snd (calculateAndEmitMarketCap (Some ''1000000000'') (HttpResponse 200 (JNumber 50))
     (HttpResponse 200 (JNumber 1000000)) (priceCache_init\<lparr>solUsd := Some (-150)\<rparr>)) =
     Some (-7500000)"
  by (simp add: feed_defs parse_eval)

text \<open>
  C20: an unset \<open>HELIUS_API_KEY\<close> is not detected: both balance requests of a tick
  go to \<open>...?api-key=undefined\<close>, and when the RPC endpoint rejects such requests
  (an error status or a failed call) no tick ever emits and the cache is untouched;
  the process keeps running without a value (spec section 7 names no such startup
  check).
\<close>

theorem missing_api_key_no_emission:
  assumes key: "cfg_helius_api_key cfg = None"
    and net: "\<And>rq. rpc_url rq = ''https://mainnet.helius-rpc.com/?api-key=undefined'' \<Longrightarrow>
                 net rq = HttpThrows \<or> (\<exists>st b. net rq = HttpResponse st b \<and> st \<noteq> 200)"
  shows "rpc_url (balance_request cfg (cfg_wsol_vault cfg)) =
           ''https://mainnet.helius-rpc.com/?api-key=undefined'' \<and>
         rpc_url (balance_request cfg (cfg_token_vault cfg)) =
           ''https://mainnet.helius-rpc.com/?api-key=undefined'' \<and>
         calculate_with_network cfg net pc = (pc, None)"
proof -
  have url: "\<And>v. rpc_url (balance_request cfg v) = ''https://mainnet.helius-rpc.com/?api-key=undefined''"
    using key by (simp add: balance_request_def HELIUS_API_URL_def js_interpolate_def)
  from net [OF url [of "cfg_token_vault cfg"]]
  have "\<not> js_gt (fetchTokenBalance (net (balance_request cfg (cfg_token_vault cfg)))) 0"
    by (elim disjE exE) (simp_all add: fetchTokenBalance_def)
  then have "calculate_with_network cfg net pc = (pc, None)"
    unfolding calculate_with_network_def by (intro calculate_skip) simp
  with url show ?thesis by simp
qed

theorem missing_api_key_no_emission_witness:
  "calculate_with_network
     \<lparr>cfg_helius_api_key = None, cfg_wsol_vault = Some ''W'', cfg_token_vault = Some ''T'',
      cfg_spl_token_symbol = None, cfg_token_total_supply = Some ''1000''\<rparr>
     (\<lambda>rq. HttpResponse 401 JUndefined) (priceCache_init\<lparr>solUsd := Some 150\<rparr>) =
   (priceCache_init\<lparr>solUsd := Some 150\<rparr>, None)"
  using missing_api_key_no_emission [where cfg =
      "\<lparr>cfg_helius_api_key = None, cfg_wsol_vault = Some ''W'', cfg_token_vault = Some ''T'',
        cfg_spl_token_symbol = None, cfg_token_total_supply = Some ''1000''\<rparr>"
      and net = "\<lambda>rq. HttpResponse 401 JUndefined" and pc = "priceCache_init\<lparr>solUsd := Some 150\<rparr>"]
  by simp

text \<open>
  C21: \<open>getTotalSupply\<close> on a printed setting: the decimal digits of \<open>n\<close> give
  \<open>n\<close> when it is positive and \<open>null\<close> for 0; with a minus sign they give
  \<open>null\<close>; and \<open>parseFloat\<close> ignores a suffix that does not continue the number,
  so \<open>TOKEN_TOTAL_SUPPLY="12abc"\<close> is accepted as 12. A setting in exponent form,
  \<open>"ne k"\<close>, gives \<open>n * 10^k\<close>.
\<close>

theorem getTotalSupply_decimal_roundtrip:
  assumes "rest = [] \<or> (\<not> is_digit (hd rest) \<and> hd rest \<notin> set ''.eE'')"
  shows "getTotalSupply (Some (decimal_string n @ rest)) = (if n = 0 then None else Some (of_nat n)) \<and>
         getTotalSupply (Some (CHR ''-'' # decimal_string n @ rest)) = None \<and>
         getTotalSupply (Some (decimal_string n @ CHR ''e'' # decimal_string k)) =
           (if n = 0 then None else Some (of_nat n * 10 ^ k))"
proof -
  have ne: "decimal_string n @ rest \<noteq> []" using decimal_string_Cons [of n] by auto
  note pf = parseFloat_decimal_string [OF assms, of n]
  have nee: "decimal_string n @ CHR ''e'' # decimal_string k \<noteq> []" by simp
  show ?thesis
    using ne nee by (simp only: getTotalSupply_def option.case pf parseFloat_decimal_exp) simp
qed

theorem getTotalSupply_decimal_roundtrip_witness:
  "getTotalSupply (Some ''12abc'') = Some 12 \<and> getTotalSupply (Some ''-12abc'') = None \<and>
   getTotalSupply (Some ''12e3'') = Some 12000"
proof -
  have "''abc'' = [] \<or> (\<not> is_digit (hd ''abc'') \<and> hd ''abc'' \<notin> set ''.eE'')"
    by (simp add: is_digit_def)
  moreover have "decimal_string 3 = ''3''"
    by (simp add: decimal_string.simps [of 3] char_of_def bit_0)
  ultimately show ?thesis
    using getTotalSupply_decimal_roundtrip [of "''abc''" 12 3] decimal_string_12 by simp
qed

text \<open>
  C22: what a tick can learn from a balance fetch: it reads a non-zero balance
  \<open>x\<close> exactly when the call returned status 200 with the amount \<open>x\<close>, and
  \<open>NaN\<close> exactly when a status-200 response has no amount; every other outcome
  (an exception, another status, a \<open>null\<close> amount, an amount of 0) reads 0, so a
  failed fetch cannot be told from an empty vault.
\<close>

theorem fetchTokenBalance_cases:
  "(fetchTokenBalance r = Num x \<and> x \<noteq> 0 \<longleftrightarrow> r = HttpResponse 200 (JNumber x) \<and> x \<noteq> 0) \<and>
   (fetchTokenBalance r = NaN \<longleftrightarrow> r = HttpResponse 200 JUndefined)"
proof (cases r)
  case (HttpResponse status b)
  then show ?thesis by (cases b) (simp_all add: fetchTokenBalance_def)
qed (simp add: fetchTokenBalance_def)

end
