(* ===== verification/ReferenceStore.thy ===== *)
theory ReferenceStore
  imports Flip_Base "HOL-Library.Log_Nat"
begin

text \<open>
  The ranked reference store of \<^verbatim>\<open>src/src/cryptoflipbackend/server.js\<close>: the
  company record, the binary search \<open>findInsertPosition\<close> (lines 83--101) and the
  neighbour query \<open>determineCompanies\<close> (lines 106--132). The global array
  \<open>companies\<close> the JavaScript functions read is their first argument here. The
  abstract specification is \<open>lower_bound\<close> (the index of the first entry whose
  market cap is at least the query) and \<open>resolveNeighbors\<close> (spec section 4.1); the
  lemmas relate the code to them, first for any list, then for a list sorted by
  market cap (the store invariant), then for a strictly sorted one. The loop with an
  iteration budget (\<open>bsearch_fuel\<close>) gives its time bound and its termination from
  any state.
\<close>

section \<open>Data\<close>

text \<open>A row of the reference list: \<open>{name, symbol, marketcap}\<close>.\<close>

record company =
  name :: string
  symbol :: string
  marketcap :: real

section \<open>Binary search\<close>

text \<open>
  The \<open>while (left <= right)\<close> loop of \<open>findInsertPosition\<close>, with its three
  variables as arguments. \<open>Math.floor((left + right) / 2)\<close> is \<open>div 2\<close> on
  integers (both round towards minus infinity). The element is read with
  \<open>js_index\<close>: had the loop left the array, \<open>companies[mid].marketcap\<close> would
  raise a \<open>TypeError\<close>, which is the \<open>Inl\<close> branch. The loop stops because
  \<open>right - left\<close> shrinks in both recursive calls.
\<close>

function bsearch_loop :: "company list \<Rightarrow> real \<Rightarrow> int \<Rightarrow> int \<Rightarrow> int \<Rightarrow> js_error + int" where
  "bsearch_loop cs v left right result =
    (if left \<le> right then
       (let mid = (left + right) div 2 in
        case js_index cs mid of
          None \<Rightarrow> Inl TypeError
        | Some c \<Rightarrow>
            if marketcap c = v then Inr mid
            else if marketcap c < v then bsearch_loop cs v (mid + 1) right result
            else bsearch_loop cs v left (mid - 1) mid)
     else Inr result)"
  by pat_completeness auto
termination
  by (relation "measure (\<lambda>(cs, v, l, r, res). nat (r - l + 1))") auto

declare bsearch_loop.simps [simp del]

definition findInsertPosition :: "company list \<Rightarrow> real \<Rightarrow> js_error + int" where
  "findInsertPosition cs v = bsearch_loop cs v 0 (int (length cs) - 1) (int (length cs))"

text \<open>
  The same loop with an iteration budget: each pass through the body spends one unit,
  and a loop test that is still true when the budget is spent gives \<open>None\<close>. It
  counts the iterations of the \<open>while\<close> loop, for the bound of spec section 2
  (a logarithmic-time query).
\<close>

fun bsearch_fuel ::
  "nat \<Rightarrow> company list \<Rightarrow> real \<Rightarrow> int \<Rightarrow> int \<Rightarrow> int \<Rightarrow> (js_error + int) option" where
  "bsearch_fuel 0 cs v left right result = (if left \<le> right then None else Some (Inr result))"
| "bsearch_fuel (Suc n) cs v left right result =
    (if left \<le> right then
       (let mid = (left + right) div 2 in
        case js_index cs mid of
          None \<Rightarrow> Some (Inl TypeError)
        | Some c \<Rightarrow>
            if marketcap c = v then Some (Inr mid)
            else if marketcap c < v then bsearch_fuel n cs v (mid + 1) right result
            else bsearch_fuel n cs v left (mid - 1) mid)
     else Some (Inr result))"

section \<open>Neighbour query\<close>

text \<open>
  \<open>determineCompanies\<close> assigns the globals \<open>currentCompany\<close> and
  \<open>nextUpCompany\<close>; the model returns the pair, and the market cap listener
  (theory \<open>BroadcastHub\<close>) stores it. An empty store gives \<open>(null, null)\<close>.
  \<open>companies[i] || null\<close> is \<open>js_index\<close>.
\<close>

definition determineCompanies ::
  "company list \<Rightarrow> real \<Rightarrow> js_error + (company option \<times> company option)" where
  "determineCompanies cs v =
    (if cs = [] then Inr (None, None)
     else (case findInsertPosition cs v of
             Inl e \<Rightarrow> Inl e
           | Inr position \<Rightarrow>
               if position = 0 then Inr (js_index cs 0, js_index cs 1)
               else if position = int (length cs)
               then Inr (js_index cs (int (length cs) - 1), None)
               else Inr (js_index cs position, js_index cs (position + 1))))"

section \<open>Loading the list\<close>

text \<open>
  \<open>loadCSVData\<close> (lines 38--76): \<open>csv-parser\<close> yields one object per row with the
  header fields \<open>Name\<close>, \<open>Symbol\<close>, \<open>marketcap\<close> (absent fields are
  \<open>undefined\<close>, \<open>None\<close> here). A row becomes a company when its name and symbol are
  non-empty strings and \<open>parseFloat\<close> of its market cap is a number \<open>\<ge> 0\<close>; the
  others are skipped with a warning. At \<open>'end'\<close> the kept rows, in file order, are
  sorted by \<open>(a, b) => a.marketcap - b.marketcap\<close>, a stable sort (ECMAScript 2019)
  by market cap. A read error rejects the promise.
\<close>

record csv_row =
  Name :: "string option"
  Symbol :: "string option"
  marketcap_field :: "string option"

datatype csv_read = ReadError | Rows "csv_row list"

datatype load_error = LoadError

definition row_company :: "csv_row \<Rightarrow> company option" where
  "row_company data =
    (let m = (case marketcap_field data of None \<Rightarrow> NaN | Some t \<Rightarrow> parseFloat t) in
     case (Name data, Symbol data, m) of
       (Some n, Some sy, Num mc) \<Rightarrow>
         if n \<noteq> [] \<and> sy \<noteq> [] \<and> 0 \<le> mc then Some \<lparr>name = n, symbol = sy, marketcap = mc\<rparr>
         else None
     | _ \<Rightarrow> None)"

definition loadCSVData :: "csv_read \<Rightarrow> load_error + company list" where
  "loadCSVData r =
    (case r of
       ReadError \<Rightarrow> Inl LoadError
     | Rows rows \<Rightarrow> Inr (sort_key marketcap (List.map_filter row_company rows)))"

text \<open>The dataset of the loading scenario of spec section 8: a valid row, a row
  with a negative value, a non-numeric one, a row without a symbol, and two valid
  rows out of order.\<close>

definition scenario_rows :: "csv_row list" where
  "scenario_rows =
    [\<lparr>Name = Some ''C'', Symbol = Some ''C'', marketcap_field = Some ''300''\<rparr>,
     \<lparr>Name = Some ''N'', Symbol = Some ''N'', marketcap_field = Some ''-5''\<rparr>,
     \<lparr>Name = Some ''X'', Symbol = Some ''X'', marketcap_field = Some ''n/a''\<rparr>,
     \<lparr>Name = Some ''S'', Symbol = None, marketcap_field = Some ''10''\<rparr>,
     \<lparr>Name = Some ''A'', Symbol = Some ''A'', marketcap_field = Some ''100''\<rparr>,
     \<lparr>Name = Some ''B'', Symbol = Some ''B'', marketcap_field = Some ''200''\<rparr>]"

section \<open>Abstract specification\<close>

text \<open>
  Spec section 4.1: \<open>findRankPosition\<close> is the index of the first entry with
  \<open>entry.value \<ge> value\<close>, or the length; \<open>resolveNeighbors\<close> reports that entry
  (the last one past the end) and its successor.
\<close>

definition lower_bound :: "company list \<Rightarrow> real \<Rightarrow> nat" where
  "lower_bound cs v = length (takeWhile (\<lambda>c. marketcap c < v) cs)"

definition resolveNeighbors :: "company list \<Rightarrow> real \<Rightarrow> company option \<times> company option" where
  "resolveNeighbors cs v =
    (if cs = [] then (None, None)
     else (let p = lower_bound cs v in
           if p = length cs then (Some (last cs), None)
           else (Some (cs ! p), js_index cs (int p + 1))))"

text \<open>
  The reference list of the scenario of spec section 8, and a list with a tie at 100
  (the CSV may hold two companies of equal market cap).
\<close>

definition scenario_store :: "company list" where
  "scenario_store =
    [\<lparr>name = ''A'', symbol = ''A'', marketcap = 100\<rparr>,
     \<lparr>name = ''B'', symbol = ''B'', marketcap = 200\<rparr>,
     \<lparr>name = ''C'', symbol = ''C'', marketcap = 300\<rparr>]"

definition tied_store :: "company list" where
  "tied_store =
    [\<lparr>name = ''X'', symbol = ''X'', marketcap = 100\<rparr>,
     \<lparr>name = ''Y'', symbol = ''Y'', marketcap = 100\<rparr>,
     \<lparr>name = ''Z'', symbol = ''Z'', marketcap = 200\<rparr>]"

abbreviation sorted_store :: "company list \<Rightarrow> bool" where
  "sorted_store cs \<equiv> sorted (map marketcap cs)"

abbreviation strictly_sorted_store :: "company list \<Rightarrow> bool" where
  "strictly_sorted_store cs \<equiv> sorted_wrt (<) (map marketcap cs)"

section \<open>The lower bound\<close>

lemma lower_bound_le_length: "lower_bound cs v \<le> length cs"
  unfolding lower_bound_def by (rule length_takeWhile_le)

lemma lower_bound_below: "i < lower_bound cs v \<Longrightarrow> marketcap (cs ! i) < v"
  unfolding lower_bound_def by (rule takeWhile_nth_less)

lemma lower_bound_at: "lower_bound cs v < length cs \<Longrightarrow> v \<le> marketcap (cs ! lower_bound cs v)"
  unfolding lower_bound_def using nth_length_takeWhile by fastforce

lemma lower_bound_eqI:
  "k \<le> length cs \<Longrightarrow> (\<forall>i<k. marketcap (cs ! i) < v) \<Longrightarrow>
   (\<forall>i. k \<le> i \<longrightarrow> i < length cs \<longrightarrow> v \<le> marketcap (cs ! i)) \<Longrightarrow> lower_bound cs v = k"
  unfolding lower_bound_def by (rule length_takeWhile_eqI) auto

lemma lower_bound_mono: "v \<le> w \<Longrightarrow> lower_bound cs v \<le> lower_bound cs w"
  unfolding lower_bound_def by (rule length_takeWhile_mono) simp

lemma lower_bound_above_sorted:
  "sorted_store cs \<Longrightarrow> lower_bound cs v \<le> i \<Longrightarrow> i < length cs \<Longrightarrow> v \<le> marketcap (cs ! i)"
  using lower_bound_at sorted_map_nth_mono
  by (metis le_less_trans order_trans)

lemma lower_bound_least:
  "sorted_store cs \<Longrightarrow> d \<in> set cs \<Longrightarrow> v \<le> marketcap d \<Longrightarrow>
   lower_bound cs v < length cs \<and> marketcap (cs ! lower_bound cs v) \<le> marketcap d"
proof -
  assume s: "sorted_store cs" and d: "d \<in> set cs" and v: "v \<le> marketcap d"
  then obtain j where j: "j < length cs" "cs ! j = d" by (auto simp: in_set_conv_nth)
  with v have "\<not> j < lower_bound cs v" using lower_bound_below by fastforce
  with j s show ?thesis using sorted_map_nth_mono by fastforce
qed

section \<open>The search loop\<close>

lemma mid_bounds:
  "l \<le> r \<Longrightarrow> l \<le> (l + r) div 2 \<and> (l + r) div 2 \<le> (r::int)"
  by linarith

lemma bsearch_loop_exit: "\<not> l \<le> r \<Longrightarrow> bsearch_loop cs v l r res = Inr res"
  by (simp add: bsearch_loop.simps [of cs v l r res])

text \<open>One iteration, when the probe \<open>mid\<close> is inside the array.\<close>

lemma bsearch_loop_step:
  assumes "0 \<le> l" "l \<le> r" "r < int (length cs)"
  defines "mid \<equiv> (l + r) div 2"
  shows "bsearch_loop cs v l r res =
    (if marketcap (cs ! nat mid) = v then Inr mid
     else if marketcap (cs ! nat mid) < v then bsearch_loop cs v (mid + 1) r res
     else bsearch_loop cs v l (mid - 1) mid)"
proof -
  have "js_index cs mid = Some (cs ! nat mid)"
    using assms mid_bounds [of l r] by simp
  with assms(2) show ?thesis
    by (simp add: bsearch_loop.simps [of cs v l r res] Let_def mid_def)
qed

text \<open>
  Without any assumption on the order of the list, the loop started as
  \<open>findInsertPosition\<close> starts it never leaves the array and returns an index in
  \<open>[0, length]\<close>: the invariant is \<open>0 \<le> left\<close>, \<open>right < length\<close> and
  \<open>0 \<le> result \<le> length\<close>.
\<close>

lemma bsearch_loop_total:
  "0 \<le> l \<Longrightarrow> r < int (length cs) \<Longrightarrow> 0 \<le> res \<Longrightarrow> res \<le> int (length cs) \<Longrightarrow>
   \<exists>p. bsearch_loop cs v l r res = Inr p \<and> 0 \<le> p \<and> p \<le> int (length cs)"
proof (induction cs v l r res rule: bsearch_loop.induct)
  case (1 cs v left right result)
  show ?case
  proof (cases "left \<le> right")
    case False
    with "1.prems" show ?thesis by (simp add: bsearch_loop_exit)
  next
    case True
    define mid where "mid = (left + right) div 2"
    have mid: "left \<le> mid" "mid \<le> right" using True by (simp_all add: mid_def)
    with "1.prems" have idx: "js_index cs mid = Some (cs ! nat mid)" by simp
    note step = bsearch_loop_step [OF "1.prems"(1) True "1.prems"(2), of v result,
        folded mid_def]
    consider (eq) "marketcap (cs ! nat mid) = v" | (lt) "marketcap (cs ! nat mid) < v"
      | (gt) "v < marketcap (cs ! nat mid)"
      by fastforce
    then show ?thesis
    proof cases
      case eq
      with step mid "1.prems" show ?thesis by simp
    next
      case lt
      with "1.IH"(1)[OF True mid_def idx] mid "1.prems" step show ?thesis by simp
    next
      case gt
      with "1.IH"(2)[OF True mid_def idx] mid "1.prems" step show ?thesis by simp
    qed
  qed
qed

text \<open>
  On a sorted list the loop keeps the classical invariant of a lower-bound search:
  every entry left of \<open>left\<close> is below the query, every entry right of \<open>right\<close>
  is at or above it, and \<open>result = right + 1\<close>. It returns the lower bound, or,
  through the early \<open>return mid\<close>, some index holding the query value itself.
\<close>

lemma bsearch_loop_sorted:
  "sorted_store cs \<Longrightarrow> 0 \<le> l \<Longrightarrow> l \<le> r + 1 \<Longrightarrow> r < int (length cs) \<Longrightarrow> res = r + 1 \<Longrightarrow>
   (\<forall>i. int i < l \<longrightarrow> marketcap (cs ! i) < v) \<Longrightarrow>
   (\<forall>i. r < int i \<longrightarrow> i < length cs \<longrightarrow> v \<le> marketcap (cs ! i)) \<Longrightarrow>
   \<exists>p. bsearch_loop cs v l r res = Inr p \<and>
       (p = int (lower_bound cs v) \<or> (0 \<le> p \<and> p < int (length cs) \<and> marketcap (cs ! nat p) = v))"
proof (induction cs v l r res rule: bsearch_loop.induct)
  case (1 cs v left right result)
  show ?case
  proof (cases "left \<le> right")
    case False
    with "1.prems" have eq: "left = right + 1" by simp
    have "lower_bound cs v = nat left"
      by (rule lower_bound_eqI) (use "1.prems" eq in auto)
    moreover have "bsearch_loop cs v left right result = Inr result"
      using False by (rule bsearch_loop_exit)
    ultimately show ?thesis using "1.prems" eq by simp
  next
    case True
    define mid where "mid = (left + right) div 2"
    have mid: "left \<le> mid" "mid \<le> right" using True by (simp_all add: mid_def)
    with "1.prems" have idx: "js_index cs mid = Some (cs ! nat mid)" by simp
    note step = bsearch_loop_step [OF "1.prems"(2) True "1.prems"(4), of v result,
        folded mid_def]
    consider (eq) "marketcap (cs ! nat mid) = v" | (lt) "marketcap (cs ! nat mid) < v"
      | (gt) "v < marketcap (cs ! nat mid)"
      by fastforce
    then show ?thesis
    proof cases
      case eq
      moreover have "0 \<le> mid \<and> mid < int (length cs)" using mid "1.prems" by simp
      ultimately show ?thesis using step by simp
    next
      case lt
      have "\<forall>i. int i < mid + 1 \<longrightarrow> marketcap (cs ! i) < v"
      proof (intro allI impI)
        fix i assume "int i < mid + 1"
        then have "marketcap (cs ! i) \<le> marketcap (cs ! nat mid)"
          using "1.prems" mid by (intro sorted_map_nth_mono) auto
        with lt show "marketcap (cs ! i) < v" by simp
      qed
      with "1.IH"(1)[OF True mid_def idx _ lt] lt mid "1.prems" step show ?thesis by simp
    next
      case gt
      have "\<forall>i. mid - 1 < int i \<longrightarrow> i < length cs \<longrightarrow> v \<le> marketcap (cs ! i)"
      proof (intro allI impI)
        fix i assume "mid - 1 < int i" "i < length cs"
        then have "marketcap (cs ! nat mid) \<le> marketcap (cs ! i)"
          using "1.prems" mid by (intro sorted_map_nth_mono) auto
        with gt show "v \<le> marketcap (cs ! i)" by simp
      qed
      with "1.IH"(2)[OF True mid_def idx] gt mid "1.prems" step show ?thesis by simp
    qed
  qed
qed

section \<open>Iterations of the loop\<close>

text \<open>Each iteration at least halves the width \<open>right - left + 1\<close> of the
  interval still to be searched.\<close>

lemma mid_halves:
  "2 * (r - ((l + r) div 2)) \<le> r - l + 1 \<and> 2 * ((l + r) div 2 - l) \<le> r - l + (1::int)"
  by presburger

text \<open>A budget of \<open>n\<close> iterations is enough as soon as the width is below \<open>2^n\<close>,
  and the budgeted loop then agrees with the loop.\<close>

lemma bsearch_fuel_log:
  "r - l + 1 < 2 ^ n \<Longrightarrow> bsearch_fuel n cs v l r res = Some (bsearch_loop cs v l r res)"
proof (induction n arbitrary: l r res)
  case 0
  then show ?case by (simp add: bsearch_loop_exit)
next
  case (Suc n)
  show ?case
  proof (cases "l \<le> r")
    case False
    then show ?thesis by (simp add: bsearch_loop_exit)
  next
    case True
    define mid where "mid = (l + r) div 2"
    have h: "2 * (r - mid) \<le> r - l + 1" "2 * (mid - l) \<le> r - l + 1"
      using mid_halves [of r l] by (simp_all add: mid_def)
    with Suc.prems have "r - (mid + 1) + 1 < 2 ^ n" "mid - 1 - l + 1 < 2 ^ n" by simp_all
    with Suc.IH have "bsearch_fuel n cs v (mid + 1) r res = Some (bsearch_loop cs v (mid + 1) r res)"
      "bsearch_fuel n cs v l (mid - 1) mid = Some (bsearch_loop cs v l (mid - 1) mid)" by blast+
    with True show ?thesis
      by (simp add: bsearch_loop.simps [of cs v l r res] Let_def mid_def [symmetric]
          split: option.split)
  qed
qed

section \<open>Search results\<close>

lemma findInsertPosition_cases_sorted:
  "sorted_store cs \<Longrightarrow> findInsertPosition cs v = Inr p \<Longrightarrow>
   p = int (lower_bound cs v) \<or> (0 \<le> p \<and> p < int (length cs) \<and> marketcap (cs ! nat p) = v)"
  using bsearch_loop_sorted [of cs 0 "int (length cs) - 1" "int (length cs)" v]
  by (auto simp: findInsertPosition_def)

lemma findInsertPosition_range:
  "findInsertPosition cs v = Inr p \<Longrightarrow> 0 \<le> p \<and> p \<le> int (length cs)"
  using bsearch_loop_total [of 0 "int (length cs) - 1" cs "int (length cs)" v]
  by (auto simp: findInsertPosition_def)

lemma findInsertPosition_Inr: "\<exists>p. findInsertPosition cs v = Inr p"
  using bsearch_loop_total [of 0 "int (length cs) - 1" cs "int (length cs)" v]
  by (auto simp: findInsertPosition_def)

text \<open>An index holding exactly the query value lies at or after the lower bound,
  and the lower bound holds the query value too.\<close>

lemma tie_at_lower_bound:
  assumes "sorted_store cs" "0 \<le> p" "p < int (length cs)" "marketcap (cs ! nat p) = v"
  shows "lower_bound cs v \<le> nat p \<and> lower_bound cs v < length cs \<and>
         marketcap (cs ! lower_bound cs v) = v"
proof -
  have in_set: "cs ! nat p \<in> set cs" using assms(2,3) by simp
  from lower_bound_least [OF assms(1) in_set] assms(4)
  have lb: "lower_bound cs v < length cs" "marketcap (cs ! lower_bound cs v) \<le> v" by simp_all
  with lower_bound_at have "marketcap (cs ! lower_bound cs v) = v" by fastforce
  moreover have "lower_bound cs v \<le> nat p"
    using lower_bound_below [of "nat p" cs v] assms(4) by fastforce
  ultimately show ?thesis using lb by simp
qed

lemma findInsertPosition_sorted_value:
  assumes "sorted_store cs" "findInsertPosition cs v = Inr p"
  shows "int (lower_bound cs v) \<le> p \<and> (p = int (length cs) \<longleftrightarrow> lower_bound cs v = length cs) \<and>
         (p < int (length cs) \<longrightarrow> marketcap (cs ! nat p) = marketcap (cs ! lower_bound cs v))"
  using findInsertPosition_cases_sorted [OF assms] tie_at_lower_bound [OF assms(1), of p v]
  by auto

lemma findInsertPosition_strict_lb:
  assumes "strictly_sorted_store cs"
  shows "findInsertPosition cs v = Inr (int (lower_bound cs v))"
proof -
  have s: "sorted_store cs" using assms by (rule strict_sorted_imp_sorted)
  obtain p where p: "findInsertPosition cs v = Inr p" using findInsertPosition_Inr by blast
  have "p = int (lower_bound cs v)"
  proof (cases "p = int (lower_bound cs v)")
    case False
    with findInsertPosition_cases_sorted [OF s p]
    have p': "0 \<le> p" "p < int (length cs)" "marketcap (cs ! nat p) = v" by auto
    with tie_at_lower_bound [OF s p'] False have "lower_bound cs v < nat p" by linarith
    with strict_sorted_map_nth_less [OF assms] p' have "marketcap (cs ! lower_bound cs v) < v"
      by fastforce
    with tie_at_lower_bound [OF s p'] show ?thesis by simp
  qed
  with p show ?thesis by simp
qed

text \<open>
  Once the search has returned a position in \<open>[0, length]\<close>, the three branches
  of \<open>determineCompanies\<close> collapse to two: the position-0 branch computes what the
  general branch would.
\<close>

lemma determineCompanies_position:
  assumes ne: "cs \<noteq> []" and p: "findInsertPosition cs v = Inr p"
  shows "determineCompanies cs v =
    Inr (if p = int (length cs) then (Some (last cs), None)
         else (Some (cs ! nat p), js_index cs (p + 1)))"
proof -
  have r: "0 \<le> p" "p \<le> int (length cs)" using findInsertPosition_range [OF p] by simp_all
  have len: "0 < length cs" using ne by simp
  have dc: "determineCompanies cs v =
    (if p = 0 then Inr (js_index cs 0, js_index cs 1)
     else if p = int (length cs) then Inr (js_index cs (int (length cs) - 1), None)
     else Inr (js_index cs p, js_index cs (p + 1)))"
    using ne p by (simp add: determineCompanies_def)
  show ?thesis
  proof (cases "p = int (length cs)")
    case True
    obtain n where n: "length cs = Suc n" using len by (cases "length cs") auto
    then have "js_index cs (int (length cs) - 1) = Some (last cs)"
      using ne by (simp add: last_conv_nth)
    with True len dc show ?thesis by simp
  next
    case False
    with r have "js_index cs p = Some (cs ! nat p)" by simp
    with False dc show ?thesis by (cases "p = 0") simp_all
  qed
qed

lemma determineCompanies_Inr:
  "\<exists>cur nxt. determineCompanies cs v = Inr (cur, nxt)"
proof (cases "cs = []")
  case True
  then show ?thesis by (simp add: determineCompanies_def)
next
  case False
  obtain p where "findInsertPosition cs v = Inr p" using findInsertPosition_Inr by blast
  from determineCompanies_position [OF False this] show ?thesis
    by (cases "p = int (length cs)") auto
qed

lemma resolveNeighbors_at_lb:
  "cs \<noteq> [] \<Longrightarrow> resolveNeighbors cs v =
    (if int (lower_bound cs v) = int (length cs) then (Some (last cs), None)
     else (Some (cs ! lower_bound cs v), js_index cs (int (lower_bound cs v) + 1)))"
  by (simp add: resolveNeighbors_def Let_def)

lemma determineCompanies_current_lb:
  assumes s: "sorted_store cs" and d: "determineCompanies cs v = Inr (cur, nxt)"
    and lb: "lower_bound cs v < length cs"
  shows "\<exists>c. cur = Some c \<and> c \<in> set cs \<and> marketcap c = marketcap (cs ! lower_bound cs v)"
proof -
  have ne: "cs \<noteq> []" using lb by auto
  obtain p where p: "findInsertPosition cs v = Inr p" using findInsertPosition_Inr by blast
  note val = findInsertPosition_sorted_value [OF s p]
  with lb findInsertPosition_range [OF p] have pn: "0 \<le> p" "p < int (length cs)" by auto
  with d determineCompanies_position [OF ne p] have "cur = Some (cs ! nat p)" by simp
  with pn val show ?thesis by auto
qed

lemma determineCompanies_lb_length:
  assumes s: "sorted_store cs" and ne: "cs \<noteq> []" and lb: "lower_bound cs v = length cs"
  shows "determineCompanies cs v = Inr (Some (last cs), None)"
proof -
  obtain p where p: "findInsertPosition cs v = Inr p" using findInsertPosition_Inr by blast
  with findInsertPosition_sorted_value [OF s p] lb have "p = int (length cs)" by simp
  with determineCompanies_position [OF ne p] show ?thesis by simp
qed

text \<open>C1: the binary search never raises.\<close>

theorem findInsertPosition_total:
  "\<exists>p. findInsertPosition cs v = Inr p \<and> 0 \<le> p \<and> p \<le> int (length cs)"
  using bsearch_loop_total [of 0 "int (length cs) - 1" cs "int (length cs)" v]
  by (auto simp: findInsertPosition_def)

lemma sorted_store_le_last:
  "sorted_store cs \<Longrightarrow> c \<in> set cs \<Longrightarrow> marketcap c \<le> marketcap (last cs)"
proof -
  assume s: "sorted_store cs" and c: "c \<in> set cs"
  then obtain i where i: "i < length cs" "cs ! i = c" by (auto simp: in_set_conv_nth)
  then have "marketcap (cs ! i) \<le> marketcap (cs ! (length cs - 1))"
    using s by (intro sorted_map_nth_mono) auto
  moreover have "cs \<noteq> []" using i by auto
  ultimately show ?thesis using i by (simp add: last_conv_nth)
qed

lemmas store_examples = scenario_store_def tied_store_def

text \<open>
  C2: on a store sorted strictly by market cap, \<open>findInsertPosition\<close> is the
  spec's \<open>findRankPosition\<close>: every entry before the returned index is below the
  query, and the entry at the index (if any) is at or above it.
\<close>

theorem findInsertPosition_first_geq:
  assumes "strictly_sorted_store cs" "findInsertPosition cs v = Inr p"
  shows "0 \<le> p \<and> p \<le> int (length cs) \<and> (\<forall>i. int i < p \<longrightarrow> marketcap (cs ! i) < v) \<and>
         (p < int (length cs) \<longrightarrow> v \<le> marketcap (cs ! nat p))"
proof -
  from assms have p: "p = int (lower_bound cs v)" using findInsertPosition_strict_lb by simp
  then show ?thesis
    using lower_bound_le_length [of cs v] lower_bound_below [of _ cs v] lower_bound_at [of cs v]
    by auto
qed

theorem findInsertPosition_first_geq_witness:
  "strictly_sorted_store scenario_store \<and> findInsertPosition scenario_store 150 = Inr 1 \<and>
   marketcap (scenario_store ! 0) < 150 \<and> 150 \<le> marketcap (scenario_store ! 1)"
proof -
  have s: "strictly_sorted_store scenario_store" by (simp add: store_examples)
  have f: "findInsertPosition scenario_store 150 = Inr 1"
    by (simp add: store_examples findInsertPosition_def bsearch_loop.simps js_index_def)
  from findInsertPosition_first_geq [OF s f] have
      "\<forall>i. int i < 1 \<longrightarrow> marketcap (scenario_store ! i) < 150"
      "1 < int (length scenario_store) \<longrightarrow> 150 \<le> marketcap (scenario_store ! nat 1)"
    by simp_all
  with s f show ?thesis by (simp add: store_examples)
qed

text \<open>
  C3: on a store sorted by market cap (ties allowed), \<open>findInsertPosition\<close> returns
  the spec's first entry at or above the query, or, through the early
  \<open>return mid\<close> on an exact match, a later entry that ties with it: both then
  hold exactly the query value.
\<close>

theorem findInsertPosition_sorted:
  assumes "sorted_store cs" "findInsertPosition cs v = Inr p"
  shows "p = int (lower_bound cs v) \<or>
         (lower_bound cs v < nat p \<and> p < int (length cs) \<and>
          marketcap (cs ! nat p) = v \<and> marketcap (cs ! lower_bound cs v) = v)"
proof (cases "p = int (lower_bound cs v)")
  case False
  with findInsertPosition_cases_sorted [OF assms]
  have p: "0 \<le> p" "p < int (length cs)" "marketcap (cs ! nat p) = v" by auto
  with tie_at_lower_bound [OF assms(1) p] False show ?thesis by auto
qed simp

theorem findInsertPosition_sorted_witness:
  "sorted_store tied_store \<and> findInsertPosition tied_store 100 = Inr 1 \<and>
   lower_bound tied_store 100 < 1 \<and> marketcap (tied_store ! 1) = 100 \<and>
   marketcap (tied_store ! lower_bound tied_store 100) = 100"
proof -
  have s: "sorted_store tied_store" by (simp add: store_examples)
  have f: "findInsertPosition tied_store 100 = Inr 1"
    by (simp add: store_examples findInsertPosition_def bsearch_loop.simps js_index_def)
  have lb: "lower_bound tied_store 100 = 0" by (simp add: store_examples lower_bound_def)
  from findInsertPosition_sorted [OF s f] lb s f show ?thesis by simp
qed

text \<open>
  C4: on a strictly sorted store, \<open>determineCompanies\<close> implements the spec's
  \<open>resolveNeighbors\<close> exactly (functional refinement): the match or the entry
  above the query, and its successor; the last entry past the end.
\<close>

theorem determineCompanies_refines:
  assumes "strictly_sorted_store cs"
  shows "determineCompanies cs v = Inr (resolveNeighbors cs v)"
proof (cases "cs = []")
  case True
  then show ?thesis by (simp add: determineCompanies_def resolveNeighbors_def)
next
  case False
  from determineCompanies_position [OF False findInsertPosition_strict_lb [OF assms]]
    resolveNeighbors_at_lb [OF False]
  show ?thesis by simp
qed

theorem determineCompanies_refines_witness:
  "strictly_sorted_store scenario_store \<and>
   determineCompanies scenario_store 150 = Inr (resolveNeighbors scenario_store 150)"
proof -
  have s: "strictly_sorted_store scenario_store" by (simp add: store_examples)
  from determineCompanies_refines [OF s, of 150] s show ?thesis by simp
qed

text \<open>
  C5: on a sorted store with ties, the entry \<open>determineCompanies\<close> reports as current
  may be another entry than the spec's, but it has the same market cap.
\<close>

theorem determineCompanies_current_value:
  assumes s: "sorted_store cs" and d: "determineCompanies cs v = Inr (cur, nxt)"
  shows "map_option marketcap cur = map_option marketcap (fst (resolveNeighbors cs v))"
proof (cases "cs = []")
  case True
  with d show ?thesis by (simp add: determineCompanies_def resolveNeighbors_def)
next
  case ne: False
  obtain p where p: "findInsertPosition cs v = Inr p" using findInsertPosition_Inr by blast
  note pos = determineCompanies_position [OF ne p]
  note val = findInsertPosition_sorted_value [OF s p]
  note rs = resolveNeighbors_at_lb [OF ne, of v]
  show ?thesis
  proof (cases "p = int (length cs)")
    case True
    with d pos val rs show ?thesis by simp
  next
    case False
    with findInsertPosition_range [OF p] have "p < int (length cs)" by simp
    with False d pos val rs show ?thesis by auto
  qed
qed

theorem determineCompanies_current_value_witness:
  "sorted_store tied_store \<and>
   determineCompanies tied_store 100 = Inr (Some (tied_store ! 1), Some (tied_store ! 2)) \<and>
   map_option marketcap (Some (tied_store ! 1)) =
     map_option marketcap (fst (resolveNeighbors tied_store 100))"
proof -
  have s: "sorted_store tied_store" by (simp add: store_examples)
  have d: "determineCompanies tied_store 100 = Inr (Some (tied_store ! 1), Some (tied_store ! 2))"
    by (simp add: store_examples determineCompanies_def findInsertPosition_def
        bsearch_loop.simps js_index_def)
  from determineCompanies_current_value [OF s d] s d show ?thesis by simp
qed

text \<open>
  C6: on a sorted store, whenever some entry is at or above the query, the current
  company is an entry of the store at or above the query, and no entry at or above
  the query has a smaller market cap.
\<close>

theorem determineCompanies_least_above:
  assumes s: "sorted_store cs" and d: "determineCompanies cs v = Inr (cur, nxt)"
    and e: "e \<in> set cs" "v \<le> marketcap e"
  shows "\<exists>c. cur = Some c \<and> c \<in> set cs \<and> v \<le> marketcap c \<and> marketcap c \<le> marketcap e"
proof -
  have ne: "cs \<noteq> []" using e by auto
  obtain p where p: "findInsertPosition cs v = Inr p" using findInsertPosition_Inr by blast
  have lb: "lower_bound cs v < length cs" "marketcap (cs ! lower_bound cs v) \<le> marketcap e"
    using lower_bound_least [OF s e] by simp_all
  note val = findInsertPosition_sorted_value [OF s p]
  with lb findInsertPosition_range [OF p] have pn: "0 \<le> p" "p < int (length cs)" by auto
  with d determineCompanies_position [OF ne p] have "cur = Some (cs ! nat p)" by simp
  moreover have "cs ! nat p \<in> set cs" using pn by simp
  moreover have "v \<le> marketcap (cs ! lower_bound cs v)" using lb(1) by (rule lower_bound_at)
  ultimately show ?thesis using val pn lb by auto
qed

theorem determineCompanies_least_above_witness:
  "sorted_store scenario_store \<and>
   determineCompanies scenario_store 150 = Inr (Some (scenario_store ! 1), Some (scenario_store ! 2)) \<and>
   150 \<le> marketcap (scenario_store ! 1) \<and>
   marketcap (scenario_store ! 1) \<le> marketcap (scenario_store ! 2)"
proof -
  have s: "sorted_store scenario_store" by (simp add: store_examples)
  have d: "determineCompanies scenario_store 150 =
      Inr (Some (scenario_store ! 1), Some (scenario_store ! 2))"
    by (simp add: store_examples determineCompanies_def findInsertPosition_def
        bsearch_loop.simps js_index_def)
  have e: "scenario_store ! 2 \<in> set scenario_store" "150 \<le> marketcap (scenario_store ! 2)"
    by (simp_all add: store_examples)
  from determineCompanies_least_above [OF s d e] s d e show ?thesis by simp
qed

text \<open>
  C7: the ends of a sorted non-empty store: a query above every entry reports the
  last (largest) entry as current and no next company; a query below every entry
  reports the first (smallest) entry as current and the second, if any, as next.
\<close>

theorem determineCompanies_ends:
  assumes s: "sorted_store cs" and ne: "cs \<noteq> []"
  shows "((\<forall>c\<in>set cs. marketcap c < v) \<longrightarrow> determineCompanies cs v = Inr (Some (last cs), None)) \<and>
         ((\<forall>c\<in>set cs. v < marketcap c) \<longrightarrow> determineCompanies cs v = Inr (Some (hd cs), js_index cs 1))"
proof (intro conjI impI)
  obtain p where p: "findInsertPosition cs v = Inr p" using findInsertPosition_Inr by blast
  {
    assume above: "\<forall>c\<in>set cs. marketcap c < v"
    have "lower_bound cs v = length cs"
      by (rule lower_bound_eqI) (use above in auto)
    with findInsertPosition_sorted_value [OF s p] have "p = int (length cs)" by simp
    with determineCompanies_position [OF ne p]
    show "determineCompanies cs v = Inr (Some (last cs), None)" by simp
  next
    assume below: "\<forall>c\<in>set cs. v < marketcap c"
    have lb: "lower_bound cs v = 0"
      by (rule lower_bound_eqI) (use below in \<open>auto simp: less_imp_le\<close>)
    have "p = 0"
    proof (rule ccontr)
      assume "p \<noteq> 0"
      with lb findInsertPosition_cases_sorted [OF s p]
      have "0 \<le> p" "p < int (length cs)" "marketcap (cs ! nat p) = v" by auto
      with below show False by fastforce
    qed
    with determineCompanies_position [OF ne p] ne
    show "determineCompanies cs v = Inr (Some (hd cs), js_index cs 1)" by (simp add: hd_conv_nth)
  }
qed

theorem determineCompanies_ends_witness:
  "sorted_store scenario_store \<and> scenario_store \<noteq> [] \<and>
   determineCompanies scenario_store 1000 = Inr (Some (last scenario_store), None) \<and>
   determineCompanies scenario_store 50 = Inr (Some (hd scenario_store), js_index scenario_store 1)"
proof -
  have h: "sorted_store scenario_store" "scenario_store \<noteq> []"
    "\<forall>c\<in>set scenario_store. marketcap c < 1000" "\<forall>c\<in>set scenario_store. 50 < marketcap c"
    by (simp_all add: store_examples)
  from determineCompanies_ends [OF h(1,2), of 1000] determineCompanies_ends [OF h(1,2), of 50] h
  show ?thesis by simp
qed

lemmas determine_eval = store_examples determineCompanies_def findInsertPosition_def
  bsearch_loop.simps js_index_def resolveNeighbors_def lower_bound_def

text \<open>
  C10: the query takes logarithmic time (spec section 2): on a list of fewer than
  \<open>2^k\<close> companies the \<open>while\<close> loop of \<open>findInsertPosition\<close> runs at most
  \<open>k\<close> iterations, i.e. the loop with a budget of \<open>k\<close> iterations finishes and gives
  the result of \<open>findInsertPosition\<close>.
\<close>

theorem findInsertPosition_log_bound:
  assumes "length cs < 2 ^ k"
  shows "bsearch_fuel k cs v 0 (int (length cs) - 1) (int (length cs)) = Some (findInsertPosition cs v)"
proof -
  from assms have "int (length cs) - 1 - 0 + 1 < 2 ^ k" by simp
  then show ?thesis by (simp add: bsearch_fuel_log findInsertPosition_def)
qed

theorem findInsertPosition_log_bound_witness:
  "length scenario_store < 2 ^ 2 \<and>
   bsearch_fuel 2 scenario_store 150 0 (int (length scenario_store) - 1) (int (length scenario_store)) =
     Some (findInsertPosition scenario_store 150) \<and>
   findInsertPosition scenario_store 150 = Inr 1"
proof -
  have l: "length scenario_store < 2 ^ 2" by (simp add: store_examples)
  have "findInsertPosition scenario_store 150 = Inr 1" by (simp add: determine_eval)
  with findInsertPosition_log_bound [OF l, of 150] l show ?thesis by simp
qed

text \<open>
  With two entries tied at the query value, the early \<open>return mid\<close> of
  \<open>findInsertPosition\<close> returns index 1 where the spec's first entry at or above the
  query is index 0, and the neighbour pair differs from the spec's: the code reports
  \<open>(Y, Z)\<close> where \<open>resolveNeighbors\<close> gives \<open>(X, Y)\<close>.
\<close>

lemma findInsertPosition_tie_divergence:
  "sorted_store tied_store \<and> findInsertPosition tied_store 100 = Inr 1 \<and>
   lower_bound tied_store 100 = 0 \<and>
   determineCompanies tied_store 100 = Inr (Some (tied_store ! 1), Some (tied_store ! 2)) \<and>
   resolveNeighbors tied_store 100 = (Some (tied_store ! 0), Some (tied_store ! 1)) \<and>
   determineCompanies tied_store 100 \<noteq> Inr (resolveNeighbors tied_store 100)"
  by (simp add: determine_eval)

text \<open>
  The first property of spec section 8, \<open>current.value \<le> v \<le> next.value\<close>,
  does not hold of the code, nor of spec section 4.1: at 150 the current company is
  B with market cap 200, above the query. What holds is C6: the current company is
  the least entry at or above the query.
\<close>

lemma determineCompanies_current_above_query:
  "sorted_store scenario_store \<and>
   determineCompanies scenario_store 150 = Inr (Some (scenario_store ! 1), Some (scenario_store ! 2)) \<and>
   150 < marketcap (scenario_store ! 1)"
  by (simp add: determine_eval)

text \<open>
  C13: on a sorted store the ranking is monotone: a larger valuation never reports a
  current company with a smaller market cap.
\<close>

theorem determineCompanies_mono:
  assumes s: "sorted_store cs" and vw: "v \<le> w"
    and dv: "determineCompanies cs v = Inr (Some a, x)"
    and dw: "determineCompanies cs w = Inr (Some b, y)"
  shows "marketcap a \<le> marketcap b"
proof -
  have ne: "cs \<noteq> []" using dv by (auto simp: determineCompanies_def)
  obtain p where p: "findInsertPosition cs v = Inr p" using findInsertPosition_Inr by blast
  obtain q where q: "findInsertPosition cs w = Inr q" using findInsertPosition_Inr by blast
  note pv = findInsertPosition_sorted_value [OF s p] and qw = findInsertPosition_sorted_value [OF s q]
  have a: "a \<in> set cs" using dv determineCompanies_position [OF ne p] findInsertPosition_range [OF p] ne
    by (auto split: if_splits)
  show ?thesis
  proof (cases "q = int (length cs)")
    case True
    with dw determineCompanies_position [OF ne q] have "b = last cs" by simp
    with sorted_store_le_last [OF s a] show ?thesis by simp
  next
    case False
    with findInsertPosition_range [OF q] have q': "0 \<le> q" "q < int (length cs)" by simp_all
    with qw have lbw: "lower_bound cs w < length cs" using lower_bound_le_length [of cs w] by auto
    have mono: "lower_bound cs v \<le> lower_bound cs w" using vw by (rule lower_bound_mono)
    with lbw pv findInsertPosition_range [OF p] have p': "0 \<le> p" "p < int (length cs)" by auto
    from dv determineCompanies_position [OF ne p] p' have "a = cs ! nat p" by simp
    moreover from dw determineCompanies_position [OF ne q] q' have "b = cs ! nat q" by simp
    moreover have "marketcap (cs ! lower_bound cs v) \<le> marketcap (cs ! lower_bound cs w)"
      using s mono lbw by (rule sorted_map_nth_mono)
    ultimately show ?thesis using pv qw p' q' by simp
  qed
qed

theorem determineCompanies_mono_witness:
  "sorted_store scenario_store \<and> (150::real) \<le> 250 \<and>
   determineCompanies scenario_store 150 = Inr (Some (scenario_store ! 1), Some (scenario_store ! 2)) \<and>
   determineCompanies scenario_store 250 = Inr (Some (scenario_store ! 2), None) \<and>
   marketcap (scenario_store ! 1) \<le> marketcap (scenario_store ! 2)"
proof -
  have s: "sorted_store scenario_store" by (simp add: store_examples)
  have vw: "(150::real) \<le> 250" by simp
  have dv: "determineCompanies scenario_store 150 = Inr (Some (scenario_store ! 1), Some (scenario_store ! 2))"
    by (simp add: determine_eval)
  have dw: "determineCompanies scenario_store 250 = Inr (Some (scenario_store ! 2), None)"
    by (simp add: determine_eval)
  from determineCompanies_mono [OF s vw dv dw] s dv dw show ?thesis by simp
qed

section \<open>Loading\<close>

lemma row_company_valid:
  "row_company r = Some c \<Longrightarrow> name c \<noteq> [] \<and> symbol c \<noteq> [] \<and> 0 \<le> marketcap c"
  by (auto simp: row_company_def Let_def split: option.splits jsnum.splits if_splits)

lemma loadCSVData_Rows:
  "loadCSVData (Rows rows) = Inr cs \<longleftrightarrow> cs = sort_key marketcap (List.map_filter row_company rows)"
  by (auto simp: loadCSVData_def)

text \<open>
  C23: loading a readable dataset yields a list sorted by market cap that is a
  permutation of the valid rows, every entry of which has a name, a symbol and a
  non-negative market cap: the store invariant the search relies on.
\<close>

theorem loadCSVData_sorted:
  "\<exists>cs. loadCSVData (Rows rows) = Inr cs \<and> sorted_store cs \<and>
        mset cs = mset (List.map_filter row_company rows) \<and>
        (\<forall>c\<in>set cs. name c \<noteq> [] \<and> symbol c \<noteq> [] \<and> 0 \<le> marketcap c) \<and>
        (\<forall>r\<in>set rows. \<forall>n sy t mc.
           Name r = Some n \<and> Symbol r = Some sy \<and> marketcap_field r = Some t \<and>
           parseFloat t = Num mc \<and> n \<noteq> [] \<and> sy \<noteq> [] \<and> 0 \<le> mc \<longrightarrow>
           \<lparr>name = n, symbol = sy, marketcap = mc\<rparr> \<in> set cs)"
proof (intro exI conjI)
  let ?cs = "sort_key marketcap (List.map_filter row_company rows)"
  show "loadCSVData (Rows rows) = Inr ?cs" by (simp add: loadCSVData_def)
  show "sorted_store ?cs" by (rule sorted_sort_key)
  show "mset ?cs = mset (List.map_filter row_company rows)" by simp
  show "\<forall>c\<in>set ?cs. name c \<noteq> [] \<and> symbol c \<noteq> [] \<and> 0 \<le> marketcap c"
    by (auto simp: set_map_filter dest: row_company_valid)
  show "\<forall>r\<in>set rows. \<forall>n sy t mc.
           Name r = Some n \<and> Symbol r = Some sy \<and> marketcap_field r = Some t \<and>
           parseFloat t = Num mc \<and> n \<noteq> [] \<and> sy \<noteq> [] \<and> 0 \<le> mc \<longrightarrow>
           \<lparr>name = n, symbol = sy, marketcap = mc\<rparr> \<in> set ?cs"
    by (force simp: set_map_filter row_company_def)
qed

theorem loadCSVData_sorted_witness:
  "loadCSVData (Rows scenario_rows) =
     Inr (sort_key marketcap (List.map_filter row_company scenario_rows)) \<and>
   sorted_store (sort_key marketcap (List.map_filter row_company scenario_rows))"
  using loadCSVData_sorted [of scenario_rows] by (simp add: loadCSVData_def)


end
