(* ===== verification/BroadcastHub.thy ===== *)
theory BroadcastHub
  imports ReferenceStore
begin

text \<open>
  The WebSocket side of \<^verbatim>\<open>src/src/cryptoflipbackend/server.js\<close>: the module
  globals \<open>companies\<close>, \<open>cryptoMarketCap\<close>, \<open>currentCompany\<close>,
  \<open>nextUpCompany\<close> (lines 29--32), the set \<open>wss.clients\<close> with each socket's
  \<open>readyState\<close>, and the messages each socket has been sent, in order. The
  operations are \<open>broadcastData\<close> (lines 138--145), the \<open>'connection'\<close> handler
  (lines 152--172) and the \<open>'marketcap'\<close> listener (lines 179--201). Sockets are
  numbered in connection order. Socket closing is done by the \<open>ws\<close> library (the
  handler at lines 165--167 only logs); \<open>client_closing\<close> and \<open>client_closed\<close>
  model its effect on \<open>wss.clients\<close>.
\<close>

section \<open>State\<close>

datatype ready_state = CONNECTING | OPEN | CLOSING | CLOSED

text \<open>The object \<open>{cryptoCoinMarketCap, currentCompany, nextUpCompany}\<close> that is
  serialized and sent; \<open>JSON.stringify\<close> is not modelled, the object is the payload.\<close>

record message =
  cryptoCoinMarketCap :: "real option"
  msg_currentCompany :: "company option"
  msg_nextUpCompany :: "company option"

record server_state =
  companies :: "company list"
  cryptoMarketCap :: "real option"
  currentCompany :: "company option"
  nextUpCompany :: "company option"
  clients :: "nat \<rightharpoonup> ready_state"
  sent :: "nat \<Rightarrow> message list"
  next_socket :: nat

text \<open>The globals after \<open>loadCSVData\<close> has stored the sorted list and before any
  socket has connected.\<close>

definition server_init :: "company list \<Rightarrow> server_state" where
  "server_init cs =
    \<lparr>companies = cs, cryptoMarketCap = None, currentCompany = None, nextUpCompany = None,
     clients = Map.empty, sent = (\<lambda>_. []), next_socket = 0\<rparr>"

text \<open>\<open>initialData\<close> (line 156) and \<open>dataToBroadcast\<close> (line 193) are the same
  object built from the three globals; before the first valuation it is the
  all-\<open>null\<close> sentinel.\<close>

definition snapshot :: "server_state \<Rightarrow> message" where
  "snapshot s =
    \<lparr>cryptoCoinMarketCap = cryptoMarketCap s, msg_currentCompany = currentCompany s,
     msg_nextUpCompany = nextUpCompany s\<rparr>"

section \<open>Operations\<close>

text \<open>\<open>broadcastData\<close>: every socket of \<open>wss.clients\<close> whose \<open>readyState\<close> is
  \<open>OPEN\<close> is sent the message; the others are skipped.\<close>

definition broadcastData :: "message \<Rightarrow> server_state \<Rightarrow> server_state" where
  "broadcastData m s =
    s\<lparr>sent := (\<lambda>c. if clients s c = Some OPEN then sent s c @ [m] else sent s c)\<rparr>"

text \<open>
  The \<open>'connection'\<close> handler: \<open>ws\<close> has added the new, open socket to
  \<open>wss.clients\<close> before emitting the event; the handler sends it the snapshot.
\<close>

definition on_connection :: "server_state \<Rightarrow> server_state" where
  "on_connection s =
    (let ws = next_socket s;
         s1 = s\<lparr>clients := (clients s)(ws \<mapsto> OPEN), next_socket := Suc ws\<rparr>
     in s1\<lparr>sent := (sent s1)(ws := sent s1 ws @ [snapshot s1])\<rparr>)"

text \<open>
  The \<open>'marketcap'\<close> listener: store the new value, run \<open>determineCompanies\<close> on it
  (an exception there would propagate out of the listener), then broadcast the three
  globals.
\<close>

definition on_marketcap :: "real \<Rightarrow> server_state \<Rightarrow> js_error + server_state" where
  "on_marketcap newMarketCap s =
    (let s1 = s\<lparr>cryptoMarketCap := Some newMarketCap\<rparr> in
     case determineCompanies (companies s1) newMarketCap of
       Inl e \<Rightarrow> Inl e
     | Inr (cur, nxt) \<Rightarrow>
         (let s2 = s1\<lparr>currentCompany := cur, nextUpCompany := nxt\<rparr>
          in Inr (broadcastData (snapshot s2) s2)))"

text \<open>The \<open>ws\<close> library: a closing handshake moves an open socket to
  \<open>CLOSING\<close>; when the socket has closed it leaves \<open>wss.clients\<close>.\<close>

definition client_closing :: "nat \<Rightarrow> server_state \<Rightarrow> server_state" where
  "client_closing c s =
    (if clients s c = Some OPEN then s\<lparr>clients := (clients s)(c \<mapsto> CLOSING)\<rparr> else s)"

definition client_closed :: "nat \<Rightarrow> server_state \<Rightarrow> server_state" where
  "client_closed c s = s\<lparr>clients := (clients s)(c := None)\<rparr>"

section \<open>Invariant\<close>

text \<open>
  What the hub keeps true between events: socket numbers are fresh (no socket at or
  above \<open>next_socket\<close> exists or has been sent anything); only open or closing
  sockets are in \<open>wss.clients\<close>; every open socket's last message is the current
  snapshot; and the snapshot is the neighbour pair of the latest value (or the
  sentinel before the first value).
\<close>

definition hub_inv :: "server_state \<Rightarrow> bool" where
  "hub_inv s \<longleftrightarrow>
    (\<forall>c. next_socket s \<le> c \<longrightarrow> clients s c = None \<and> sent s c = []) \<and>
    (\<forall>c st. clients s c = Some st \<longrightarrow> st = OPEN \<or> st = CLOSING) \<and>
    (\<forall>c. clients s c = Some OPEN \<longrightarrow> sent s c \<noteq> [] \<and> last (sent s c) = snapshot s) \<and>
    (case cryptoMarketCap s of
       None \<Rightarrow> currentCompany s = None \<and> nextUpCompany s = None
     | Some v \<Rightarrow> determineCompanies (companies s) v = Inr (currentCompany s, nextUpCompany s))"

text \<open>
  A well-formed message, for the store \<open>cs\<close>: the all-\<open>null\<close> sentinel, or a value
  with the neighbour pair \<open>determineCompanies\<close> gives for it. \<open>sent_wf\<close>: every
  message ever sent to any socket is well-formed.
\<close>

definition msg_wf :: "company list \<Rightarrow> message \<Rightarrow> bool" where
  "msg_wf cs m \<longleftrightarrow>
    (case cryptoCoinMarketCap m of
       None \<Rightarrow> msg_currentCompany m = None \<and> msg_nextUpCompany m = None
     | Some v \<Rightarrow> determineCompanies cs v = Inr (msg_currentCompany m, msg_nextUpCompany m))"

definition sent_wf :: "server_state \<Rightarrow> bool" where
  "sent_wf s \<longleftrightarrow> (\<forall>c. \<forall>m\<in>set (sent s c). msg_wf (companies s) m)"

lemmas hub_defs = server_init_def snapshot_def broadcastData_def on_connection_def
  on_marketcap_def client_closing_def client_closed_def

section \<open>Lemmas\<close>

lemma snapshot_broadcastData [simp]: "snapshot (broadcastData m s) = snapshot s"
  by (simp add: snapshot_def broadcastData_def)

lemma companies_broadcastData [simp]: "companies (broadcastData m s) = companies s"
  by (simp add: broadcastData_def)

lemma clients_broadcastData [simp]: "clients (broadcastData m s) = clients s"
  by (simp add: broadcastData_def)

lemma companies_on_connection [simp]: "companies (on_connection s) = companies s"
  by (simp add: on_connection_def Let_def)

lemma companies_client_closing [simp]: "companies (client_closing c s) = companies s"
  by (simp add: client_closing_def)

lemma companies_client_closed [simp]: "companies (client_closed c s) = companies s"
  by (simp add: client_closed_def)

lemma sent_on_connection:
  "sent (on_connection s) c =
     (if c = next_socket s then sent s c @ [snapshot (on_connection s)] else sent s c)"
  by (simp add: on_connection_def snapshot_def Let_def)

lemma sent_client_closing [simp]: "sent (client_closing c s) = sent s"
  by (simp add: client_closing_def)

lemma sent_client_closed [simp]: "sent (client_closed c s) = sent s"
  by (simp add: client_closed_def)

lemma sent_broadcastData:
  "sent (broadcastData m s) c = (if clients s c = Some OPEN then sent s c @ [m] else sent s c)"
  by (simp add: broadcastData_def)

text \<open>The listener succeeds whenever \<open>determineCompanies\<close> does, which is always.\<close>

lemma on_marketcap_Inr:
  "\<exists>s'. on_marketcap v s = Inr s' \<and> cryptoMarketCap s' = Some v \<and>
     determineCompanies (companies s) v = Inr (currentCompany s', nextUpCompany s') \<and>
     companies s' = companies s \<and> clients s' = clients s \<and> next_socket s' = next_socket s \<and>
     (\<forall>c. sent s' c = (if clients s c = Some OPEN then sent s c @ [snapshot s'] else sent s c))"
proof -
  obtain cur nxt where d: "determineCompanies (companies s) v = Inr (cur, nxt)"
    using determineCompanies_Inr by blast
  then show ?thesis
    by (auto simp: on_marketcap_def Let_def sent_broadcastData, simp_all add: broadcastData_def)
qed

lemma hub_inv_server_init: "hub_inv (server_init cs)"
  by (simp add: hub_inv_def server_init_def)

lemma companies_server_init [simp]: "companies (server_init cs) = cs"
  by (simp add: server_init_def)

lemma hub_inv_on_marketcap:
  assumes "hub_inv s" "on_marketcap v s = Inr s'"
  shows "hub_inv s'"
proof -
  obtain s'' where s'': "on_marketcap v s = Inr s''" "cryptoMarketCap s'' = Some v"
    "determineCompanies (companies s) v = Inr (currentCompany s'', nextUpCompany s'')"
    "companies s'' = companies s" "clients s'' = clients s" "next_socket s'' = next_socket s"
    "\<forall>c. sent s'' c = (if clients s c = Some OPEN then sent s c @ [snapshot s''] else sent s c)"
    using on_marketcap_Inr by blast
  with assms have "s' = s''" by simp
  with s'' assms(1) show ?thesis by (auto simp: hub_inv_def)
qed

lemma hub_inv_on_connection:
  assumes "hub_inv s"
  shows "hub_inv (on_connection s)"
  using assms unfolding hub_inv_def
  by (auto simp: on_connection_def snapshot_def Let_def split: option.splits)

lemma hub_inv_client_closing: "hub_inv s \<Longrightarrow> hub_inv (client_closing c s)"
  by (auto simp: hub_inv_def client_closing_def snapshot_def split: option.splits)

lemma hub_inv_client_closed: "hub_inv s \<Longrightarrow> hub_inv (client_closed c s)"
  by (auto simp: hub_inv_def client_closed_def snapshot_def split: option.splits)

lemma snapshot_on_connection [simp]: "snapshot (on_connection s) = snapshot s"
  by (simp add: on_connection_def snapshot_def Let_def)

lemma msg_wf_snapshot: "hub_inv s \<Longrightarrow> msg_wf (companies s) (snapshot s)"
  by (auto simp: hub_inv_def msg_wf_def snapshot_def split: option.splits)

lemma sent_wf_server_init: "sent_wf (server_init cs)"
  by (simp add: sent_wf_def server_init_def)

lemma sent_wf_on_connection:
  "hub_inv s \<Longrightarrow> sent_wf s \<Longrightarrow> sent_wf (on_connection s)"
  by (auto simp: sent_wf_def sent_on_connection msg_wf_snapshot)

lemma sent_wf_on_marketcap:
  assumes "sent_wf s" "on_marketcap v s = Inr s'"
  shows "sent_wf s'"
proof -
  obtain s'' where s'': "on_marketcap v s = Inr s''" "cryptoMarketCap s'' = Some v"
    "determineCompanies (companies s) v = Inr (currentCompany s'', nextUpCompany s'')"
    "companies s'' = companies s"
    "\<forall>c. sent s'' c = (if clients s c = Some OPEN then sent s c @ [snapshot s''] else sent s c)"
    using on_marketcap_Inr by blast
  with assms(2) have "s' = s''" by simp
  moreover have "msg_wf (companies s) (snapshot s'')"
    using s''(2,3) by (simp add: msg_wf_def snapshot_def)
  ultimately show ?thesis using assms(1) s''(4,5) by (auto simp: sent_wf_def)
qed

lemma sent_wf_client_closing: "sent_wf s \<Longrightarrow> sent_wf (client_closing c s)"
  by (simp add: sent_wf_def)

lemma sent_wf_client_closed: "sent_wf s \<Longrightarrow> sent_wf (client_closed c s)"
  by (simp add: sent_wf_def)

end
