(* ===== verification/Server.thy ===== *)
theory Server
  imports ValuationFeed BroadcastHub "HOL-Library.Sublist"
begin

text \<open>
  The whole backend process as one state machine: the feed module
  (\<^verbatim>\<open>getmarketcaps.js\<close>) starts its two timers when it is loaded, while
  \<open>initServer\<close> (\<^verbatim>\<open>server.js\<close> lines 208--227) is still reading the CSV; once the
  list is loaded the connection handler and the market cap listener are installed and
  the server listens; a read error ends the process with exit code 1. Each event is
  one macrotask of the Node.js event loop that changes state: the completion of
  \<open>loadCSVData\<close>, of a price fetch (the 5-minute timer), of a market cap tick (the
  2-second timer, after both balance fetches have returned), a new connection, and
  the two library events that close a socket. \<open>EventEmitter.emit\<close> calls its
  listener synchronously, so a tick that emits runs the listener and the broadcast
  in the same event. Before the listener is installed an emitted value has no
  listener and is lost.
\<close>

section \<open>State and events\<close>

datatype phase = Loading | Listening | Exited

record system =
  phase :: phase
  priceCache :: price_cache
  hub :: server_state
  token_total_supply :: "string option"

datatype event =
    CsvLoaded csv_read
  | PriceTick http_result
  | CapTick http_result http_result
  | Connect
  | Closing nat
  | Closed nat

text \<open>The process right after both modules are loaded: empty price cache, empty
  company list, no sockets; \<open>TOKEN_TOTAL_SUPPLY\<close> is fixed for the process.\<close>

definition system_init :: "string option \<Rightarrow> system" where
  "system_init tts =
    \<lparr>phase = Loading, priceCache = priceCache_init, hub = server_init [],
     token_total_supply = tts\<rparr>"

text \<open>
  \<open>initServer\<close> after \<open>await loadCSVData()\<close>: on success the sorted list is stored
  in \<open>companies\<close>, the handlers are installed and the server listens; on a rejected
  load the process exits.
\<close>

definition initServer :: "csv_read \<Rightarrow> system \<Rightarrow> system" where
  "initServer r s =
    (case loadCSVData r of
       Inl _ \<Rightarrow> s\<lparr>phase := Exited\<rparr>
     | Inr cs \<Rightarrow> s\<lparr>phase := Listening, hub := server_init cs\<rparr>)"

text \<open>
  A market cap tick: \<open>calculateAndEmitMarketCap\<close> updates the cache; if it emits and
  the listener is installed, the listener runs on the hub.
\<close>

definition cap_tick :: "http_result \<Rightarrow> http_result \<Rightarrow> system \<Rightarrow> js_error + system" where
  "cap_tick r_wsol r_token s =
    (case calculateAndEmitMarketCap (token_total_supply s) r_wsol r_token (priceCache s) of
       (pc', None) \<Rightarrow> Inr (s\<lparr>priceCache := pc'\<rparr>)
     | (pc', Some m) \<Rightarrow>
         if phase s = Listening then
           (case on_marketcap m (hub s) of
              Inl e \<Rightarrow> Inl e
            | Inr h \<Rightarrow> Inr (s\<lparr>priceCache := pc', hub := h\<rparr>))
         else Inr (s\<lparr>priceCache := pc'\<rparr>))"

fun system_step :: "system \<Rightarrow> event \<Rightarrow> js_error + system" where
  "system_step s (CsvLoaded r) = Inr (if phase s = Loading then initServer r s else s)"
| "system_step s (PriceTick r) =
     Inr (if phase s = Exited then s else s\<lparr>priceCache := fetchSolUsdPrice r (priceCache s)\<rparr>)"
| "system_step s (CapTick r_wsol r_token) =
     (if phase s = Exited then Inr s else cap_tick r_wsol r_token s)"
| "system_step s Connect =
     Inr (if phase s = Listening then s\<lparr>hub := on_connection (hub s)\<rparr> else s)"
| "system_step s (Closing c) =
     Inr (if phase s = Listening then s\<lparr>hub := client_closing c (hub s)\<rparr> else s)"
| "system_step s (Closed c) =
     Inr (if phase s = Listening then s\<lparr>hub := client_closed c (hub s)\<rparr> else s)"

text \<open>A run of the process over a sequence of events; an exception stops it.\<close>

fun run :: "system \<Rightarrow> event list \<Rightarrow> js_error + system" where
  "run s [] = Inr s"
| "run s (e # es) = (case system_step s e of Inl err \<Rightarrow> Inl err | Inr s' \<Rightarrow> run s' es)"

text \<open>The server's state after each event of a run, as the message it would send:
  the trace a subscriber's messages are taken from.\<close>

fun run_trace :: "system \<Rightarrow> event list \<Rightarrow> message list" where
  "run_trace s [] = []"
| "run_trace s (e # es) =
     (case system_step s e of Inl _ \<Rightarrow> [] | Inr s' \<Rightarrow> snapshot (hub s') # run_trace s' es)"

inductive reachable :: "system \<Rightarrow> bool" where
  init: "reachable (system_init tts)"
| step: "reachable s \<Longrightarrow> system_step s e = Inr s' \<Longrightarrow> reachable s'"

text \<open>
  The process invariant: outside the listening phase the hub is untouched; the hub
  invariant holds; while listening the company list is sorted and every entry is
  valid; the cached SOL price is never 0 (only truthy prices are stored).
\<close>

definition sys_inv :: "system \<Rightarrow> bool" where
  "sys_inv s \<longleftrightarrow>
    (phase s \<noteq> Listening \<longrightarrow> hub s = server_init []) \<and>
    hub_inv (hub s) \<and>
    sorted_store (companies (hub s)) \<and>
    (\<forall>c\<in>set (companies (hub s)). name c \<noteq> [] \<and> symbol c \<noteq> [] \<and> 0 \<le> marketcap c) \<and>
    solUsd (priceCache s) \<noteq> Some 0"

text \<open>
  A run used by the witnesses: the first price fetch returns 150 USD, the CSV of the
  loading scenario is read, one client connects, and a tick reads balances 5 and 10
  with \<open>TOKEN_TOTAL_SUPPLY = "2"\<close>, a market cap of 150.
\<close>

definition demo_events :: "event list" where
  "demo_events =
    [PriceTick (HttpResponse 200 (JNumber 150)), CsvLoaded (Rows scenario_rows), Connect,
     CapTick (HttpResponse 200 (JNumber 5)) (HttpResponse 200 (JNumber 10))]"

section \<open>Lemmas\<close>

lemma sys_inv_init: "sys_inv (system_init tts)"
  by (simp add: sys_inv_def system_init_def hub_inv_server_init priceCache_init_def)

lemma solUsd_fetchSolUsdPrice:
  "solUsd pc \<noteq> Some 0 \<Longrightarrow> solUsd (fetchSolUsdPrice r pc) \<noteq> Some 0"
  by (auto simp: fetchSolUsdPrice_def split: http_result.splits json.splits)

lemma solUsd_calculate:
  "solUsd (fst (calculateAndEmitMarketCap tts r1 r2 pc)) = solUsd pc"
  by (simp add: calculateAndEmitMarketCap_def Let_def split: jsnum.splits option.splits)

lemma sys_inv_initServer:
  assumes "sys_inv s" "phase s = Loading"
  shows "sys_inv (initServer r s)"
proof (cases "loadCSVData r")
  case (Inl e)
  with assms show ?thesis by (simp add: initServer_def sys_inv_def hub_inv_server_init)
next
  case (Inr cs)
  then obtain rows where "r = Rows rows" "cs = sort_key marketcap (List.map_filter row_company rows)"
    by (cases r) (auto simp: loadCSVData_def)
  then have "sorted_store cs \<and> (\<forall>c\<in>set cs. name c \<noteq> [] \<and> symbol c \<noteq> [] \<and> 0 \<le> marketcap c)"
    by (auto simp: set_map_filter dest: row_company_valid)
  with Inr assms show ?thesis
    by (simp add: initServer_def sys_inv_def hub_inv_server_init)
qed

lemma cap_tick_cases:
  "cap_tick r1 r2 s = Inr s' \<Longrightarrow>
   priceCache s' = fst (calculateAndEmitMarketCap (token_total_supply s) r1 r2 (priceCache s)) \<and>
   phase s' = phase s \<and> token_total_supply s' = token_total_supply s \<and>
   (hub s' = hub s \<or>
    (phase s = Listening \<and> (\<exists>m. snd (calculateAndEmitMarketCap (token_total_supply s) r1 r2 (priceCache s)) = Some m \<and>
       on_marketcap m (hub s) = Inr (hub s'))))"
  by (auto simp: cap_tick_def split: prod.splits option.splits if_splits sum.splits)

lemma sys_inv_step:
  assumes "sys_inv s" "system_step s e = Inr s'"
  shows "sys_inv s'"
proof (cases e)
  case (CsvLoaded r)
  with assms show ?thesis by (auto simp: sys_inv_initServer)
next
  case (PriceTick r)
  with assms show ?thesis by (auto simp: sys_inv_def solUsd_fetchSolUsdPrice split: if_splits)
next
  case (CapTick r1 r2)
  show ?thesis
  proof (cases "phase s = Exited")
    case True
    with assms CapTick show ?thesis by simp
  next
    case False
    with assms CapTick have ct: "cap_tick r1 r2 s = Inr s'" by simp
    note c = cap_tick_cases [OF ct]
    have cache: "solUsd (priceCache s') \<noteq> Some 0"
      using c assms(1) by (simp add: sys_inv_def solUsd_calculate)
    from c show ?thesis
    proof (elim conjE disjE exE)
      assume "hub s' = hub s" "phase s' = phase s"
      with assms(1) cache show ?thesis by (simp add: sys_inv_def)
    next
      fix m assume h: "phase s = Listening" "on_marketcap m (hub s) = Inr (hub s')" "phase s' = phase s"
      obtain h' where h': "on_marketcap m (hub s) = Inr h'" "companies h' = companies (hub s)"
        using on_marketcap_Inr by blast
      with h have "companies (hub s') = companies (hub s)" by simp
      moreover have "hub_inv (hub s')" using assms(1) h(2) hub_inv_on_marketcap
        by (auto simp: sys_inv_def)
      ultimately show ?thesis using assms(1) cache h by (simp add: sys_inv_def)
    qed
  qed
next
  case Connect
  with assms show ?thesis
    by (auto simp: sys_inv_def hub_inv_on_connection split: if_splits)
next
  case (Closing c)
  with assms show ?thesis
    by (auto simp: sys_inv_def hub_inv_client_closing split: if_splits)
next
  case (Closed c)
  with assms show ?thesis
    by (auto simp: sys_inv_def hub_inv_client_closed split: if_splits)
qed

text \<open>How one event can change the hub: not at all, by the load of a list, by the
  listener, the connection handler, or the closing of a socket.\<close>

lemma system_step_hub:
  assumes "system_step s e = Inr s'"
  shows "hub s' = hub s \<or> (\<exists>cs. hub s' = server_init cs) \<or>
         (\<exists>m. on_marketcap m (hub s) = Inr (hub s')) \<or> hub s' = on_connection (hub s) \<or>
         (\<exists>c. hub s' = client_closing c (hub s)) \<or> (\<exists>c. hub s' = client_closed c (hub s))"
proof (cases e)
  case (CapTick r1 r2)
  show ?thesis
  proof (cases "phase s = Exited")
    case False
    with assms CapTick have "cap_tick r1 r2 s = Inr s'" by simp
    from cap_tick_cases [OF this] show ?thesis by blast
  qed (use assms CapTick in simp)
qed (use assms in \<open>auto simp: initServer_def split: if_splits sum.splits\<close>)

lemma reachable_sys_inv: "reachable s \<Longrightarrow> sys_inv s"
proof (induction rule: reachable.induct)
  case (init tts)
  then show ?case by (rule sys_inv_init)
next
  case (step s e s')
  then show ?case by (blast intro: sys_inv_step)
qed

lemma reachable_sent_wf: "reachable s \<Longrightarrow> sent_wf (hub s)"
proof (induction rule: reachable.induct)
  case (init tts)
  then show ?case by (simp add: system_init_def sent_wf_server_init)
next
  case (step s e s')
  have inv: "hub_inv (hub s)" using reachable_sys_inv [OF step.hyps(1)] by (simp add: sys_inv_def)
  from system_step_hub [OF step.hyps(2)] step.IH inv show ?case
    by (auto intro: sent_wf_server_init sent_wf_on_connection sent_wf_on_marketcap
        sent_wf_client_closing sent_wf_client_closed)
qed

text \<open>One event sends a socket at most one message, and that message is the state
  the event leaves.\<close>

lemma system_step_sent:
  assumes inv: "sys_inv s" and st: "system_step s e = Inr s'"
  shows "sent (hub s') c = sent (hub s) c \<or> sent (hub s') c = sent (hub s) c @ [snapshot (hub s')]"
proof (cases e)
  case (CsvLoaded r)
  show ?thesis
  proof (cases "phase s = Loading")
    case True
    with inv have "hub s = server_init []" by (simp add: sys_inv_def)
    with True st CsvLoaded show ?thesis
      by (auto simp: initServer_def server_init_def split: sum.splits)
  qed (use st CsvLoaded in simp)
next
  case (CapTick r1 r2)
  show ?thesis
  proof (cases "phase s = Exited")
    case False
    with st CapTick have "cap_tick r1 r2 s = Inr s'" by simp
    from cap_tick_cases [OF this] show ?thesis
    proof (elim conjE disjE exE)
      fix m assume om: "on_marketcap m (hub s) = Inr (hub s')"
      obtain h where "on_marketcap m (hub s) = Inr h"
        "\<forall>c. sent h c = (if clients (hub s) c = Some OPEN then sent (hub s) c @ [snapshot h] else sent (hub s) c)"
        using on_marketcap_Inr by blast
      with om show ?thesis by auto
    qed simp
  qed (use st CapTick in simp)
next
  case Connect
  with st show ?thesis by (auto simp: sent_on_connection split: if_splits)
qed (use st in \<open>auto split: if_splits\<close>)

lemma run_sent_subseq:
  "reachable s \<Longrightarrow> run s es = Inr S \<Longrightarrow> subseq (sent (hub S) c) (sent (hub s) c @ run_trace s es)"
proof (induction es arbitrary: s)
  case Nil
  then show ?case by simp
next
  case (Cons e es)
  then obtain s' where st: "system_step s e = Inr s'" and r: "run s' es = Inr S"
    by (auto split: sum.splits)
  have rs': "reachable s'" using reachable.step [OF Cons.prems(1) st] .
  note IH = Cons.IH [OF rs' r]
  from system_step_sent [OF reachable_sys_inv [OF Cons.prems(1)] st, of c] show ?case
  proof
    assume "sent (hub s') c = sent (hub s) c"
    with IH have "subseq (sent (hub S) c) (sent (hub s) c @ run_trace s' es)" by simp
    then show ?thesis using st by (auto intro: subseq_order.trans [OF _ subseq_append' [THEN iffD2]])
  next
    assume "sent (hub s') c = sent (hub s) c @ [snapshot (hub s')]"
    with IH st show ?thesis by simp
  qed
qed

text \<open>A socket that has connected and is no longer open stays so, and one event sends
  it nothing.\<close>

lemma system_step_closed_socket:
  assumes inv: "sys_inv s" and st: "system_step s e = Inr s'"
    and c: "c < next_socket (hub s)" "clients (hub s) c \<noteq> Some OPEN"
  shows "c < next_socket (hub s') \<and> clients (hub s') c \<noteq> Some OPEN \<and> sent (hub s') c = sent (hub s) c"
proof (cases e)
  case (CsvLoaded r)
  show ?thesis
  proof (cases "phase s = Loading")
    case True
    with inv have "hub s = server_init []" by (simp add: sys_inv_def)
    with c show ?thesis by (simp add: server_init_def)
  qed (use st c CsvLoaded in simp)
next
  case (CapTick r1 r2)
  show ?thesis
  proof (cases "phase s = Exited")
    case False
    with st CapTick have "cap_tick r1 r2 s = Inr s'" by simp
    from cap_tick_cases [OF this] show ?thesis
    proof (elim conjE disjE exE)
      fix m assume om: "on_marketcap m (hub s) = Inr (hub s')"
      obtain h where "on_marketcap m (hub s) = Inr h" "clients h = clients (hub s)"
        "next_socket h = next_socket (hub s)"
        "\<forall>c. sent h c = (if clients (hub s) c = Some OPEN then sent (hub s) c @ [snapshot h] else sent (hub s) c)"
        using on_marketcap_Inr by blast
      with om c show ?thesis by auto
    qed (use c in simp)
  qed (use st c CapTick in simp)
next
  case Connect
  with st c show ?thesis by (auto simp: sent_on_connection on_connection_def Let_def split: if_splits)
qed (use st c in \<open>auto simp: client_closing_def client_closed_def split: if_splits\<close>)

lemma cap_tick_Inr: "\<exists>s'. cap_tick r1 r2 s = Inr s'"
proof (cases "calculateAndEmitMarketCap (token_total_supply s) r1 r2 (priceCache s)")
  case (Pair pc' ev)
  show ?thesis
  proof (cases ev)
    case None
    with Pair show ?thesis by (simp add: cap_tick_def)
  next
    case (Some m)
    obtain h where "on_marketcap m (hub s) = Inr h" using on_marketcap_Inr by blast
    with Pair Some show ?thesis by (simp add: cap_tick_def)
  qed
qed

text \<open>A tick that emits on a listening server: the cache is updated, the value becomes
  the state, and every open socket is sent the new state.\<close>

lemma cap_tick_listening:
  assumes "phase s = Listening"
    and "calculateAndEmitMarketCap (token_total_supply s) r1 r2 (priceCache s) = (pc', Some m)"
  shows "\<exists>s'. cap_tick r1 r2 s = Inr s' \<and> phase s' = Listening \<and> priceCache s' = pc' \<and>
           token_total_supply s' = token_total_supply s \<and> clients (hub s') = clients (hub s) \<and>
           cryptoMarketCap (hub s') = Some m \<and>
           (\<forall>c. sent (hub s') c = (if clients (hub s) c = Some OPEN
                                   then sent (hub s) c @ [snapshot (hub s')] else sent (hub s) c))"
proof -
  obtain h where h: "on_marketcap m (hub s) = Inr h" "cryptoMarketCap h = Some m" "clients h = clients (hub s)"
    "\<forall>c. sent h c = (if clients (hub s) c = Some OPEN then sent (hub s) c @ [snapshot h] else sent (hub s) c)"
    using on_marketcap_Inr by blast
  with assms have "cap_tick r1 r2 s = Inr (s\<lparr>priceCache := pc', hub := h\<rparr>)" by (simp add: cap_tick_def)
  with assms h show ?thesis by auto
qed

lemma run_reachable: "reachable s \<Longrightarrow> run s es = Inr s' \<Longrightarrow> reachable s'"
proof (induction es arbitrary: s)
  case Nil
  then show ?case by simp
next
  case (Cons e es)
  then obtain t where t: "system_step s e = Inr t" "run t es = Inr s'"
    by (auto split: sum.splits)
  have "reachable t" using reachable.step [OF Cons.prems(1) t(1)] .
  show ?case using Cons.IH [OF \<open>reachable t\<close> t(2)] .
qed

lemma cap_tick_emit:
  assumes "phase s = Listening"
    and "calculateAndEmitMarketCap (token_total_supply s) r1 r2 (priceCache s) = (pc', Some m)"
    and "cap_tick r1 r2 s = Inr s'"
  shows "on_marketcap m (hub s) = Inr (hub s') \<and> priceCache s' = pc' \<and> phase s' = phase s"
  using assms by (auto simp: cap_tick_def split: sum.splits)

lemmas system_eval = demo_events_def system_init_def initServer_def cap_tick_def
  loadCSVData_def scenario_rows_def row_company_def List.map_filter_def parse_eval
  feed_defs hub_defs determine_eval Let_def

lemma system_step_Exited: "phase s = Exited \<Longrightarrow> system_step s e = Inr s"
  by (cases e) auto

lemma run_Exited: "phase s = Exited \<Longrightarrow> run s es = Inr s"
  by (induction es) (auto simp: system_step_Exited)

lemma demo_reachable_states:
  "\<exists>S. run (system_init (Some ''2'')) (take 2 demo_events) = Inr S \<and> phase S = Listening"
  "\<exists>S. run (system_init (Some ''2'')) (take 3 demo_events) = Inr S \<and> phase S = Listening \<and>
       calculateAndEmitMarketCap (token_total_supply S) (HttpResponse 200 (JNumber 5))
         (HttpResponse 200 (JNumber 10)) (priceCache S) =
       (priceCache S\<lparr>splTokenUsd := Some 75\<rparr>, Some 150)"
  "\<exists>S. run (system_init (Some ''2'')) demo_events = Inr S \<and> cryptoMarketCap (hub S) = Some 150"
  by (simp_all add: system_eval)

lemma system_step_Inr: "\<exists>s'. system_step s e = Inr s'"
  using cap_tick_Inr by (cases e) auto

text \<open>
  C26: no sequence of events ever raises in the backend: the listener's call of
  \<open>determineCompanies\<close> cannot throw, so no tick ends in an unhandled rejection.
\<close>

theorem run_never_raises: "\<exists>s'. run s es = Inr s'"
proof (induction es arbitrary: s)
  case Nil
  then show ?case by simp
next
  case (Cons e es)
  obtain t where "system_step s e = Inr t" using system_step_Inr by blast
  with Cons.IH [of t] show ?case by simp
qed

text \<open>
  C27: in every reachable state, every open subscriber has been sent at least one
  message and the last one is the current state: subscribers are synchronized with
  the latest value and its neighbours.
\<close>

theorem reachable_subscribers_synchronized:
  assumes "reachable s" "clients (hub s) c = Some OPEN"
  shows "sent (hub s) c \<noteq> [] \<and> last (sent (hub s) c) = snapshot (hub s)"
  using reachable_sys_inv [OF assms(1)] assms(2) by (simp add: sys_inv_def hub_inv_def)

theorem reachable_subscribers_synchronized_witness:
  "\<exists>S. run (system_init (Some ''2'')) demo_events = Inr S \<and>
       clients (hub S) 0 = Some OPEN \<and> last (sent (hub S) 0) = snapshot (hub S)"
proof -
  have "\<exists>S. run (system_init (Some ''2'')) demo_events = Inr S \<and> clients (hub S) 0 = Some OPEN"
    by (simp add: system_eval)
  then obtain S where S: "run (system_init (Some ''2'')) demo_events = Inr S"
    "clients (hub S) 0 = Some OPEN" by blast
  have r: "reachable S" using run_reachable [OF reachable.init S(1)] .
  from reachable_subscribers_synchronized [OF r S(2)] S show ?thesis by blast
qed

text \<open>
  C9: every message a subscriber is ever sent is well-formed: the all-\<open>null\<close>
  sentinel, or a market cap with the current and next companies that
  \<open>determineCompanies\<close> gives for it on the loaded list. No message mixes a value
  with the neighbours of another value.
\<close>

theorem reachable_messages_wellformed:
  assumes "reachable S" "m \<in> set (sent (hub S) c)"
  shows "msg_wf (companies (hub S)) m"
  using reachable_sent_wf [OF assms(1)] assms(2) by (simp add: sent_wf_def)

theorem reachable_messages_wellformed_witness:
  "\<exists>S. run (system_init (Some ''2'')) demo_events = Inr S \<and>
       last (sent (hub S) 0) \<in> set (sent (hub S) 0) \<and>
       msg_wf (companies (hub S)) (last (sent (hub S) 0))"
proof -
  have "\<exists>S. run (system_init (Some ''2'')) demo_events = Inr S \<and> sent (hub S) 0 \<noteq> []"
    by (simp add: system_eval)
  then obtain S where S: "run (system_init (Some ''2'')) demo_events = Inr S" "sent (hub S) 0 \<noteq> []"
    by blast
  have r: "reachable S" using run_reachable [OF reachable.init S(1)] .
  have m: "last (sent (hub S) 0) \<in> set (sent (hub S) 0)" using S(2) by simp
  from reachable_messages_wellformed [OF r m] S(1) m show ?thesis by blast
qed

text \<open>
  C16: the order guarantee of spec section 5: the messages a subscriber has been sent
  are, in order, a subsequence of the server's successive states along the run; a
  subscriber never receives states out of order or a state the server never had.
\<close>

theorem run_sent_ordered:
  assumes "run (system_init tts) es = Inr S"
  shows "subseq (sent (hub S) c) (run_trace (system_init tts) es)"
  using run_sent_subseq [OF reachable.init assms, of c] by (simp add: system_init_def server_init_def)

theorem run_sent_ordered_witness:
  "\<exists>S. run (system_init (Some ''2'')) demo_events = Inr S \<and>
       subseq (sent (hub S) 0) (run_trace (system_init (Some ''2'')) demo_events)"
proof -
  have "\<exists>S. run (system_init (Some ''2'')) demo_events = Inr S" by (simp add: system_eval)
  then obtain S where S: "run (system_init (Some ''2'')) demo_events = Inr S" by blast
  from run_sent_ordered [OF S, of 0] S show ?thesis by blast
qed

text \<open>
  C28: in every reachable state the broadcast state is the neighbour pair of the latest
  value in a sorted company list: what \<open>determineCompanies\<close> gives for it.
\<close>

theorem reachable_snapshot_consistent:
  assumes "reachable s" "cryptoMarketCap (hub s) = Some v"
  shows "sorted_store (companies (hub s)) \<and>
         determineCompanies (companies (hub s)) v = Inr (currentCompany (hub s), nextUpCompany (hub s))"
  using reachable_sys_inv [OF assms(1)] assms(2) by (simp add: sys_inv_def hub_inv_def)

theorem reachable_snapshot_consistent_witness:
  "\<exists>S. run (system_init (Some ''2'')) demo_events = Inr S \<and> cryptoMarketCap (hub S) = Some 150 \<and>
       determineCompanies (companies (hub S)) 150 = Inr (currentCompany (hub S), nextUpCompany (hub S))"
proof -
  obtain S where S: "run (system_init (Some ''2'')) demo_events = Inr S" "cryptoMarketCap (hub S) = Some 150"
    using demo_reachable_states(3) by blast
  have r: "reachable S" using run_reachable [OF reachable.init S(1)] .
  from reachable_snapshot_consistent [OF r S(2)] S show ?thesis by blast
qed

text \<open>
  C30: a new subscriber is registered as open and is sent exactly one message, the
  current state (the all-null sentinel before the first value); no other socket is
  sent anything.
\<close>

theorem system_connect_snapshot:
  assumes "reachable s" "phase s = Listening" "system_step s Connect = Inr s'"
  shows "clients (hub s') (next_socket (hub s)) = Some OPEN \<and>
         sent (hub s') (next_socket (hub s)) = [snapshot (hub s)] \<and>
         (\<forall>c. c \<noteq> next_socket (hub s) \<longrightarrow> sent (hub s') c = sent (hub s) c)"
proof -
  have "sent (hub s) (next_socket (hub s)) = []"
    using reachable_sys_inv [OF assms(1)] by (simp add: sys_inv_def hub_inv_def)
  with assms(2,3) show ?thesis by (auto simp: on_connection_def snapshot_def Let_def)
qed

theorem system_connect_snapshot_witness:
  "\<exists>S S'. run (system_init (Some ''2'')) (take 2 demo_events) = Inr S \<and> phase S = Listening \<and>
     system_step S Connect = Inr S' \<and> sent (hub S') (next_socket (hub S)) = [snapshot (hub S)]"
proof -
  obtain S where S: "run (system_init (Some ''2'')) (take 2 demo_events) = Inr S" "phase S = Listening"
    using demo_reachable_states(1) by blast
  have r: "reachable S" using run_reachable [OF reachable.init S(1)] .
  have st: "system_step S Connect = Inr (S\<lparr>hub := on_connection (hub S)\<rparr>)" using S(2) by simp
  from system_connect_snapshot [OF r S(2) st] S st show ?thesis by blast
qed

text \<open>
  C31: when a listening server's tick emits a value, the value becomes the current
  state and every open subscriber is sent exactly that state; closing sockets are
  skipped and no other socket is sent anything; no subscriber is added or removed.
\<close>

theorem system_broadcast_fanout:
  assumes "phase s = Listening"
    and "calculateAndEmitMarketCap (token_total_supply s) r_wsol r_token (priceCache s) = (pc', Some m)"
    and "system_step s (CapTick r_wsol r_token) = Inr s'"
  shows "cryptoMarketCap (hub s') = Some m \<and> clients (hub s') = clients (hub s) \<and>
         (\<forall>c. sent (hub s') c =
              (if clients (hub s) c = Some OPEN then sent (hub s) c @ [snapshot (hub s')]
               else sent (hub s) c))"
proof -
  from assms have ct: "cap_tick r_wsol r_token s = Inr s'" by simp
  from cap_tick_emit [OF assms(1,2) ct] have om: "on_marketcap m (hub s) = Inr (hub s')" by simp
  obtain h where h: "on_marketcap m (hub s) = Inr h" "cryptoMarketCap h = Some m"
    "clients h = clients (hub s)" "\<forall>c. sent h c = (if clients (hub s) c = Some OPEN then sent (hub s) c @ [snapshot h] else sent (hub s) c)"
    using on_marketcap_Inr by blast
  with om show ?thesis by simp
qed

theorem system_broadcast_fanout_witness:
  "\<exists>S S'. run (system_init (Some ''2'')) (take 3 demo_events) = Inr S \<and> phase S = Listening \<and>
     system_step S (CapTick (HttpResponse 200 (JNumber 5)) (HttpResponse 200 (JNumber 10))) = Inr S' \<and>
     cryptoMarketCap (hub S') = Some 150"
proof -
  obtain S where S: "run (system_init (Some ''2'')) (take 3 demo_events) = Inr S" "phase S = Listening"
    "calculateAndEmitMarketCap (token_total_supply S) (HttpResponse 200 (JNumber 5))
       (HttpResponse 200 (JNumber 10)) (priceCache S) = (priceCache S\<lparr>splTokenUsd := Some 75\<rparr>, Some 150)"
    using demo_reachable_states(2) by blast
  obtain S' where S': "system_step S (CapTick (HttpResponse 200 (JNumber 5)) (HttpResponse 200 (JNumber 10))) = Inr S'"
    using system_step_Inr by blast
  from system_broadcast_fanout [OF S(2) S(3) S'] S S' show ?thesis by blast
qed

text \<open>
  C32: messages to a socket are never withdrawn or reordered: every event leaves each
  socket's message sequence as it was or appends exactly one message to it, the state
  the event leaves. With C27 this is the order guarantee of spec section 5.
\<close>

theorem reachable_sent_append:
  assumes "reachable s" "system_step s e = Inr s'"
  shows "sent (hub s') c = sent (hub s) c \<or> sent (hub s') c = sent (hub s) c @ [snapshot (hub s')]"
  using system_step_sent [OF reachable_sys_inv [OF assms(1)] assms(2)] .

theorem reachable_sent_append_witness:
  "system_step (system_init None) (CsvLoaded ReadError) = Inr ((system_init None)\<lparr>phase := Exited\<rparr>) \<and>
   sent (hub ((system_init None)\<lparr>phase := Exited\<rparr>)) 0 = sent (hub (system_init None)) 0"
proof -
  have st: "system_step (system_init None) (CsvLoaded ReadError) = Inr ((system_init None)\<lparr>phase := Exited\<rparr>)"
    by (simp add: system_init_def initServer_def loadCSVData_def)
  from reachable_sent_append [OF reachable.init st, of 0] st show ?thesis by simp
qed

text \<open>
  C33: a failed CSV read ends the process (\<open>process.exit(1)\<close>): no later event,
  timer or connection, has any effect.
\<close>

theorem run_load_failure:
  "phase s = Loading \<Longrightarrow> run s (CsvLoaded ReadError # es) = Inr (s\<lparr>phase := Exited\<rparr>)"
  by (simp add: initServer_def loadCSVData_def run_Exited)

theorem run_load_failure_witness:
  "phase (system_init None) = Loading \<and>
   run (system_init None) [CsvLoaded ReadError, Connect, PriceTick (HttpResponse 200 (JNumber 150))] =
     Inr ((system_init None)\<lparr>phase := Exited\<rparr>)"
proof -
  have h: "phase (system_init None) = Loading" by (simp add: system_init_def)
  from run_load_failure [OF h, of "[Connect, PriceTick (HttpResponse 200 (JNumber 150))]"] h
  show ?thesis by simp
qed

text \<open>
  C34: a value computed while the CSV is still loading reaches nobody: the listener is
  not installed yet, so the broadcast state and the sockets are untouched (the spec
  does not say what happens to values before the store is loaded).
\<close>

theorem loading_tick_not_broadcast:
  assumes "phase s = Loading" "system_step s (CapTick r_wsol r_token) = Inr s'"
  shows "hub s' = hub s \<and> phase s' = Loading"
  using assms cap_tick_cases [of r_wsol r_token s s'] by auto

theorem loading_tick_not_broadcast_witness:
  "\<exists>S'. phase ((system_init (Some ''2''))\<lparr>priceCache := priceCache_init\<lparr>solUsd := Some 150\<rparr>\<rparr>) = Loading \<and>
     system_step ((system_init (Some ''2''))\<lparr>priceCache := priceCache_init\<lparr>solUsd := Some 150\<rparr>\<rparr>)
       (CapTick (HttpResponse 200 (JNumber 5)) (HttpResponse 200 (JNumber 10))) = Inr S' \<and>
     hub S' = hub (system_init (Some ''2''))"
proof -
  let ?s = "(system_init (Some ''2''))\<lparr>priceCache := priceCache_init\<lparr>solUsd := Some 150\<rparr>\<rparr>"
  have h: "phase ?s = Loading" by (simp add: system_init_def)
  obtain S' where S': "system_step ?s (CapTick (HttpResponse 200 (JNumber 5)) (HttpResponse 200 (JNumber 10))) = Inr S'"
    using system_step_Inr by blast
  from loading_tick_not_broadcast [OF h S'] h S' show ?thesis by auto
qed

text \<open>
  C11: a socket that has connected and is no longer open (closing, or closed and
  removed from \<open>wss.clients\<close>) is never sent anything again, in any run from any
  reachable state: socket numbers are not reused, and a broadcast skips sockets that
  are not \<open>OPEN\<close>.
\<close>

theorem run_closed_socket_silent:
  "reachable s \<Longrightarrow> run s es = Inr S \<Longrightarrow> c < next_socket (hub s) \<Longrightarrow> clients (hub s) c \<noteq> Some OPEN \<Longrightarrow>
   sent (hub S) c = sent (hub s) c \<and> clients (hub S) c \<noteq> Some OPEN"
proof (induction es arbitrary: s)
  case Nil
  then show ?case by simp
next
  case (Cons e es)
  then obtain s' where st: "system_step s e = Inr s'" and r: "run s' es = Inr S"
    by (auto split: sum.splits)
  note one = system_step_closed_socket [OF reachable_sys_inv [OF Cons.prems(1)] st Cons.prems(3,4)]
  from Cons.IH [OF reachable.step [OF Cons.prems(1) st] r] one show ?case by simp
qed

theorem run_closed_socket_silent_witness:
  "\<exists>S S'. run (system_init (Some ''2'')) (take 3 demo_events @ [Closing 0]) = Inr S \<and>
     clients (hub S) 0 = Some CLOSING \<and> run S (drop 3 demo_events) = Inr S' \<and>
     sent (hub S') 0 = sent (hub S) 0"
proof -
  have "\<exists>S. run (system_init (Some ''2'')) (take 3 demo_events @ [Closing 0]) = Inr S \<and>
      clients (hub S) 0 = Some CLOSING \<and> next_socket (hub S) = 1"
    by (simp add: system_eval)
  then obtain S where S: "run (system_init (Some ''2'')) (take 3 demo_events @ [Closing 0]) = Inr S"
    "clients (hub S) 0 = Some CLOSING" "next_socket (hub S) = 1" by blast
  have r: "reachable S" using run_reachable [OF reachable.init S(1)] .
  obtain S' where S': "system_step S (CapTick (HttpResponse 200 (JNumber 5)) (HttpResponse 200 (JNumber 10))) = Inr S'"
    using system_step_Inr by blast
  then have rn: "run S (drop 3 demo_events) = Inr S'" by (simp add: demo_events_def)
  from run_closed_socket_silent [OF r rn, of 0] S rn show ?thesis by auto
qed

end
