(* ===== verification/Ticks.thy ===== *)
theory Ticks
  imports Server
begin

text \<open>
  Overlapping market cap ticks. \<open>setInterval(calculateAndEmitMarketCap, 2000)\<close>
  (\<^verbatim>\<open>getmarketcaps.js\<close> line 161) starts a tick every two seconds whether or not
  the previous one has finished, and a tick suspends twice, at the \<open>await\<close> of each
  balance fetch (lines 110--111); everything after the second \<open>await\<close> (the
  guards, the cache read and write, the emission, the listener and the broadcast) runs
  in one macrotask. Here a tick is three events: its start, the completion of its WSOL
  fetch and the completion of its token fetch; the last one runs \<open>cap_tick\<close> of
  theory \<open>Server\<close> with the two responses. Pending ticks are numbered in start order.
  The theorems: a run with overlapping ticks reaches only states of the atomic model
  (so every invariant of \<open>Server\<close> still holds); ticks that overlap can deliver
  their values out of start order; ticks that do not overlap are the atomic ticks in
  timer order.
\<close>

section \<open>State and events\<close>

text \<open>Where a pending tick is suspended: at its first \<open>await\<close>, or at its second
  with the WSOL response in hand.\<close>

datatype tick_stage = AwaitWsol | AwaitToken http_result

record async_system =
  core :: system
  ticks :: "nat \<rightharpoonup> tick_stage"
  next_tick :: nat

definition async_init :: "string option \<Rightarrow> async_system" where
  "async_init tts = \<lparr>core = system_init tts, ticks = Map.empty, next_tick = 0\<rparr>"

datatype async_event =
    Sync event
  | InitialPrice http_result
  | TickStart
  | WsolFetched nat http_result
  | TokenFetched nat http_result

text \<open>
  One macrotask. \<open>Sync\<close> is an event of the atomic model. \<open>InitialPrice\<close> is the
  completion of the first price fetch of \<open>initMarketCapUpdates\<close> (lines 153--155):
  the cache is updated and its \<open>.then\<close> callback starts a tick at once. After
  \<open>process.exit\<close> nothing runs. A fetch completion for a tick that is not waiting for it cannot occur
  and is ignored.
\<close>

fun async_step :: "async_system \<Rightarrow> async_event \<Rightarrow> js_error + async_system" where
  "async_step a (Sync e) =
     (case system_step (core a) e of Inl err \<Rightarrow> Inl err | Inr s \<Rightarrow> Inr (a\<lparr>core := s\<rparr>))"
| "async_step a (InitialPrice r) =
     (case system_step (core a) (PriceTick r) of
        Inl err \<Rightarrow> Inl err
      | Inr s \<Rightarrow>
          Inr (if phase s = Exited then a\<lparr>core := s\<rparr>
               else a\<lparr>core := s, ticks := (ticks a)(next_tick a \<mapsto> AwaitWsol),
                      next_tick := Suc (next_tick a)\<rparr>))"
| "async_step a TickStart =
     Inr (if phase (core a) = Exited then a
          else a\<lparr>ticks := (ticks a)(next_tick a \<mapsto> AwaitWsol), next_tick := Suc (next_tick a)\<rparr>)"
| "async_step a (WsolFetched k r) =
     Inr (if phase (core a) \<noteq> Exited \<and> ticks a k = Some AwaitWsol
          then a\<lparr>ticks := (ticks a)(k \<mapsto> AwaitToken r)\<rparr> else a)"
| "async_step a (TokenFetched k r) =
     (case ticks a k of
        Some (AwaitToken r1) \<Rightarrow>
          if phase (core a) = Exited then Inr a
          else (case cap_tick r1 r (core a) of
                  Inl err \<Rightarrow> Inl err
                | Inr s \<Rightarrow> Inr (a\<lparr>core := s, ticks := (ticks a)(k := None)\<rparr>))
      | _ \<Rightarrow> Inr a)"

fun async_run :: "async_system \<Rightarrow> async_event list \<Rightarrow> js_error + async_system" where
  "async_run a [] = Inr a"
| "async_run a (e # es) =
     (case async_step a e of Inl err \<Rightarrow> Inl err | Inr a' \<Rightarrow> async_run a' es)"

text \<open>
  Two overlapping ticks after the price fetch (150 USD), the load of the scenario CSV
  and one connection: tick 0 starts, tick 1 starts, tick 0 reads 5 WSOL, tick 1 reads
  20 WSOL, tick 1 reads 10 tokens and completes (market cap 600), then tick 0 reads 10
  tokens and completes (market cap 150).
\<close>

definition overlap_events :: "async_event list" where
  "overlap_events =
    [Sync (PriceTick (HttpResponse 200 (JNumber 150))), Sync (CsvLoaded (Rows scenario_rows)),
     Sync Connect, TickStart, TickStart,
     WsolFetched 0 (HttpResponse 200 (JNumber 5)), WsolFetched 1 (HttpResponse 200 (JNumber 20)),
     TokenFetched 1 (HttpResponse 200 (JNumber 10)), TokenFetched 0 (HttpResponse 200 (JNumber 10))]"

text \<open>The state of that run before its ticks start: the price is cached, the store is
  loaded, socket 0 is open and has been sent the sentinel, no tick is pending.\<close>

definition overlap_start :: async_system where
  "overlap_start =
    \<lparr>core = \<lparr>phase = Listening, priceCache = priceCache_init\<lparr>solUsd := Some 150\<rparr>,
             hub = (server_init scenario_store)\<lparr>clients := [0 \<mapsto> OPEN],
                     sent := (\<lambda>_. [])(0 := [snapshot (server_init scenario_store)]), next_socket := 1\<rparr>,
             token_total_supply = Some ''2''\<rparr>,
     ticks = Map.empty, next_tick = 0\<rparr>"

text \<open>
  Ticks that do not overlap: each one starts after the previous one has completed and
  its two fetches return in turn. Tick numbers start at \<open>k\<close>.
\<close>

fun sequential_ticks :: "nat \<Rightarrow> (http_result \<times> http_result) list \<Rightarrow> async_event list" where
  "sequential_ticks k [] = []"
| "sequential_ticks k ((r1, r2) # rs) =
     TickStart # WsolFetched k r1 # TokenFetched k r2 # sequential_ticks (Suc k) rs"

text \<open>
  The abstraction of an interleaved run to the atomic model: the atomic events in the
  order the macrotasks complete, each tick becoming one \<open>CapTick\<close> at the point its
  token fetch completes, with the WSOL response of that same tick. The map \<open>T\<close> and
  the counter \<open>n\<close> track the pending ticks from the event list alone.
\<close>

fun tick_trace :: "(nat \<rightharpoonup> tick_stage) \<Rightarrow> nat \<Rightarrow> async_event list \<Rightarrow> event list" where
  "tick_trace T n [] = []"
| "tick_trace T n (Sync e # es) = e # tick_trace T n es"
| "tick_trace T n (InitialPrice r # es) = PriceTick r # tick_trace (T(n \<mapsto> AwaitWsol)) (Suc n) es"
| "tick_trace T n (TickStart # es) = tick_trace (T(n \<mapsto> AwaitWsol)) (Suc n) es"
| "tick_trace T n (WsolFetched k r # es) =
     (if T k = Some AwaitWsol then tick_trace (T(k \<mapsto> AwaitToken r)) n es else tick_trace T n es)"
| "tick_trace T n (TokenFetched k r # es) =
     (case T k of
        Some (AwaitToken r1) \<Rightarrow> CapTick r1 r # tick_trace (T(k := None)) n es
      | _ \<Rightarrow> tick_trace T n es)"

text \<open>Tick numbers at or above \<open>next_tick\<close> are unused.\<close>

definition async_inv :: "async_system \<Rightarrow> bool" where
  "async_inv a \<longleftrightarrow> (\<forall>j. next_tick a \<le> j \<longrightarrow> ticks a j = None)"

section \<open>Lemmas\<close>

text \<open>Each macrotask leaves the process state alone or is one step of the atomic
  model.\<close>

lemma async_step_core:
  assumes "async_step a e = Inr a'"
  shows "core a' = core a \<or> (\<exists>e'. system_step (core a) e' = Inr (core a'))"
proof (cases e)
  case (Sync e0)
  with assms show ?thesis by (auto split: sum.splits)
next
  case (InitialPrice r)
  with assms show ?thesis by (auto intro: exI [of _ "PriceTick r"] split: if_splits)
next
  case TickStart
  with assms show ?thesis by (auto split: if_splits)
next
  case (WsolFetched k r)
  with assms show ?thesis by (auto split: if_splits)
next
  case (TokenFetched k r)
  show ?thesis
  proof (cases "ticks a k")
    case (Some st)
    with assms TokenFetched show ?thesis
      by (cases st) (auto intro: exI [of _ "CapTick _ r"] split: if_splits sum.splits)
  qed (use assms TokenFetched in auto)
qed

lemma async_run_atomic:
  "async_run a es = Inr A \<Longrightarrow> \<exists>ses. run (core a) ses = Inr (core A)"
proof (induction es arbitrary: a)
  case Nil
  then show ?case by (auto intro: exI [of _ "[]"])
next
  case (Cons e es)
  then obtain b where b: "async_step a e = Inr b" "async_run b es = Inr A"
    by (auto split: sum.splits)
  from Cons.IH [OF b(2)] obtain ses where ses: "run (core b) ses = Inr (core A)" by blast
  from async_step_core [OF b(1)] show ?case
  proof
    assume "core b = core a"
    with ses show ?thesis by auto
  next
    assume "\<exists>e'. system_step (core a) e' = Inr (core b)"
    then obtain e' where "system_step (core a) e' = Inr (core b)" by blast
    with ses have "run (core a) (e' # ses) = Inr (core A)" by simp
    then show ?thesis by blast
  qed
qed

lemma map_sum_Inr: "map_sum id f x = Inr y \<Longrightarrow> \<exists>z. x = Inr z \<and> f z = y"
  by (cases x) auto

lemma async_step_Exited: "phase (core a) = Exited \<Longrightarrow> async_step a e = Inr a"
  by (cases e) (auto simp: system_step_Exited split: option.split tick_stage.split)

lemma async_run_Exited: "phase (core a) = Exited \<Longrightarrow> async_run a es = Inr a"
  by (induction es) (auto simp: async_step_Exited)

lemma async_inv_init: "async_inv (async_init tts)"
  by (simp add: async_inv_def async_init_def)

text \<open>A tick that runs alone is the atomic tick: start, WSOL fetch and token fetch
  together do what \<open>CapTick\<close> does, and leave no pending tick behind.\<close>

lemma sequential_tick_step:
  assumes inv: "async_inv a" and ph: "phase (core a) \<noteq> Exited"
    and ct: "cap_tick r1 r2 (core a) = Inr s"
  shows "async_run a (TickStart # WsolFetched (next_tick a) r1 # TokenFetched (next_tick a) r2 # es) =
         async_run (a\<lparr>next_tick := Suc (next_tick a), core := s\<rparr>) es"
    and "async_inv (a\<lparr>next_tick := Suc (next_tick a), core := s\<rparr>)"
proof -
  have none: "ticks a (next_tick a) = None" using inv by (simp add: async_inv_def)
  then have "((ticks a)(next_tick a \<mapsto> AwaitWsol, next_tick a \<mapsto> AwaitToken r1))(next_tick a := None) =
      ticks a" by auto
  then show "async_run a (TickStart # WsolFetched (next_tick a) r1 # TokenFetched (next_tick a) r2 # es) =
         async_run (a\<lparr>next_tick := Suc (next_tick a), core := s\<rparr>) es" using ph ct by simp
  show "async_inv (a\<lparr>next_tick := Suc (next_tick a), core := s\<rparr>)"
    using inv by (simp add: async_inv_def)
qed

text \<open>An interleaved run is the atomic run of its abstraction, from any state.\<close>

lemma async_run_tick_trace:
  "map_sum id core (async_run a es) = run (core a) (tick_trace (ticks a) (next_tick a) es)"
proof (induction es arbitrary: a)
  case Nil
  then show ?case by simp
next
  case (Cons e es)
  show ?case
  proof (cases "phase (core a) = Exited")
    case True
    then show ?thesis by (simp only: async_run_Exited [OF True] run_Exited [OF True]) simp
  next
    case False
    show ?thesis
    proof (cases e)
      case (TokenFetched k r)
      with False Cons.IH show ?thesis
        by (simp add: fun_upd_def split: option.split tick_stage.split sum.split)
    qed (use False Cons.IH in \<open>simp_all add: fun_upd_def split: sum.split\<close>)
  qed
qed

lemmas async_eval = async_init_def overlap_events_def system_eval

text \<open>
  C29: overlapping ticks refine the atomic model: a run of the process in which ticks
  start, suspend at their two fetches and complete in any interleaving has exactly the
  outcome of the atomic run (\<open>Server.run\<close>) of its abstraction \<open>tick_trace\<close>, in
  which each tick is one \<open>CapTick\<close> with its own two responses, placed where its token
  fetch completed. So every invariant of \<open>Server\<close> holds for such runs.
\<close>

theorem async_run_refines:
  "map_sum id core (async_run (async_init tts) es) = run (system_init tts) (tick_trace Map.empty 0 es)"
  using async_run_tick_trace [of "async_init tts" es] by (simp add: async_init_def)

theorem async_run_refines_witness:
  "map_sum id core (async_run (async_init (Some ''2'')) overlap_events) =
   run (system_init (Some ''2''))
     [PriceTick (HttpResponse 200 (JNumber 150)), CsvLoaded (Rows scenario_rows), Connect,
      CapTick (HttpResponse 200 (JNumber 20)) (HttpResponse 200 (JNumber 10)),
      CapTick (HttpResponse 200 (JNumber 5)) (HttpResponse 200 (JNumber 10))]"
proof -
  have tt: "tick_trace Map.empty 0 overlap_events =
     [PriceTick (HttpResponse 200 (JNumber 150)), CsvLoaded (Rows scenario_rows), Connect,
      CapTick (HttpResponse 200 (JNumber 20)) (HttpResponse 200 (JNumber 10)),
      CapTick (HttpResponse 200 (JNumber 5)) (HttpResponse 200 (JNumber 10))]"
    by (simp add: overlap_events_def)
  show ?thesis by (simp only: async_run_refines tt)
qed

text \<open>
  C35: overlapping ticks deliver values out of start order. On a listening server
  with an open subscriber, when two ticks start in turn and the later one's fetches
  complete first, the subscriber is sent the later-started tick's value and then the
  earlier one's, and the server is left with the value of the tick started first,
  whatever the responses (so long as both ticks emit).
\<close>

theorem overlapping_ticks_reorder:
  assumes ph: "phase (core a) = Listening" and c: "clients (hub (core a)) c = Some OPEN"
    and e2: "calculateAndEmitMarketCap (token_total_supply (core a)) w2 t2 (priceCache (core a)) = (pc2, Some v2)"
    and e1: "calculateAndEmitMarketCap (token_total_supply (core a)) w1 t1 pc2 = (pc1, Some v1)"
  shows "\<exists>A. async_run a [TickStart, TickStart, WsolFetched (next_tick a) w1,
                          WsolFetched (Suc (next_tick a)) w2, TokenFetched (Suc (next_tick a)) t2,
                          TokenFetched (next_tick a) t1] = Inr A \<and>
             map cryptoCoinMarketCap (sent (hub (core A)) c) =
               map cryptoCoinMarketCap (sent (hub (core a)) c) @ [Some v2, Some v1] \<and>
             cryptoMarketCap (hub (core A)) = Some v1"
proof -
  let ?es = "[TickStart, TickStart, WsolFetched (next_tick a) w1, WsolFetched (Suc (next_tick a)) w2,
              TokenFetched (Suc (next_tick a)) t2, TokenFetched (next_tick a) t1]"
  have tt: "tick_trace (ticks a) (next_tick a) ?es = [CapTick w2 t2, CapTick w1 t1]" by simp
  have tr: "map_sum id core (async_run a ?es) = run (core a) [CapTick w2 t2, CapTick w1 t1]"
    by (simp only: async_run_tick_trace tt)
  obtain s1 where s1: "cap_tick w2 t2 (core a) = Inr s1" "phase s1 = Listening" "priceCache s1 = pc2"
    "token_total_supply s1 = token_total_supply (core a)" "clients (hub s1) = clients (hub (core a))"
    "\<forall>c. sent (hub s1) c = (if clients (hub (core a)) c = Some OPEN
                             then sent (hub (core a)) c @ [snapshot (hub s1)] else sent (hub (core a)) c)"
    "cryptoMarketCap (hub s1) = Some v2"
    using cap_tick_listening [OF ph e2] by blast
  have e1': "calculateAndEmitMarketCap (token_total_supply s1) w1 t1 (priceCache s1) = (pc1, Some v1)"
    using e1 s1(3,4) by simp
  obtain s2 where s2: "cap_tick w1 t1 s1 = Inr s2" "cryptoMarketCap (hub s2) = Some v1"
    "\<forall>c. sent (hub s2) c = (if clients (hub s1) c = Some OPEN
                             then sent (hub s1) c @ [snapshot (hub s2)] else sent (hub s1) c)"
    using cap_tick_listening [OF s1(2) e1'] by blast
  have "run (core a) [CapTick w2 t2, CapTick w1 t1] = Inr s2" using ph s1(1,2) s2(1) by simp
  with tr obtain A where A: "async_run a ?es = Inr A" "core A = s2"
    using map_sum_Inr [of core "async_run a ?es" s2] by auto
  have "sent (hub s2) c = sent (hub (core a)) c @ [snapshot (hub s1), snapshot (hub s2)]"
    using s1(5,6) s2(3) c by simp
  with A s1(7) s2(2) show ?thesis by (auto simp: snapshot_def)
qed

theorem overlapping_ticks_reorder_witness:
  "\<exists>A. async_run overlap_start (drop 3 overlap_events) = Inr A \<and>
       map cryptoCoinMarketCap (sent (hub (core A)) 0) = [None, Some 600, Some 150] \<and>
       cryptoMarketCap (hub (core A)) = Some 150"
proof -
  have h: "phase (core overlap_start) = Listening" "clients (hub (core overlap_start)) 0 = Some OPEN"
    "next_tick overlap_start = 0" "map cryptoCoinMarketCap (sent (hub (core overlap_start)) 0) = [None]"
    by (simp_all add: overlap_start_def server_init_def snapshot_def)
  have e2: "calculateAndEmitMarketCap (token_total_supply (core overlap_start)) (HttpResponse 200 (JNumber 20))
      (HttpResponse 200 (JNumber 10)) (priceCache (core overlap_start)) =
      (priceCache_init\<lparr>solUsd := Some 150, splTokenUsd := Some 300\<rparr>, Some 600)"
    by (simp add: overlap_start_def feed_defs parse_eval)
  have e1: "calculateAndEmitMarketCap (token_total_supply (core overlap_start)) (HttpResponse 200 (JNumber 5))
      (HttpResponse 200 (JNumber 10)) (priceCache_init\<lparr>solUsd := Some 150, splTokenUsd := Some 300\<rparr>) =
      (priceCache_init\<lparr>solUsd := Some 150, splTokenUsd := Some 75\<rparr>, Some 150)"
    by (simp add: overlap_start_def feed_defs parse_eval)
  have d: "drop 3 overlap_events =
      [TickStart, TickStart, WsolFetched (next_tick overlap_start) (HttpResponse 200 (JNumber 5)),
       WsolFetched (Suc (next_tick overlap_start)) (HttpResponse 200 (JNumber 20)),
       TokenFetched (Suc (next_tick overlap_start)) (HttpResponse 200 (JNumber 10)),
       TokenFetched (next_tick overlap_start) (HttpResponse 200 (JNumber 10))]"
    using h(3) by (simp add: overlap_events_def)
  from overlapping_ticks_reorder [OF h(1,2) e2 e1] h(4) d show ?thesis by simp
qed

text \<open>
  C40: ticks that do not overlap deliver in timer order: a run of non-overlapping
  ticks has the same outcome as the atomic run of their \<open>CapTick\<close> events in the
  order the timer started them (spec section 5; contrast C35).
\<close>

theorem sequential_ticks_atomic:
  assumes "async_inv a"
  shows "map_sum id core (async_run a (sequential_ticks (next_tick a) rs)) =
         run (core a) (map (\<lambda>(r1, r2). CapTick r1 r2) rs)"
  using assms
proof (induction rs arbitrary: a)
  case Nil
  then show ?case by simp
next
  case (Cons p rs)
  obtain r1 r2 where p: "p = (r1, r2)" by (cases p)
  show ?case
  proof (cases "phase (core a) = Exited")
    case True
    then show ?thesis by (simp only: async_run_Exited [OF True] run_Exited [OF True]) simp
  next
    case False
    obtain s where ct: "cap_tick r1 r2 (core a) = Inr s" using cap_tick_Inr by blast
    note st = sequential_tick_step [OF Cons.prems False ct]
    from Cons.IH [OF st(2)] st(1) False ct show ?thesis by (simp add: p)
  qed
qed

theorem sequential_ticks_atomic_witness:
  "\<exists>A. async_run (async_init (Some ''2'')) (take 3 overlap_events) = Inr A \<and> async_inv A \<and>
     map_sum id core (async_run A (sequential_ticks (next_tick A)
       [(HttpResponse 200 (JNumber 5), HttpResponse 200 (JNumber 10)),
        (HttpResponse 200 (JNumber 20), HttpResponse 200 (JNumber 10))])) =
     run (core A) [CapTick (HttpResponse 200 (JNumber 5)) (HttpResponse 200 (JNumber 10)),
                   CapTick (HttpResponse 200 (JNumber 20)) (HttpResponse 200 (JNumber 10))]"
proof -
  have "\<exists>A. async_run (async_init (Some ''2'')) (take 3 overlap_events) = Inr A \<and> async_inv A"
    by (simp add: async_eval async_inv_def)
  then obtain A where A: "async_run (async_init (Some ''2'')) (take 3 overlap_events) = Inr A"
    "async_inv A" by blast
  from sequential_ticks_atomic [OF A(2), of "[(HttpResponse 200 (JNumber 5), HttpResponse 200 (JNumber 10)),
        (HttpResponse 200 (JNumber 20), HttpResponse 200 (JNumber 10))]"] A
  show ?thesis by auto
qed

end
