(* ===== verification/Presentation.thy ===== *)
theory Presentation
  imports BroadcastHub
begin

text \<open>
  The page of \<^verbatim>\<open>src/src/App.js\<close>: the React state of \<open>App\<close> (lines 12--15),
  the WebSocket \<open>onmessage\<close> handler (lines 25--43), the main text and the two company
  links it renders (lines 101--138, with \<open>getYahooFinanceURL\<close> of lines 65--67), the
  socket effect and its cleanup (lines 17--58), the identifier box (lines 141--154) and
  the copy feedback of \<open>copyToClipboard\<close> (lines 73--82, 157). A React state setter is a
  record update; rendering is a function of the state. A message arrives as what
  \<open>JSON.parse\<close> gives for the string the server sent (\<open>ws_data\<close>);
  the element tree it renders is in \<open>PageRender\<close>.
\<close>

section \<open>Page state\<close>

record page_state =
  pg_cryptoMarketCap :: "real option"
  pg_currentCompany :: "company option"
  pg_nextUpCompany :: "company option"
  copied :: bool
  copy_timers :: nat
  copy_requests :: "string list"
  ws_open :: bool

text \<open>\<open>useState(15792432)\<close>, \<open>useState(null)\<close> twice, \<open>useState(false)\<close>; no
  feedback timer and no clipboard write is pending; the effect of lines 17--58 has
  opened the socket and installed its handlers.\<close>

definition page_init :: page_state where
  "page_init =
    \<lparr>pg_cryptoMarketCap = Some 15792432, pg_currentCompany = None, pg_nextUpCompany = None,
     copied = False, copy_timers = 0, copy_requests = [], ws_open = True\<rparr>"

section \<open>Messages\<close>

text \<open>
  The value of \<open>JSON.parse(event.data)\<close>: either it throws, or it is an object whose
  \<open>cryptoCoinMarketCap\<close> field is absent (\<open>None\<close>, read as \<open>undefined\<close>),
  \<open>null\<close> (\<open>Some None\<close>) or a number, and whose company fields are an object or
  \<open>null\<close>.
\<close>

datatype ws_data =
  WsObject "real option option" "company option" "company option"
| WsUnparsable

text \<open>What the page parses from \<open>ws.send(JSON.stringify(m))\<close> of the server
  (\<^verbatim>\<open>server.js\<close> lines 144 and 159): all three keys are present, \<open>null\<close> kept.\<close>

definition wire_message :: "message \<Rightarrow> ws_data" where
  "wire_message m =
    WsObject (Some (cryptoCoinMarketCap m)) (msg_currentCompany m) (msg_nextUpCompany m)"

text \<open>
  \<open>ws.onmessage\<close>: a parse error is caught and logged, the state is unchanged. Otherwise
  the market cap is set when the key is present, and each company is set to the field
  when it is truthy (an object) and to \<open>null\<close> otherwise.
\<close>

definition onmessage :: "ws_data \<Rightarrow> page_state \<Rightarrow> page_state" where
  "onmessage d p =
    (case d of
       WsUnparsable \<Rightarrow> p
     | WsObject cap cur nxt \<Rightarrow>
         (let p1 = (case cap of None \<Rightarrow> p | Some x \<Rightarrow> p\<lparr>pg_cryptoMarketCap := x\<rparr>);
              p2 = (case cur of Some c \<Rightarrow> p1\<lparr>pg_currentCompany := Some c\<rparr>
                              | None \<Rightarrow> p1\<lparr>pg_currentCompany := None\<rparr>)
          in case nxt of Some c \<Rightarrow> p2\<lparr>pg_nextUpCompany := Some c\<rparr>
                       | None \<Rightarrow> p2\<lparr>pg_nextUpCompany := None\<rparr>))"

text \<open>The page of a subscriber after the handler has run on each message the server
  sent to its socket, in order.\<close>

definition subscriber_page :: "message list \<Rightarrow> page_state" where
  "subscriber_page ms = foldl (\<lambda>p m. onmessage (wire_message m) p) page_init ms"

text \<open>The three fields the page displays, as a message.\<close>

definition page_view :: "page_state \<Rightarrow> message" where
  "page_view p =
    \<lparr>cryptoCoinMarketCap = pg_cryptoMarketCap p, msg_currentCompany = pg_currentCompany p,
     msg_nextUpCompany = pg_nextUpCompany p\<rparr>"

section \<open>Rendering\<close>

text \<open>The main text: \<open>"WAITING FOR BOND..."\<close> when the market cap is falsy
  (\<open>null\<close> or 0) or there is no current company, otherwise
  \<open>Math.floor(currentCompany.marketcap - cryptoMarketCap)\<close> after a dollar sign.\<close>

datatype main_text = WaitingForBond | Distance int

definition main_display :: "page_state \<Rightarrow> main_text" where
  "main_display p =
    (case (pg_cryptoMarketCap p, pg_currentCompany p) of
       (Some v, Some c) \<Rightarrow> if js_truthy_opt (Some v) then Distance \<lfloor>marketcap c - v\<rfloor>
                           else WaitingForBond
     | _ \<Rightarrow> WaitingForBond)"

definition getYahooFinanceURL :: "string \<Rightarrow> string" where
  "getYahooFinanceURL ticker = ''https://finance.yahoo.com/quote/'' @ ticker @ ''/''"

text \<open>A rendered link: the company's name and its \<open>href\<close>; the paragraphs are
  rendered only when the company is set.\<close>

definition company_link :: "company \<Rightarrow> string \<times> string" where
  "company_link c = (name c, getYahooFinanceURL (symbol c))"

definition away_link :: "page_state \<Rightarrow> (string \<times> string) option" where
  "away_link p = map_option company_link (pg_currentCompany p)"

definition next_link :: "page_state \<Rightarrow> (string \<times> string) option" where
  "next_link p = map_option company_link (pg_nextUpCompany p)"

section \<open>CompanyCard\<close>

text \<open>
  \<^verbatim>\<open>src/src/components/CompanyCard.js\<close>: nothing for a falsy company, otherwise a
  card whose class depends on the title, with a link labelled \<open>name (symbol)\<close> and
  the company's \<open>delta\<close>. The company objects of the backend carry \<open>name\<close>,
  \<open>symbol\<close> and \<open>marketcap\<close> only, so \<open>company.delta\<close> reads \<open>undefined\<close>
  (\<open>None\<close>). \<open>App.js\<close> does not render this component.
\<close>

datatype card = Card string string string string "real option"

definition CompanyCard :: "string \<Rightarrow> company option \<Rightarrow> card option" where
  "CompanyCard title company =
    (case company of
       None \<Rightarrow> None
     | Some c \<Rightarrow>
         Some (Card (if title = ''Currently Vamping'' then ''current'' else ''next-up'') title
                (getYahooFinanceURL (symbol c)) (name c @ '' ('' @ symbol c @ '')'') None))"

section \<open>Copy feedback and the socket's lifetime\<close>

text \<open>
  The identifier box (lines 141--154) copies a fixed address on a click and on the
  Enter key. \<open>copyToClipboard\<close> (lines 73--82) starts
  \<open>navigator.clipboard.writeText\<close>; the writes in flight are \<open>copy_requests\<close>,
  oldest first. When a write resolves, \<open>copied\<close> is set and a two-second timer is
  started that clears it; a rejected write only logs. The timers all do the same
  thing, so only their number is kept. The feedback span is rendered while
  \<open>copied\<close> holds (line 157).
\<close>

definition company_identifier :: string where
  "company_identifier = ''2bq3iV4Sn8GV9E6CZbadP4NHofhgkDfMk2F77Epcpump''"

definition copyToClipboard :: "string \<Rightarrow> page_state \<Rightarrow> page_state" where
  "copyToClipboard text p = p\<lparr>copy_requests := copy_requests p @ [text]\<rparr>"

definition box_onClick :: "page_state \<Rightarrow> page_state" where
  "box_onClick p = copyToClipboard company_identifier p"

definition box_onKeyPress :: "string \<Rightarrow> page_state \<Rightarrow> page_state" where
  "box_onKeyPress key p = (if key = ''Enter'' then copyToClipboard company_identifier p else p)"

definition copy_feedback :: "page_state \<Rightarrow> string option" where
  "copy_feedback p = (if copied p then Some ''COPIED TO CLIPBOARD'' else None)"

text \<open>
  The events of the page. A message is handled only while the socket of the effect
  is open: the cleanup of the effect (\<open>ws.close()\<close>, lines 54--57, on unmount)
  stops it. \<open>onopen\<close>, \<open>onclose\<close> and \<open>onerror\<close> only log.
\<close>

datatype page_event =
    WsMessage ws_data | Unmount | BoxClick | BoxKeyPress string
  | CopyResolved | CopyRejected | CopyTimerFires

fun page_step :: "page_state \<Rightarrow> page_event \<Rightarrow> page_state" where
  "page_step p (WsMessage d) = (if ws_open p then onmessage d p else p)"
| "page_step p Unmount = p\<lparr>ws_open := False\<rparr>"
| "page_step p BoxClick = box_onClick p"
| "page_step p (BoxKeyPress key) = box_onKeyPress key p"
| "page_step p CopyResolved =
    (case copy_requests p of
       [] \<Rightarrow> p
     | _ # rs \<Rightarrow> p\<lparr>copy_requests := rs, copied := True, copy_timers := Suc (copy_timers p)\<rparr>)"
| "page_step p CopyRejected =
    (case copy_requests p of [] \<Rightarrow> p | _ # rs \<Rightarrow> p\<lparr>copy_requests := rs\<rparr>)"
| "page_step p CopyTimerFires =
    (if copy_timers p = 0 then p else p\<lparr>copied := False, copy_timers := copy_timers p - 1\<rparr>)"

inductive page_reachable :: "page_state \<Rightarrow> bool" where
  init: "page_reachable page_init"
| step: "page_reachable p \<Longrightarrow> page_reachable (page_step p e)"

lemmas page_defs = page_init_def wire_message_def onmessage_def subscriber_page_def
  page_view_def main_display_def getYahooFinanceURL_def company_link_def away_link_def
  next_link_def copyToClipboard_def box_onClick_def box_onKeyPress_def copy_feedback_def
  company_identifier_def Let_def

section \<open>Lemmas\<close>

lemma onmessage_wire_fields:
  "onmessage (wire_message m) p =
     p\<lparr>pg_cryptoMarketCap := cryptoCoinMarketCap m, pg_currentCompany := msg_currentCompany m,
       pg_nextUpCompany := msg_nextUpCompany m\<rparr>"
  by (simp add: onmessage_def wire_message_def Let_def split: option.split)

lemma subscriber_page_snoc [simp]:
  "subscriber_page (ms @ [m]) = onmessage (wire_message m) (subscriber_page ms)"
  by (simp add: subscriber_page_def)

lemma page_view_subscriber_page:
  "ms \<noteq> [] \<Longrightarrow> page_view (subscriber_page ms) = last ms"
  by (induction ms rule: rev_induct) (simp_all add: page_view_def onmessage_wire_fields)

lemma main_display_Some:
  "pg_cryptoMarketCap p = Some v \<Longrightarrow> pg_currentCompany p = Some c \<Longrightarrow> v \<noteq> 0 \<Longrightarrow>
   main_display p = Distance \<lfloor>marketcap c - v\<rfloor>"
  by (simp add: main_display_def)

lemma main_display_view:
  "page_view p = page_view q \<Longrightarrow> main_display p = main_display q"
  by (simp add: page_view_def main_display_def)

text \<open>
  C36: the page's handler and the server's serialization are a round trip: after the
  handler has run on a message the server sent, the page displays exactly the
  message's market cap and companies, and the copy feedback is untouched.
\<close>

theorem onmessage_round_trip:
  "page_view (onmessage (wire_message m) p) = m \<and>
   copied (onmessage (wire_message m) p) = copied p \<and>
   copy_timers (onmessage (wire_message m) p) = copy_timers p"
  by (simp add: onmessage_def wire_message_def page_view_def Let_def split: option.split)

lemma onmessage_copy_fields:
  "copied (onmessage d p) = copied p \<and> copy_timers (onmessage d p) = copy_timers p"
  by (simp add: onmessage_def Let_def split: ws_data.split option.split)

text \<open>While the feedback is shown, a timer that hides it is pending.\<close>

lemma page_step_copy_inv:
  "(copied p \<longrightarrow> 0 < copy_timers p) \<Longrightarrow> copied (page_step p e) \<longrightarrow> 0 < copy_timers (page_step p e)"
  by (cases e)
    (auto simp: onmessage_copy_fields box_onClick_def box_onKeyPress_def copyToClipboard_def
      split: list.split)

lemma page_reachable_copy_inv: "page_reachable p \<Longrightarrow> copied p \<longrightarrow> 0 < copy_timers p"
  by (induction rule: page_reachable.induct) (simp_all add: page_init_def page_step_copy_inv)

lemma page_reachable_foldl: "page_reachable p \<Longrightarrow> page_reachable (foldl page_step p es)"
  by (induction es arbitrary: p) (auto intro: page_reachable.step)

text \<open>Firing the pending timers clears them all, and hides the feedback if any fired.\<close>

lemma fire_copy_timers:
  "copy_timers p = n \<Longrightarrow>
   copy_timers (foldl page_step p (replicate n CopyTimerFires)) = 0 \<and>
   copied (foldl page_step p (replicate n CopyTimerFires)) = (copied p \<and> n = 0)"
  by (induction n arbitrary: p) auto

text \<open>
  C8: the copy feedback is always eventually hidden: from every state the page can
  reach, once the pending timers have fired, \<open>COPIED TO CLIPBOARD\<close> is not shown and
  no timer is left.
\<close>

theorem copy_feedback_eventually_hidden:
  assumes "page_reachable p"
  shows "copy_feedback (foldl page_step p (replicate (copy_timers p) CopyTimerFires)) = None \<and>
         copy_timers (foldl page_step p (replicate (copy_timers p) CopyTimerFires)) = 0"
  using fire_copy_timers [of p "copy_timers p"] page_reachable_copy_inv [OF assms]
  by (auto simp: copy_feedback_def)

theorem copy_feedback_eventually_hidden_witness:
  "page_reachable (foldl page_step page_init [BoxClick, CopyResolved]) \<and>
   copy_feedback (foldl page_step page_init [BoxClick, CopyResolved]) = Some ''COPIED TO CLIPBOARD'' \<and>
   copy_feedback (foldl page_step (foldl page_step page_init [BoxClick, CopyResolved])
     (replicate (copy_timers (foldl page_step page_init [BoxClick, CopyResolved])) CopyTimerFires)) = None"
proof -
  have r: "page_reachable (foldl page_step page_init [BoxClick, CopyResolved])"
    by (rule page_reachable_foldl [OF page_reachable.init])
  have "copy_feedback (foldl page_step page_init [BoxClick, CopyResolved]) = Some ''COPIED TO CLIPBOARD''"
    by (simp add: page_defs)
  with copy_feedback_eventually_hidden [OF r] r show ?thesis by simp
qed

text \<open>Once the socket of the effect is closed it stays closed, and no event changes what
  the page displays.\<close>

lemma page_step_closed:
  "\<not> ws_open p \<Longrightarrow> \<not> ws_open (page_step p e) \<and> page_view (page_step p e) = page_view p"
  by (cases e) (auto simp: page_view_def box_onClick_def box_onKeyPress_def copyToClipboard_def
      split: list.split)

lemma foldl_page_step_closed:
  "\<not> ws_open q \<Longrightarrow> page_view (foldl page_step q es) = page_view q \<and> \<not> ws_open (foldl page_step q es)"
proof (induction es arbitrary: q)
  case (Cons e es)
  from page_step_closed [OF Cons.prems, of e] Cons.IH [of "page_step q e"] show ?case by simp
qed simp

text \<open>
  C24: after the component unmounts (the cleanup \<open>ws.close()\<close> of the effect), no
  sequence of events, messages from the server included, changes the market cap or the
  companies the page holds.
\<close>

theorem unmounted_page_frozen:
  "page_view (foldl page_step (page_step p Unmount) es) = page_view p"
proof -
  have "page_view (page_step p Unmount) = page_view p" by (simp add: page_view_def)
  with foldl_page_step_closed [of "page_step p Unmount" es] show ?thesis by simp
qed

text \<open>
  C39: the feedback of a later copy is hidden early: whenever two clipboard writes are
  in flight and both resolve, the timer of the first hides \<open>COPIED TO CLIPBOARD\<close>
  while the second copy's timer is still pending, so the second copy is acknowledged
  for less than its two seconds (each resolved copy starts its own timer and none is
  cleared).
\<close>

theorem copy_feedback_hidden_early:
  assumes "copy_requests p = t1 # t2 # ts"
  shows "copy_feedback (foldl page_step p [CopyResolved, CopyResolved]) = Some ''COPIED TO CLIPBOARD'' \<and>
         copy_feedback (foldl page_step p [CopyResolved, CopyResolved, CopyTimerFires]) = None \<and>
         0 < copy_timers (foldl page_step p [CopyResolved, CopyResolved, CopyTimerFires])"
  using assms by (simp add: copy_feedback_def)

theorem copy_feedback_hidden_early_witness:
  "copy_requests (foldl page_step page_init [BoxClick, BoxKeyPress ''Enter'']) =
     [company_identifier, company_identifier] \<and>
   copy_feedback (foldl page_step (foldl page_step page_init [BoxClick, BoxKeyPress ''Enter''])
     [CopyResolved, CopyResolved, CopyTimerFires]) = None"
proof -
  have r: "copy_requests (foldl page_step page_init [BoxClick, BoxKeyPress ''Enter'']) =
     [company_identifier, company_identifier]"
    by (simp add: page_init_def box_onClick_def box_onKeyPress_def copyToClipboard_def)
  from copy_feedback_hidden_early [OF r] r show ?thesis by simp
qed

end
