(* ===== verification/PageRender.thy ===== *)
theory PageRender
  imports Presentation
begin

text \<open>
  The element tree that \<open>App\<close> of \<^verbatim>\<open>src/src/App.js\<close> returns (lines 95--210),
  the handler \<open>scrollToManifesto\<close> (lines 84--93) and the \<open>propTypes\<close> of
  \<^verbatim>\<open>src/src/components/CompanyCard.js\<close> (lines 32--39). A JSX element is
  \<open>Elem tag attributes handlers children\<close>; a child \<open>{x && ...}\<close> renders nothing
  when \<open>x\<close> is falsy (\<open>optional\<close>). The DOM functions the page relies on
  (\<open>document.getElementById\<close>, the anchors of a document, \<open>toLocaleString\<close> in the
  \<open>en-US\<close> locale) are modelled from their specifications.
\<close>

section \<open>Elements\<close>

datatype handler = OnCopyClick | OnCopyKeyPress | OnScrollClick

datatype html =
    Elem string "(string \<times> string) list" "(string \<times> handler) list" "html list"
  | Txt string

section \<open>The DOM\<close>

text \<open>The nodes of a tree in document order (pre-order), an element's attribute and
  tag, \<open>getElementById\<close> (the first element in document order with that
  \<open>id\<close>), and the \<open>href\<close> and \<open>rel\<close> of every anchor opened in a new tab.\<close>

fun nodes :: "html \<Rightarrow> html list" where
  "nodes (Txt s) = [Txt s]"
| "nodes (Elem t as hs cs) = Elem t as hs cs # concat (map nodes cs)"

fun elem_attr :: "html \<Rightarrow> string \<Rightarrow> string option" where
  "elem_attr (Elem t as hs cs) k = map_of as k"
| "elem_attr (Txt s) k = None"

fun elem_tag :: "html \<Rightarrow> string option" where
  "elem_tag (Elem t as hs cs) = Some t"
| "elem_tag (Txt s) = None"

definition getElementById :: "string \<Rightarrow> html \<Rightarrow> html option" where
  "getElementById i doc = find (\<lambda>n. elem_attr n ''id'' = Some i) (nodes doc)"

definition hrefs :: "html \<Rightarrow> string list" where
  "hrefs doc = List.map_filter (\<lambda>n. elem_attr n ''href'') (nodes doc)"

definition blank_anchors :: "html \<Rightarrow> (string option \<times> string option) list" where
  "blank_anchors doc =
    List.map_filter
      (\<lambda>n. if elem_tag n = Some ''a'' \<and> elem_attr n ''target'' = Some ''_blank''
           then Some (elem_attr n ''href'', elem_attr n ''rel'') else None) (nodes doc)"

text \<open>\<open>Number.prototype.toLocaleString()\<close> on an integer in the \<open>en-US\<close> locale:
  a minus sign, then the digits with a comma before every group of three counted from
  the right.\<close>

fun group_rev :: "string \<Rightarrow> string" where
  "group_rev (a # b # c # d # ds) = a # b # c # CHR '','' # group_rev (d # ds)"
| "group_rev ds = ds"

definition toLocaleString :: "int \<Rightarrow> string" where
  "toLocaleString i =
    (if i < 0 then ''-'' else []) @ rev (group_rev (rev (decimal_string (nat \<bar>i\<bar>))))"

section \<open>The page\<close>

definition optional :: "'a option \<Rightarrow> ('a \<Rightarrow> html) \<Rightarrow> html list" where
  "optional x f = (case x of None \<Rightarrow> [] | Some v \<Rightarrow> [f v])"

text \<open>Lines 101--106: the main text, with \<open>toLocaleString\<close> of the distance.\<close>

definition main_text_string :: "main_text \<Rightarrow> string" where
  "main_text_string t =
    (case t of WaitingForBond \<Rightarrow> ''WAITING FOR BOND...''
             | Distance d \<Rightarrow> ''$'' @ toLocaleString d)"

text \<open>Lines 112--121 and 127--136: a company's link, from its name and \<open>href\<close>
  (\<open>company_link\<close>).\<close>

definition company_anchor :: "string \<Rightarrow> string \<times> string \<Rightarrow> html" where
  "company_anchor cls l =
    (case l of (nm, url) \<Rightarrow>
      Elem ''a'' [(''href'', url), (''target'', ''_blank''), (''rel'', ''noopener noreferrer''),
                  (''className'', cls), (''aria-label'', ''View '' @ nm @ '' on Yahoo Finance''),
                  (''title'', ''View '' @ nm @ '' on Yahoo Finance'')] [] [Txt nm])"

text \<open>Lines 141--154: the identifier box, focusable, with its click and key handlers.\<close>

definition identifier_box :: html where
  "identifier_box =
    Elem ''div'' [(''className'', ''box''), (''aria-label'', ''Copy company identifier to clipboard''),
                  (''title'', ''Click to copy''), (''tabIndex'', ''0'')]
      [(''onClick'', OnCopyClick), (''onKeyPress'', OnCopyKeyPress)]
      [Elem ''p'' [(''className'', ''box-text'')] [] [Txt ''2bq3iV4Sn8GV9E6CZbadP4NHofhgkDfMk2F77Epcpump'']]"

text \<open>Lines 98--174: the first section. The entity \<open>&#8595;\<close> is kept as written.\<close>

definition section_1 :: "page_state \<Rightarrow> html" where
  "section_1 p =
    Elem ''section'' [(''className'', ''section section-1'')] []
     [Elem ''div'' [(''className'', ''content'')] []
       ([Elem ''h1'' [(''className'', ''main-text'')] [] [Txt (main_text_string (main_display p))]] @
        optional (away_link p)
          (\<lambda>l. Elem ''p'' [(''className'', ''small-text'')] []
                 [Txt ''AWAY FROM VAMPING:'', Txt '' '', company_anchor ''company-link'' l]) @
        optional (next_link p)
          (\<lambda>l. Elem ''p'' [(''className'', ''small-text next-up-text'')] []
                 [Txt ''NEXT UP:'', Txt '' '', company_anchor ''company-link next-up-link'' l]) @
        [identifier_box] @
        optional (copy_feedback p) (\<lambda>t. Elem ''span'' [(''className'', ''copy-feedback'')] [] [Txt t]) @
        [Elem ''a'' [(''href'', ''#socials''), (''className'', ''box buy-box''), (''aria-label'', ''Join'')] []
           [Elem ''p'' [(''className'', ''box-text'')] [] [Txt ''JOIN'']],
         Elem ''a'' [(''href'', ''#manifesto''), (''className'', ''scroll-indicator''),
                     (''aria-label'', ''Scroll down to Manifesto'')] [(''onClick'', OnScrollClick)]
           [Txt ''&#8595; Why? &#8595;'']])]"

text \<open>Lines 177--190: the manifesto.\<close>

definition manifesto_section :: html where
  "manifesto_section =
    Elem ''section'' [(''className'', ''section section-2''), (''id'', ''manifesto'')] []
     [Elem ''div'' [(''className'', ''manifesto-content'')] []
       [Elem ''h2'' [(''className'', ''manifesto-title'')] [] [Txt ''Manifesto''],
        Elem ''p'' [(''className'', ''manifesto-text'')] []
          [Txt ''$VAMP is a revolutionary memecoin movement created to challenge the financial status quo by systematically overtaking the market capitalization of established companies.''],
        Elem ''p'' [(''className'', ''manifesto-text'')] []
          [Txt ''With each milestone, $VAMP targets larger and larger corporations, building momentum through community-driven growth and viral appeal. This digital asset harnesses the power of meme culture and social dynamics to fuel its ambitious ascent, aiming to flip traditional market hierarchies and ultimately claim the throne as the world's most valuable asset.''],
        Elem ''p'' [(''className'', ''manifesto-text'')] []
          [Txt ''Through this journey, $FLIP transforms the concept of value creation into an engaging, community-powered mission where every holder becomes part of a historic market revolution.'']]]"

text \<open>Lines 193--207: the social links; an image is \<open>img\<close> with its source module.\<close>

definition socials_section :: html where
  "socials_section =
    Elem ''section'' [(''className'', ''section section-3''), (''id'', ''socials'')] []
     [Elem ''div'' [(''className'', ''socials-container'')] []
       [Elem ''h2'' [(''className'', ''join-us'')] [] [Txt ''Join Us''],
        Elem ''div'' [(''className'', ''socials-content'')] []
          [Elem ''a'' [(''href'', ''https://x.com/i/communities/1876718589308207508''), (''target'', ''_blank''),
                       (''rel'', ''noopener noreferrer''), (''aria-label'', ''Twitter''), (''title'', ''Follow us on Twitter'')] []
             [Elem ''img'' [(''src'', ''xLogo''), (''alt'', ''Twitter''), (''className'', ''social-icon'')] [] []],
           Elem ''a'' [(''href'', ''https://discord.gg/ymfyxZkW''), (''target'', ''_blank''),
                       (''rel'', ''noopener noreferrer''), (''aria-label'', ''Discord''), (''title'', ''Join our Discord'')] []
             [Elem ''img'' [(''src'', ''discordLogo''), (''alt'', ''Discord''), (''className'', ''social-icon'')] [] []]]]]"

definition App_render :: "page_state \<Rightarrow> html" where
  "App_render p =
    Elem ''div'' [(''className'', ''App'')] [] [section_1 p, manifesto_section, socials_section]"

text \<open>Lines 87--93: \<open>e.preventDefault()\<close>, then the manifesto section is looked up
  in the document and, when found, scrolled into view smoothly to the centre.\<close>

record scroll_effect =
  default_prevented :: bool
  scrolled_into_view :: "(html \<times> string \<times> string) option"

definition scrollToManifesto :: "html \<Rightarrow> scroll_effect" where
  "scrollToManifesto doc =
    (let manifestoSection = getElementById ''manifesto'' doc in
     \<lparr>default_prevented = True,
      scrolled_into_view =
        (case manifestoSection of None \<Rightarrow> None | Some sec \<Rightarrow> Some (sec, ''smooth'', ''center''))\<rparr>)"

text \<open>The text a reader sees in an element: its text nodes in document order.\<close>

fun text_content :: "html \<Rightarrow> string" where
  "text_content (Txt s) = s"
| "text_content (Elem t as hs cs) = concat (map text_content cs)"

section \<open>CompanyCard props\<close>

text \<open>
  The props of \<open>CompanyCard\<close> as JavaScript values, and a company object as the
  server builds it (\<^verbatim>\<open>server.js\<close> lines 46--50) and the page receives it: the
  fields \<open>name\<close>, \<open>symbol\<close>, \<open>marketcap\<close>. A field that is absent reads
  \<open>undefined\<close>.
\<close>

datatype js_prop = PStr string | PNum real | PObj "(string \<times> js_prop) list" | PNull | PUndef

definition company_object :: "company \<Rightarrow> js_prop" where
  "company_object c =
    PObj [(''name'', PStr (name c)), (''symbol'', PStr (symbol c)), (''marketcap'', PNum (marketcap c))]"

fun prop_field :: "js_prop \<Rightarrow> string \<Rightarrow> js_prop" where
  "prop_field (PObj fs) k = (case map_of fs k of None \<Rightarrow> PUndef | Some v \<Rightarrow> v)"
| "prop_field v k = PUndef"

text \<open>\<open>PropTypes.string.isRequired\<close> and \<open>PropTypes.number.isRequired\<close>: a
  warning naming the prop when it is \<open>null\<close>, \<open>undefined\<close> or of another type.\<close>

definition required_string :: "string \<Rightarrow> js_prop \<Rightarrow> string list" where
  "required_string path v = (case v of PStr _ \<Rightarrow> [] | _ \<Rightarrow> [path])"

definition required_number :: "string \<Rightarrow> js_prop \<Rightarrow> string list" where
  "required_number path v = (case v of PNum _ \<Rightarrow> [] | _ \<Rightarrow> [path])"

text \<open>Lines 32--39: \<open>title\<close> is a required string; \<open>company\<close> is an optional
  shape, checked only when it is not \<open>null\<close> or \<open>undefined\<close>, whose \<open>name\<close> and
  \<open>symbol\<close> are required strings and \<open>delta\<close> a required number. The result is
  the list of props React warns about.\<close>

definition CompanyCard_propTypes :: "js_prop \<Rightarrow> js_prop \<Rightarrow> string list" where
  "CompanyCard_propTypes title company =
    required_string ''title'' title @
    (case company of
       PNull \<Rightarrow> []
     | PUndef \<Rightarrow> []
     | PObj _ \<Rightarrow> required_string ''company.name'' (prop_field company ''name'') @
                 required_string ''company.symbol'' (prop_field company ''symbol'') @
                 required_number ''company.delta'' (prop_field company ''delta'')
     | _ \<Rightarrow> [''company''])"

lemmas render_defs = App_render_def section_1_def optional_def company_anchor_def
  identifier_box_def manifesto_section_def socials_section_def away_link_def next_link_def
  company_link_def copy_feedback_def

section \<open>Lemmas\<close>

lemma group_rev_removeAll:
  "removeAll (CHR '','') (group_rev s) = removeAll (CHR '','') s"
  by (induction s rule: group_rev.induct) auto

lemma group_rev_commas:
  "length (filter ((=) (CHR '','')) (group_rev s)) =
     length (filter ((=) (CHR '','')) s) + (length s - 1) div 3"
  by (induction s rule: group_rev.induct) auto

lemma decimal_string_no_comma: "CHR '','' \<notin> set (decimal_string n)"
  using decimal_string_is_digit [of "CHR '',''" n] by (auto simp: is_digit_def)

lemma toLocaleString_digits:
  "removeAll (CHR '','') (toLocaleString i) =
     (if i < 0 then ''-'' else []) @ decimal_string (nat \<bar>i\<bar>)"
proof -
  have "removeAll (CHR '','') (rev (group_rev (rev (decimal_string (nat \<bar>i\<bar>))))) =
        decimal_string (nat \<bar>i\<bar>)"
    using decimal_string_no_comma [of "nat \<bar>i\<bar>"]
    by (auto simp: removeAll_filter_not_eq rev_filter [symmetric]
          group_rev_removeAll [unfolded removeAll_filter_not_eq] filter_id_conv)
  then show ?thesis by (simp add: toLocaleString_def)
qed

lemma section_1_no_id:
  "\<forall>n\<in>set (nodes (section_1 p)). elem_attr n ''id'' = None"
  by (cases "pg_currentCompany p"; cases "pg_nextUpCompany p"; simp add: render_defs)

lemma nodes_hd: "nodes h = h # tl (nodes h)"
  by (cases h) simp_all

lemma find_attr_None:
  "\<forall>n\<in>set xs. elem_attr n k = None \<Longrightarrow> find (\<lambda>n. elem_attr n k = Some v) xs = None"
  by (auto simp: find_None_iff)

lemma map_filter_attr_None:
  "\<forall>n\<in>set xs. elem_attr n k = None \<Longrightarrow> List.map_filter (\<lambda>n. elem_attr n k) xs = []"
  by (induction xs) simp_all

lemma static_sections_attrs:
  "elem_attr manifesto_section ''id'' = Some ''manifesto''"
  "\<forall>n\<in>set (tl (nodes manifesto_section)). elem_attr n ''id'' = None"
  "\<forall>n\<in>set (nodes manifesto_section). elem_attr n ''href'' = None"
  "elem_attr socials_section ''id'' = Some ''socials''"
  "\<forall>n\<in>set (tl (nodes socials_section)). elem_attr n ''id'' = None"
  "List.map_filter (\<lambda>n. elem_attr n ''href'') (nodes socials_section) =
     [''https://x.com/i/communities/1876718589308207508'', ''https://discord.gg/ymfyxZkW'']"
  by (simp_all add: manifesto_section_def socials_section_def List.map_filter_simps)

lemma nodes_App_render:
  "nodes (App_render p) =
     Elem ''div'' [(''className'', ''App'')] [] [section_1 p, manifesto_section, socials_section] #
     nodes (section_1 p) @ nodes manifesto_section @ nodes socials_section"
  by (simp add: App_render_def)

lemma ids_App_render:
  "List.map_filter (\<lambda>n. elem_attr n ''id'') (nodes (App_render p)) = [''manifesto'', ''socials'']"
  using section_1_no_id [of p] static_sections_attrs
  unfolding nodes_App_render
  by (subst nodes_hd [of manifesto_section], subst nodes_hd [of socials_section])
     (simp add: map_filter_attr_None)

lemma getElementById_App_render:
  "getElementById i (App_render p) =
     (if i = ''manifesto'' then Some manifesto_section else if i = ''socials'' then Some socials_section else None)"
  using section_1_no_id [of p] static_sections_attrs
  unfolding getElementById_def nodes_App_render
  by (subst nodes_hd [of manifesto_section], subst nodes_hd [of socials_section])
     (simp add: find_attr_None)

lemma hrefs_section_1:
  "h \<in> set (List.map_filter (\<lambda>n. elem_attr n ''href'') (nodes (section_1 p))) \<Longrightarrow>
   h = ''#socials'' \<or> h = ''#manifesto'' \<or> (\<exists>s. h = getYahooFinanceURL s)"
  by (cases "pg_currentCompany p"; cases "pg_nextUpCompany p"; cases "copied p";
      auto simp: render_defs List.map_filter_simps)

lemma blank_anchors_sections:
  "List.map_filter (\<lambda>n. if elem_tag n = Some ''a'' \<and> elem_attr n ''target'' = Some ''_blank''
      then Some (elem_attr n ''href'', elem_attr n ''rel'') else None) (nodes manifesto_section) = []"
  "List.map_filter (\<lambda>n. if elem_tag n = Some ''a'' \<and> elem_attr n ''target'' = Some ''_blank''
      then Some (elem_attr n ''href'', elem_attr n ''rel'') else None) (nodes socials_section) =
     [(Some ''https://x.com/i/communities/1876718589308207508'', Some ''noopener noreferrer''),
      (Some ''https://discord.gg/ymfyxZkW'', Some ''noopener noreferrer'')]"
  "List.map_filter (\<lambda>n. if elem_tag n = Some ''a'' \<and> elem_attr n ''target'' = Some ''_blank''
      then Some (elem_attr n ''href'', elem_attr n ''rel'') else None) (nodes (section_1 p)) =
     map (\<lambda>c. (Some (getYahooFinanceURL (symbol c)), Some ''noopener noreferrer''))
       (List.map_filter id [pg_currentCompany p, pg_nextUpCompany p])"
    apply (simp_all add: manifesto_section_def socials_section_def List.map_filter_simps)
  by (cases "pg_currentCompany p"; cases "pg_nextUpCompany p"; cases "copied p";
      simp add: render_defs List.map_filter_simps)

lemma box_copies_its_text:
  "box_onClick p = copyToClipboard (text_content identifier_box) p \<and>
   box_onKeyPress ''Enter'' p = copyToClipboard (text_content identifier_box) p"
  by (simp add: box_onClick_def box_onKeyPress_def identifier_box_def company_identifier_def)

lemma CompanyCard_propTypes_backend:
  "CompanyCard_propTypes (PStr t) (company_object c) = [''company.delta''] \<and>
   CompanyCard_propTypes (PStr t) PNull = []"
  by (simp add: CompanyCard_propTypes_def company_object_def required_string_def required_number_def)

section \<open>Properties of the rendered page\<close>

text \<open>
  C12: on every rendered page the manifesto link works: \<open>scrollToManifesto\<close> always
  finds the manifesto section (its \<open>if (manifestoSection)\<close> guard never fails) and
  scrolls it into view after preventing the default jump; every in-page link
  \<open>#id\<close> of the page names an element of the page, and no two elements share an
  \<open>id\<close>, so \<open>getElementById\<close> is unambiguous.
\<close>

theorem App_render_in_page_targets:
  "scrollToManifesto (App_render p) =
     \<lparr>default_prevented = True, scrolled_into_view = Some (manifesto_section, ''smooth'', ''center'')\<rparr> \<and>
   (\<forall>i. CHR ''#'' # i \<in> set (hrefs (App_render p)) \<longrightarrow> getElementById i (App_render p) \<noteq> None) \<and>
   distinct (List.map_filter (\<lambda>n. elem_attr n ''id'') (nodes (App_render p)))"
proof (intro conjI allI impI)
  fix i assume "CHR ''#'' # i \<in> set (hrefs (App_render p))"
  then have "CHR ''#'' # i \<in> set (List.map_filter (\<lambda>n. elem_attr n ''href'') (nodes (section_1 p)))"
    using static_sections_attrs(3,6) by (simp add: hrefs_def nodes_App_render map_filter_attr_None List.map_filter_simps)
  from hrefs_section_1 [OF this] show "getElementById i (App_render p) \<noteq> None"
    by (auto simp: getElementById_App_render getYahooFinanceURL_def)
qed (simp_all add: scrollToManifesto_def getElementById_App_render ids_App_render)

theorem App_render_in_page_targets_witness:
  "CHR ''#'' # ''socials'' \<in> set (hrefs (App_render page_init)) \<and>
   getElementById ''socials'' (App_render page_init) \<noteq> None"
proof -
  have h: "CHR ''#'' # ''socials'' \<in> set (hrefs (App_render page_init))"
    by (simp add: hrefs_def App_render_def render_defs page_init_def manifesto_section_def
        socials_section_def List.map_filter_simps)
  from App_render_in_page_targets [of page_init] h show ?thesis by blast
qed

text \<open>
  C19: the links the page opens in a new tab are exactly the Yahoo Finance pages of
  the current and next-up companies, each only while that company is set, then the X
  and Discord pages; every one of them carries \<open>rel="noopener noreferrer"\<close>, so no
  opened page can reach the page through \<open>window.opener\<close>.
\<close>

theorem App_render_new_tab_links:
  "blank_anchors (App_render p) =
     map (\<lambda>c. (Some (getYahooFinanceURL (symbol c)), Some ''noopener noreferrer''))
       (List.map_filter id [pg_currentCompany p, pg_nextUpCompany p]) @
     [(Some ''https://x.com/i/communities/1876718589308207508'', Some ''noopener noreferrer''),
      (Some ''https://discord.gg/ymfyxZkW'', Some ''noopener noreferrer'')]"
  by (simp add: blank_anchors_def nodes_App_render blank_anchors_sections List.map_filter_simps)

theorem App_render_new_tab_links_witness:
  "blank_anchors (App_render (page_init\<lparr>pg_currentCompany := Some \<lparr>name = ''Apple'', symbol = ''AAPL'', marketcap = 3\<rparr>\<rparr>)) =
     [(Some ''https://finance.yahoo.com/quote/AAPL/'', Some ''noopener noreferrer''),
      (Some ''https://x.com/i/communities/1876718589308207508'', Some ''noopener noreferrer''),
      (Some ''https://discord.gg/ymfyxZkW'', Some ''noopener noreferrer'')]"
  using App_render_new_tab_links [of "page_init\<lparr>pg_currentCompany := Some \<lparr>name = ''Apple'', symbol = ''AAPL'', marketcap = 3\<rparr>\<rparr>"]
  by (simp add: page_init_def getYahooFinanceURL_def List.map_filter_simps)

text \<open>The main text, \<open>$\<close> followed by \<open>toLocaleString\<close> of the distance, reads
  back to the distance: with the commas removed it parses to that integer, and it has
  one comma per full group of three digits beyond the first.\<close>

lemma main_text_readback:
  "main_text_string (Distance d) = CHR ''$'' # toLocaleString d \<and>
   parseFloat (removeAll (CHR '','') (toLocaleString d)) = Num (of_int d) \<and>
   length (filter ((=) (CHR '','')) (toLocaleString d)) = (length (decimal_string (nat \<bar>d\<bar>)) - 1) div 3"
proof (intro conjI)
  show "parseFloat (removeAll (CHR '','') (toLocaleString d)) = Num (of_int d)"
    using parseFloat_decimal_string [of "[]" "nat \<bar>d\<bar>"]
    by (cases "d < 0") (simp_all add: toLocaleString_digits abs_if)
  have "filter ((=) (CHR '','')) (decimal_string (nat \<bar>d\<bar>)) = []"
    using decimal_string_no_comma by (auto simp: filter_empty_conv)
  then show "length (filter ((=) (CHR '','')) (toLocaleString d)) = (length (decimal_string (nat \<bar>d\<bar>)) - 1) div 3"
    by (simp add: toLocaleString_def rev_filter [symmetric] group_rev_commas)
qed (simp add: main_text_string_def)

end
