(* ===== verification/Spec2Isabelle.thy ===== *)
theory Spec2Isabelle
  imports Ticks PageRender
begin

text \<open>
  \<^bold>\<open>A verification development of the flip backend.\<close>

  \<^bold>\<open>The program.\<close> The repository is a Node.js backend and a React page. The
  backend (\<^verbatim>\<open>src/src/cryptoflipbackend\<close>) has two modules.
  \<^verbatim>\<open>getmarketcaps.js\<close> keeps a price cache, fetches the SOL/USD price every five
  minutes and, every two seconds, the balances of two vaults, from which it computes a
  token's market cap and emits it on an \<open>EventEmitter\<close>. \<^verbatim>\<open>server.js\<close> loads a
  CSV of companies sorted by market cap, listens for the emitted value, finds with a
  binary search the company at or above it and the one after it, and sends the three
  to every open WebSocket client; a new client is sent the current state at once. The
  page (\<^verbatim>\<open>src/src/App.js\<close>) displays what it receives.

  \<^bold>\<open>Theories.\<close> One theory per part, imported in this order:
  \<^item> \<open>Flip_Base\<close>: the JavaScript values the backend handles: array reads that may
    be \<open>undefined\<close> (\<open>js_index\<close>), numbers that may be \<open>NaN\<close> (\<open>jsnum\<close>),
    truthiness, the one exception the server code can raise (\<open>TypeError\<close>) and
    \<open>parseFloat\<close> on its decimal-literal grammar; the collections \<open>js_eval\<close> and
    \<open>parse_eval\<close> that evaluate them; the decimal printer \<open>decimal_string\<close> and
    the lemma that \<open>parseFloat\<close> reads it back; list lemmas (sorted lists,
    \<open>takeWhile\<close>).
  \<^item> \<open>ReferenceStore\<close>: \<^verbatim>\<open>server.js\<close> \<open>loadCSVData\<close>, \<open>findInsertPosition\<close>
    and \<open>determineCompanies\<close>. The \<open>while\<close> loop of the binary search is the
    terminating function \<open>bsearch_loop\<close> (measure \<open>right - left + 1\<close>); an array read
    outside the list is the \<open>Inl TypeError\<close> branch; \<open>bsearch_fuel\<close> is the same
    loop with an iteration budget, which counts its iterations. The specification of spec
    section 4.1 is \<open>lower_bound\<close> (first entry at or above the query) and
    \<open>resolveNeighbors\<close>. Lemmas: the loop never leaves the array; on a sorted list it
    keeps the lower-bound invariant and returns the lower bound or an index tied with
    it at the query value; the neighbour pair refines the specification exactly on a
    strictly sorted list and up to equal market caps on a sorted one; loading yields a
    sorted, stable, validated list.
  \<^item> \<open>ValuationFeed\<close>: \<^verbatim>\<open>getmarketcaps.js\<close> \<open>priceCache\<close>,
    \<open>fetchSolUsdPrice\<close>, \<open>fetchTokenBalance\<close>, \<open>getTotalSupply\<close>,
    \<open>calculateAndEmitMarketCap\<close>. An HTTP call is an input: the \<open>axios\<close> outcome
    and the JSON field read (\<open>http_result\<close>). An \<open>async\<close> function is its effect
    after its last \<open>await\<close>, where all its reads and writes of the cache happen; the
    emitted value is the second component of the result. The configuration read from
    \<open>process.env\<close> is \<open>feed_config\<close>; \<open>HELIUS_API_URL\<close> and
    \<open>balance_request\<close> build the JSON-RPC request of \<open>fetchTokenBalance\<close>, and
    \<open>calculate_with_network\<close> runs a tick on the network's answers to its two
    requests. Lemmas: when a tick emits and what; that failures are absorbed; the sign
    of the emitted value; what an unset key does.
  \<^item> \<open>BroadcastHub\<close>: the globals of \<^verbatim>\<open>server.js\<close> and \<open>wss.clients\<close> as
    the record \<open>server_state\<close>, the messages each socket was sent as an ordered list,
    \<open>broadcastData\<close>, the connection handler \<open>on_connection\<close> and the listener
    \<open>on_marketcap\<close>; the invariants \<open>hub_inv\<close> (the state) and \<open>sent_wf\<close>
    (every message sent, with \<open>msg_wf\<close>) and their preservation by each operation.
  \<^item> \<open>Server\<close>: the process as the step function \<open>system_step\<close> over events
    (completion of the CSV load, of a price fetch, of a market cap tick; a connection;
    a socket closing and closed) with the phases \<open>Loading\<close>, \<open>Listening\<close>,
    \<open>Exited\<close>; \<open>run\<close> over event lists; \<open>reachable\<close> as an inductive predicate;
    the invariant \<open>sys_inv\<close> by rule induction; \<open>run_trace\<close> lists the
    snapshots of the states a run passes through.
  \<^item> \<open>Ticks\<close>: overlapping market cap ticks: a tick is split into its start and
    the completions of its two balance fetches (\<open>async_step\<close> on
    \<open>async_system\<close>, the atomic state with the pending ticks); the last completion
    runs the atomic tick \<open>cap_tick\<close>; \<open>InitialPrice\<close> is the first price fetch
    whose \<open>.then\<close> starts a tick; \<open>sequential_ticks\<close> are ticks that do not
    overlap.
  \<^item> \<open>Presentation\<close>: \<^verbatim>\<open>App.js\<close>: the React state as \<open>page_state\<close>, the
    \<open>onmessage\<close> handler on what \<open>JSON.parse\<close> returns (\<open>ws_data\<close>; the server's
    serialization of a message is \<open>wire_message\<close>), the page of a subscriber after its
    messages (\<open>subscriber_page\<close>), the rendered main text (\<open>main_display\<close>) and
    links; the socket's lifetime, the identifier box's click and Enter handlers,
    \<open>copyToClipboard\<close> and the feedback with its timers (\<open>page_step\<close>, with
    reachable page states \<open>page_reachable\<close>); and
    \<^verbatim>\<open>CompanyCard.js\<close> (\<open>CompanyCard\<close>), which \<^verbatim>\<open>App.js\<close> does not render.
  \<^item> \<open>PageRender\<close>: the element tree \<open>App\<close> returns (\<open>App_render\<close>, with
    \<open>section_1\<close>, \<open>manifesto_section\<close>, \<open>socials_section\<close>), a JSX element being
    \<open>Elem tag attributes handlers children\<close>; \<open>scrollToManifesto\<close> on the rendered
    document; the \<open>propTypes\<close> of \<open>CompanyCard\<close>. The browser functions the page
    calls are modelled from their specifications: \<open>getElementById\<close> (first element in
    document order), \<open>toLocaleString\<close> (\<open>en-US\<close> digit grouping).
  \<^item> \<open>Spec2Isabelle\<close> (this theory): the properties that span the server and the
    page.

  \<^bold>\<open>How the parts interact.\<close> The feed's timers start when the module is
  required, before \<open>initServer\<close> has loaded the CSV; the listener and the connection
  handler are installed after the load (\<open>initServer\<close>). \<open>emit\<close> runs the listener
  synchronously, so one tick is one event of \<open>system_step\<close> that updates the cache,
  the globals and every open socket (\<open>cap_tick\<close>). Node.js runs one callback at a
  time, so the events of the model are atomic and any interleaving of timers,
  connections and closings is a sequence of them.

  \<^bold>\<open>What the properties show (claims C1--C40).\<close>
  \<^item> Binary search and neighbours (C1--C7, C10, C13, C25): never raises, returns an
    index in \<open>[0, length]\<close>; is the spec's first-entry-at-or-above on strictly sorted
    lists; with ties may return a later tied index (C3: a divergence from the spec and
    the code's own comment, evaluated in lemma \<open>findInsertPosition_tie_divergence\<close>);
    \<open>determineCompanies\<close> refines \<open>resolveNeighbors\<close> (C4, C5), reports the least
    entry at or above the value (C6), handles both ends (C7), is monotone (C13); the
    spec's \<open>current.value \<le> v\<close> does not hold (lemma
    \<open>determineCompanies_current_above_query\<close>). The loop runs at most \<open>k\<close> iterations
    on fewer than \<open>2^k\<close> companies (C10, the logarithmic time of spec section 2), and
    from any state it finishes within \<open>floorlog 2 (right - left + 1)\<close> iterations (C25).
  \<^item> Valuation (C14, C15, C17, C18, C20--C22): exact emission condition and value
    (C14); failed fetches, a missing rate and an invalid total supply emit nothing
    (C15); sign of the value (C17); the price fetch stores exactly the non-zero prices
    of status-200 responses (C18); a balance fetch reads a non-zero amount exactly from
    a status-200 response carrying it, and every failure reads 0 (C22); a negative
    price is accepted (lemma \<open>fetchSolUsdPrice_negative_price\<close>); an unset
    \<open>HELIUS_API_KEY\<close> sends every request to \<open>?api-key=undefined\<close> and, when those
    are rejected, nothing is ever emitted (C20); \<open>getTotalSupply\<close> reads back a
    printed number, also in the exponent form \<open>"12e3"\<close>, and ignores a trailing
    suffix, so \<open>"12abc"\<close> is 12 (C21).
  \<^item> Loading (C23): a sorted permutation of the valid rows, in which every valid row
    appears.
  \<^item> Process (C9, C11, C16, C26--C35, C40): every message ever sent is the sentinel or
    a value with its own neighbour pair (C9); a socket that is closing or closed is
    never sent anything again (C11); what a socket is sent is, in order, a subsequence
    of the snapshots of the states the run passes through (C16); no event sequence
    raises (C26); open subscribers always hold the current state (C27); the state is
    always the neighbour pair of the latest value (C28); a run with overlapping ticks
    has exactly the outcome of the atomic run of its abstraction \<open>tick_trace\<close>, one
    \<open>CapTick\<close> per tick with its own responses, in completion order, so all of these
    hold for it too (C29); a connection gets exactly the snapshot (C30); a broadcast
    reaches exactly the open sockets (C31); messages are only appended, at most one per
    event and that one the new snapshot (C32); a failed load ends the process (C33);
    values computed during loading are lost (C34); when a later-started tick completes
    first, subscribers get its value before the earlier tick's, and the state ends at
    the earlier tick's value, whatever the responses (C35), while ticks that do not
    overlap give the atomic run in timer order (C40).
  \<^item> Page (C8, C12, C19, C24, C36--C39): the copy feedback is always eventually hidden
    (C8), but when two copies resolve the first timer hides the second copy's feedback
    while its own timer is pending (C39); after unmount no event changes what the page
    holds (C24); the handler and the server's serialization are a round trip (C36); in
    every reachable state an open subscriber's page shows the server's state (C37) and
    the distance to the first company at or above the market cap, or a negative
    distance to the largest company once the market cap is above all of them (C38). On
    every rendered page the manifesto link always scrolls to its section and every
    in-page link has a target, ids being unique (C12), and the links opened in a new
    tab are the company pages and the two social pages, all with
    \<open>noopener noreferrer\<close> (C19). The main text reads back to the distance through
    \<open>toLocaleString\<close> (lemma \<open>main_text_readback\<close>).

  \<^bold>\<open>Choices of the model.\<close> JavaScript numbers are reals or \<open>NaN\<close>: rounding
  and the infinities of doubles are not modelled (so the guard \<open>priceInSol <= 0\<close>,
  which in doubles catches a quotient that underflows to 0, never fires here on
  positive balances). HOL's \<open>x / 0 = 0\<close> replaces the \<open>Infinity\<close> of a double
  division by zero; the code's guard \<open>splTokenBalance > 0\<close> comes before the
  division, so no modelled behaviour depends on it, but with the guard removed the
  model would skip the tick where JavaScript would emit \<open>Infinity\<close>: the guard is
  redundant in the model and the valuation claims do not pin it. The \<open>parseFloat\<close> literal
  \<open>Infinity\<close> reads as \<open>NaN\<close>. Array indices are \<open>int\<close>, as the loop's
  \<open>right = length - 1\<close> is \<open>-1\<close> on an empty list. Socket numbers are allocated in
  connection order. Every loop of the code is a structural or measured recursion, and
  the process model is a step function whose runs are finite event lists. The one
  fuel of the development, the iteration budget of \<open>bsearch_fuel\<close>, is there to
  state the time bound: \<open>k\<close> iterations are enough when the width
  \<open>right - left + 1\<close> is below \<open>2^k\<close>, because each iteration at least halves it
  (\<open>mid_halves\<close>); \<open>right - left + 1\<close> iterations are always enough since
  \<open>n < 2^n\<close>. The liveness of the copy feedback is stated over the explicit sequence
  of the pending timer firings, since every pending timer eventually fires.

  \<^bold>\<open>Not modelled.\<close> Styles, images and the smooth-scrolling animation are
  rendering only (an image is its source module name; the entity \<open>&#8595;\<close> is kept as
  written). \<open>JSON.stringify\<close>/\<open>JSON.parse\<close> are modelled by their effect on the
  message shape (\<open>wire_message\<close>); logging, \<open>express\<close>, \<open>http\<close>,
  \<open>dotenv\<close> and the network are library code whose results are inputs; the server's
  \<open>PORT\<close> and \<open>server.listen\<close> have no observable effect on the properties. Wall-clock
  time is not modelled: the timers' periods only say which interleavings of events
  are possible, and every interleaving is allowed.

  \<^bold>\<open>Plan for the next sittings.\<close> (1) \<open>parseFloat\<close> on fractions
  (\<open>"1.5e3"\<close>) and the CSV rows read back from printed market caps. (2) Exceptions
  raised by \<open>ws.send\<close> on a socket that closes during a broadcast (spec section 7,
  subscriber delivery errors). (3) Event dispatch on the rendered tree: a click on an
  element runs the handler the tree attaches to it.
\<close>

text \<open>A second run: as \<open>demo_events\<close>, but the tick reads balances 20 and 10,
  a market cap of 600, above every company of the store.\<close>

definition demo_high_events :: "event list" where
  "demo_high_events =
    take 3 demo_events @ [CapTick (HttpResponse 200 (JNumber 20)) (HttpResponse 200 (JNumber 10))]"

lemma reachable_page_fields:
  assumes r: "reachable S" and c: "clients (hub S) c = Some OPEN"
  shows "pg_cryptoMarketCap (subscriber_page (sent (hub S) c)) = cryptoMarketCap (hub S) \<and>
         pg_currentCompany (subscriber_page (sent (hub S) c)) = currentCompany (hub S) \<and>
         pg_nextUpCompany (subscriber_page (sent (hub S) c)) = nextUpCompany (hub S)"
proof -
  have "hub_inv (hub S)" using reachable_sys_inv [OF r] by (simp add: sys_inv_def)
  with c have "sent (hub S) c \<noteq> []" "last (sent (hub S) c) = snapshot (hub S)"
    by (simp_all add: hub_inv_def)
  from page_view_subscriber_page [OF this(1)] this(2) show ?thesis
    by (simp add: page_view_def snapshot_def)
qed

lemma reachable_store:
  "reachable S \<Longrightarrow> sorted_store (companies (hub S)) \<and>
     (\<forall>e\<in>set (companies (hub S)). 0 \<le> marketcap e) \<and>
     (\<forall>v. cryptoMarketCap (hub S) = Some v \<longrightarrow>
        determineCompanies (companies (hub S)) v = Inr (currentCompany (hub S), nextUpCompany (hub S)))"
  using reachable_sys_inv [of S] by (auto simp: sys_inv_def hub_inv_def)

text \<open>
  C37: in every reachable state, the page of every open subscriber displays the
  server's current market cap and companies.
\<close>

theorem reachable_subscriber_page:
  assumes "reachable S" "clients (hub S) c = Some OPEN"
  shows "page_view (subscriber_page (sent (hub S) c)) = snapshot (hub S)"
  using reachable_page_fields [OF assms] by (simp add: page_view_def snapshot_def)

theorem reachable_subscriber_page_witness:
  "\<exists>S. run (system_init (Some ''2'')) demo_events = Inr S \<and> clients (hub S) 0 = Some OPEN \<and>
       page_view (subscriber_page (sent (hub S) 0)) = snapshot (hub S)"
proof -
  have "\<exists>S. run (system_init (Some ''2'')) demo_events = Inr S \<and> clients (hub S) 0 = Some OPEN"
    by (simp add: system_eval)
  then obtain S where S: "run (system_init (Some ''2'')) demo_events = Inr S"
    "clients (hub S) 0 = Some OPEN" by blast
  have r: "reachable S" using run_reachable [OF reachable.init S(1)] .
  from reachable_subscriber_page [OF r S(2)] S show ?thesis by blast
qed

text \<open>Where an open subscriber's page stands when some company is at or above the
  latest market cap, and when the market cap is above every company.\<close>

lemma page_distance_found:
  assumes r: "reachable S" and c: "clients (hub S) c = Some OPEN"
    and v: "cryptoMarketCap (hub S) = Some v" "v \<noteq> 0"
    and e: "e \<in> set (companies (hub S))" "v \<le> marketcap e"
  shows "main_display (subscriber_page (sent (hub S) c)) =
           Distance \<lfloor>marketcap (companies (hub S) ! lower_bound (companies (hub S)) v) - v\<rfloor> \<and>
         v \<le> marketcap (companies (hub S) ! lower_bound (companies (hub S)) v)"
proof -
  let ?cs = "companies (hub S)"
  note st = reachable_store [OF r]
  have lb: "lower_bound ?cs v < length ?cs" using lower_bound_least [OF conjunct1 [OF st] e(1) e(2)] by simp
  have d: "determineCompanies ?cs v = Inr (currentCompany (hub S), nextUpCompany (hub S))"
    using st v by simp
  obtain cc where cc: "currentCompany (hub S) = Some cc"
    "marketcap cc = marketcap (?cs ! lower_bound ?cs v)"
    using determineCompanies_current_lb [OF conjunct1 [OF st] d lb] by blast
  have "v \<le> marketcap (?cs ! lower_bound ?cs v)" using lb by (rule lower_bound_at)
  moreover have "main_display (subscriber_page (sent (hub S) c)) = Distance \<lfloor>marketcap cc - v\<rfloor>"
    using reachable_page_fields [OF r c] v cc by (intro main_display_Some) simp_all
  ultimately show ?thesis using cc by simp
qed

lemma page_distance_above:
  assumes r: "reachable S" and c: "clients (hub S) c = Some OPEN"
    and v: "cryptoMarketCap (hub S) = Some v" and ne: "companies (hub S) \<noteq> []"
    and above: "\<forall>e\<in>set (companies (hub S)). marketcap e < v"
  shows "main_display (subscriber_page (sent (hub S) c)) =
           Distance \<lfloor>marketcap (last (companies (hub S))) - v\<rfloor> \<and>
         marketcap (last (companies (hub S))) < v"
proof -
  let ?cs = "companies (hub S)"
  note st = reachable_store [OF r]
  have "lower_bound ?cs v = length ?cs"
    by (rule lower_bound_eqI) (use above in auto)
  with determineCompanies_lb_length [OF conjunct1 [OF st] ne] st v
  have cur: "currentCompany (hub S) = Some (last ?cs)" by simp
  have "last ?cs \<in> set ?cs" using ne by simp
  with above st have lt: "0 \<le> marketcap (last ?cs)" "marketcap (last ?cs) < v" by auto
  then have "main_display (subscriber_page (sent (hub S) c)) =
      Distance \<lfloor>marketcap (last ?cs) - v\<rfloor>"
    using reachable_page_fields [OF r c] v cur by (intro main_display_Some) simp_all
  with lt show ?thesis by blast
qed

text \<open>
  C38: in every reachable state, an open subscriber's page shows the distance from the
  latest non-zero market cap to the first company at or above it, and when the market
  cap is above every company, to the largest company; the distance is negative exactly
  in that second case, where the page says the token is a negative amount away from a
  company it has already passed.
\<close>

theorem reachable_page_distance:
  assumes r: "reachable S" and c: "clients (hub S) c = Some OPEN"
    and v: "cryptoMarketCap (hub S) = Some v" "v \<noteq> 0" and ne: "companies (hub S) \<noteq> []"
  shows "main_display (subscriber_page (sent (hub S) c)) =
           Distance \<lfloor>marketcap (if \<exists>e\<in>set (companies (hub S)). v \<le> marketcap e
                             then companies (hub S) ! lower_bound (companies (hub S)) v
                             else last (companies (hub S))) - v\<rfloor> \<and>
         (\<lfloor>marketcap (if \<exists>e\<in>set (companies (hub S)). v \<le> marketcap e
                    then companies (hub S) ! lower_bound (companies (hub S)) v
                    else last (companies (hub S))) - v\<rfloor> < 0 \<longleftrightarrow>
          (\<forall>e\<in>set (companies (hub S)). marketcap e < v))"
proof (cases "\<exists>e\<in>set (companies (hub S)). v \<le> marketcap e")
  case True
  then obtain e0 where e0: "e0 \<in> set (companies (hub S))" "v \<le> marketcap e0" by blast
  from page_distance_found [OF r c v e0] True e0 show ?thesis by (auto simp: not_less)
next
  case False
  then have "\<forall>e\<in>set (companies (hub S)). marketcap e < v" by (auto simp: not_le)
  from page_distance_above [OF r c v(1) ne this] False this show ?thesis by auto
qed

theorem reachable_page_distance_witness:
  "(\<exists>S. run (system_init (Some ''2'')) demo_events = Inr S \<and>
       main_display (subscriber_page (sent (hub S) 0)) = Distance 50) \<and>
   (\<exists>S. run (system_init (Some ''2'')) demo_high_events = Inr S \<and>
       main_display (subscriber_page (sent (hub S) 0)) = Distance (-300))"
proof (rule conjI)
  have "\<exists>S. run (system_init (Some ''2'')) demo_events = Inr S \<and> clients (hub S) 0 = Some OPEN \<and>
      cryptoMarketCap (hub S) = Some 150 \<and> companies (hub S) = scenario_store"
    by (simp add: system_eval store_examples)
  then obtain S where S: "run (system_init (Some ''2'')) demo_events = Inr S"
    "clients (hub S) 0 = Some OPEN" "cryptoMarketCap (hub S) = Some 150"
    "companies (hub S) = scenario_store" by blast
  have r: "reachable S" using run_reachable [OF reachable.init S(1)] .
  have "lower_bound scenario_store 150 = 1" by (simp add: store_examples lower_bound_def)
  with reachable_page_distance [OF r S(2) S(3)] S(1,4)
  show "\<exists>S. run (system_init (Some ''2'')) demo_events = Inr S \<and>
       main_display (subscriber_page (sent (hub S) 0)) = Distance 50"
    by (simp add: store_examples)
next
  have "\<exists>S. run (system_init (Some ''2'')) demo_high_events = Inr S \<and>
      clients (hub S) 0 = Some OPEN \<and>
      cryptoMarketCap (hub S) = Some 600 \<and> companies (hub S) = scenario_store"
    by (simp add: demo_high_events_def system_eval store_examples)
  then obtain S where S: "run (system_init (Some ''2'')) demo_high_events = Inr S"
    "clients (hub S) 0 = Some OPEN" "cryptoMarketCap (hub S) = Some 600"
    "companies (hub S) = scenario_store" by blast
  have r: "reachable S" using run_reachable [OF reachable.init S(1)] .
  from reachable_page_distance [OF r S(2) S(3)] S(1,4)
  show "\<exists>S. run (system_init (Some ''2'')) demo_high_events = Inr S \<and>
       main_display (subscriber_page (sent (hub S) 0)) = Distance (-300)"
    by (simp add: store_examples)
qed

end
